(* ===== verification/Prelude.thy ===== *)
theory Prelude
  imports Main "HOL-Library.Word" "HOL-Library.AList" "HOL-Library.Char_ord"
    "HOL-Library.List_Lexorder" "HOL-Library.Product_Lexorder"
begin

text \<open>
  Shared vocabulary of the development: machine integers at their width, Rust strings as
  UTF-8 byte strings (\<open>string\<close>, so \<open>length\<close> is \<open>str::len\<close>), the parts of the Rust
  standard library that the modelled sources use (\<open>str::split\<close>, \<open>split_once\<close>,
  \<open>rsplit_once\<close>, \<open>eq_ignore_ascii_case\<close>, \<open>from_str_radix\<close>, decimal and hexadecimal
  formatting, \<open>HashMap\<close>), and two contracts used across components: \<open>dictionary\<close>, what a
  client of a \<open>HashMap\<close> relies on, and \<open>guarded_machine\<close>, a state machine with an
  invariant that every operation keeps.

  Time stamps of monotonic clocks (\<open>Instant\<close>) are milliseconds as \<open>nat\<close>, on which
  subtraction stops at zero exactly as \<open>saturating_duration_since\<close> does.
\<close>

named_theorems hm_simps \<open>lookup after each hash-map operation\<close>
named_theorems wf_intros \<open>preservation of well-formedness\<close>

type_synonym u8 = "8 word"
type_synonym u16 = "16 word"
type_synonym u32 = "32 word"
type_synonym u64 = "64 word"
type_synonym i64 = "64 word"
type_synonym instant = nat
type_synonym ('k, 'v) hashmap = "('k \<times> 'v) list"

section \<open>Strings\<close>

text \<open>\<open>str::split\<close> with a set of separator characters: \<open>n\<close> separators give \<open>n + 1\<close> parts.\<close>

fun split_on :: "(char \<Rightarrow> bool) \<Rightarrow> string \<Rightarrow> string list" where
  "split_on p [] = [[]]"
| "split_on p (c # cs) =
     (if p c then [] # split_on p cs
      else (case split_on p cs of [] \<Rightarrow> [[c]] | q # qs \<Rightarrow> (c # q) # qs))"

text \<open>\<open>str::split_once\<close>: the parts before and after the first separator.\<close>

fun split_once :: "char \<Rightarrow> string \<Rightarrow> (string \<times> string) option" where
  "split_once d [] = None"
| "split_once d (c # cs) =
     (if c = d then Some ([], cs)
      else map_option (\<lambda>(a, b). (c # a, b)) (split_once d cs))"

text \<open>\<open>str::rsplit_once\<close>: the parts before and after the last separator.\<close>

definition rsplit_once :: "char \<Rightarrow> string \<Rightarrow> (string \<times> string) option" where
  "rsplit_once d s = map_option (\<lambda>(a, b). (rev b, rev a)) (split_once d (rev s))"

fun join_with :: "string \<Rightarrow> string list \<Rightarrow> string" where
  "join_with sep [] = []"
| "join_with sep [p] = p"
| "join_with sep (p # q # ps) = p @ sep @ join_with sep (q # ps)"

definition starts_with :: "string \<Rightarrow> string \<Rightarrow> bool" where
  "starts_with p s \<longleftrightarrow> take (length p) s = p"

definition ascii_lower :: "char \<Rightarrow> char" where
  "ascii_lower c = (let n = (of_char c :: nat) in
     if 65 \<le> n \<and> n \<le> 90 then char_of (n + 32) else c)"

definition eq_ignore_ascii_case :: "string \<Rightarrow> string \<Rightarrow> bool" where
  "eq_ignore_ascii_case a b \<longleftrightarrow> map ascii_lower a = map ascii_lower b"

lemma split_on_nonempty [simp]: "split_on p s \<noteq> []"
  by (induction s) (auto split: list.splits)

lemma split_on_none: "(\<forall>c\<in>set s. \<not> p c) \<Longrightarrow> split_on p s = [s]"
  by (induction s) auto

lemma split_on_append:
  "(\<forall>c\<in>set s. \<not> p c) \<Longrightarrow> p d \<Longrightarrow> split_on p (s @ d # t) = s # split_on p t"
  by (induction s) auto

lemma join_split: "join_with [d] (split_on (\<lambda>c. c = d) s) = s"
proof (induction s)
  case Nil
  then show ?case by simp
next
  case (Cons c cs)
  obtain q qs where q: "split_on (\<lambda>c. c = d) cs = q # qs"
    using split_on_nonempty by (cases "split_on (\<lambda>c. c = d) cs") auto
  with Cons.IH show ?case by (cases qs) auto
qed

lemma split_once_append:
  "d \<notin> set s \<Longrightarrow> split_once d (s @ d # t) = Some (s, t)"
  by (induction s) auto

lemma split_once_none: "d \<notin> set s \<Longrightarrow> split_once d s = None"
  by (induction s) auto

lemma rsplit_once_append:
  assumes "d \<notin> set t"
  shows "rsplit_once d (s @ d # t) = Some (s, t)"
  using split_once_append [of d "rev t" "rev s"] assms by (simp add: rsplit_once_def)

lemma eq_ignore_ascii_case_refl [simp]: "eq_ignore_ascii_case a a"
  by (simp add: eq_ignore_ascii_case_def)

lemma eq_ignore_ascii_case_sym: "eq_ignore_ascii_case a b = eq_ignore_ascii_case b a"
  by (auto simp: eq_ignore_ascii_case_def)

lemma eq_ignore_ascii_case_trans:
  "eq_ignore_ascii_case a b \<Longrightarrow> eq_ignore_ascii_case b c \<Longrightarrow> eq_ignore_ascii_case a c"
  by (auto simp: eq_ignore_ascii_case_def)

section \<open>Numbers as text\<close>

text \<open>\<open>char::to_digit\<close> for a radix up to 36.\<close>

definition to_digit :: "nat \<Rightarrow> char \<Rightarrow> nat option" where
  "to_digit radix c = (let n = (of_char c :: nat) in
     let d = (if 48 \<le> n \<and> n \<le> 57 then n - 48
              else if 97 \<le> n \<and> n \<le> 122 then n - 87
              else if 65 \<le> n \<and> n \<le> 90 then n - 55
              else 36)
     in if d < radix then Some d else None)"

text \<open>The checked digit loop of \<open>from_str_radix\<close>: every step multiplies and adds, and
  fails on a bad digit or when the value leaves the type.\<close>

fun digits_acc :: "nat \<Rightarrow> nat \<Rightarrow> nat \<Rightarrow> string \<Rightarrow> nat option" where
  "digits_acc radix mx acc [] = Some acc"
| "digits_acc radix mx acc (c # cs) =
     (case to_digit radix c of
        None \<Rightarrow> None
      | Some d \<Rightarrow> (if radix * acc + d \<le> mx then digits_acc radix mx (radix * acc + d) cs
                  else None))"

text \<open>\<open>from_str_radix\<close> of an unsigned type whose largest value is \<open>mx\<close>: one leading plus
  sign is accepted, leading zeros too, the empty text and a bare sign are errors.\<close>

definition from_str_radix :: "nat \<Rightarrow> nat \<Rightarrow> string \<Rightarrow> nat option" where
  "from_str_radix radix mx s =
     (if s = [] \<or> s = ''+'' \<or> s = ''-'' then None
      else if hd s = CHR ''+'' then digits_acc radix mx 0 (tl s)
      else digits_acc radix mx 0 s)"

text \<open>Case does not matter to a number.\<close>

lemma ascii_lower_code: "of_char (ascii_lower c) = (let n = (of_char c :: nat) in if 65 \<le> n \<and> n \<le> 90 then n + 32 else n)"
  by (simp add: ascii_lower_def Let_def)

lemma ascii_lower_eq_iff:
  assumes "\<not> (97 \<le> (of_char d :: nat) \<and> (of_char d :: nat) \<le> 122)" "\<not> (65 \<le> (of_char d :: nat) \<and> (of_char d :: nat) \<le> 90)"
  shows "ascii_lower c = d \<longleftrightarrow> c = d"
proof
  assume "ascii_lower c = d"
  then have "of_char (ascii_lower c) = (of_char d :: nat)" by simp
  with assms \<open>ascii_lower c = d\<close> show "c = d" by (auto simp: ascii_lower_code Let_def ascii_lower_def split: if_splits)
next
  assume "c = d"
  with assms show "ascii_lower c = d" by (auto simp: ascii_lower_def)
qed

lemma to_digit_lower [simp]: "to_digit radix (ascii_lower c) = to_digit radix c"
  by (simp add: to_digit_def ascii_lower_code Let_def)

lemma digits_acc_lower [simp]: "digits_acc radix mx acc (map ascii_lower s) = digits_acc radix mx acc s"
  by (induction s arbitrary: acc) (auto split: option.splits)

lemma from_str_radix_lower [simp]: "from_str_radix radix mx (map ascii_lower s) = from_str_radix radix mx s"
proof -
  have p: "ascii_lower c = CHR ''+'' \<longleftrightarrow> c = CHR ''+''" "ascii_lower c = CHR ''-'' \<longleftrightarrow> c = CHR ''-''" for c
    by (rule ascii_lower_eq_iff; simp)+
  show ?thesis
  proof (cases s)
    case (Cons c cs)
    have "digits_acc radix mx 0 (ascii_lower c # map ascii_lower cs) = digits_acc radix mx 0 (c # cs)"
      using digits_acc_lower [of radix mx 0 "c # cs"] by simp
    with Cons show ?thesis by (simp add: from_str_radix_def p del: digits_acc.simps(2))
  qed (simp add: from_str_radix_def)
qed

lemma split_on_map: "(\<And>c. p (f c) = p c) \<Longrightarrow> split_on p (map f s) = map (map f) (split_on p s)"
  by (induction s) (auto split: list.splits)

definition parse_u8 :: "string \<Rightarrow> u8 option" where
  "parse_u8 s = map_option word_of_nat (from_str_radix 10 255 s)"

definition digit_char :: "nat \<Rightarrow> char" where
  "digit_char d = char_of (if d < 10 then 48 + d else 87 + d)"

text \<open>Decimal formatting (\<open>Display\<close> of the unsigned types).\<close>

fun show_nat :: "nat \<Rightarrow> string" where
  "show_nat n = (if n < 10 then [digit_char n] else show_nat (n div 10) @ [digit_char (n mod 10)])"

declare show_nat.simps [simp del]

definition show_u8 :: "u8 \<Rightarrow> string" where
  "show_u8 w = show_nat (unat w)"

text \<open>The \<open>{:02x}\<close> formatting of a byte.\<close>

definition hex2 :: "u8 \<Rightarrow> string" where
  "hex2 w = [digit_char (unat w div 16), digit_char (unat w mod 16)]"

lemma unat_u8_less [simp]: "unat (w :: u8) < 256"
proof -
  have "unat w < 2 ^ LENGTH(8)" by (rule unsigned_less)
  then show ?thesis by simp
qed

lemma bit_u8_high [simp]: "8 \<le> k \<Longrightarrow> \<not> bit (w :: u8) (k + n)"
  by (auto dest: bit_imp_le_length)

lemma unat_u8_le [simp]: "unat (w :: u8) \<le> 255"
  using unat_u8_less [of w] by linarith

lemma unat_u8_div_le [simp]: "unat (w :: u8) div n \<le> 255"
  by (rule order_trans [OF div_le_dividend unat_u8_le])

lemma unat_u8_div [simp]:
  "unat (w :: u8) div 16 < 16" "unat w div 100 < 10" "unat w div 10 div 10 < 10"
  "unat w div 100 < 16"
  using unat_u8_less [of w] by linarith+

lemma to_digit_digit_char [simp]: "d < r \<Longrightarrow> r \<le> 16 \<Longrightarrow> to_digit r (digit_char d) = Some d"
  by (auto simp: to_digit_def digit_char_def Let_def)

lemma digit_char_neq_sign [simp]:
  "d < 16 \<Longrightarrow> digit_char d \<noteq> CHR ''+''" "d < 16 \<Longrightarrow> digit_char d \<noteq> CHR ''-''"
  "d < 16 \<Longrightarrow> digit_char d \<noteq> CHR ''.''" "d < 16 \<Longrightarrow> digit_char d \<noteq> CHR '':''"
  "d < 16 \<Longrightarrow> digit_char d \<noteq> CHR ''/''"
  by (auto simp: digit_char_def char_of_eq_iff take_bit_eq_mod split: if_splits)

lemma digit_char_neq_0 [simp]: "0 < d \<Longrightarrow> d < 16 \<Longrightarrow> digit_char d \<noteq> CHR ''0''"
  by (auto simp: digit_char_def char_of_eq_iff take_bit_eq_mod split: if_splits)

lemma digit_char_0 [simp]: "digit_char 0 = CHR ''0''"
  by (simp add: digit_char_def char_of_eq_iff)

lemma to_digit_10_Some:
  assumes "to_digit 10 c = Some d"
  shows "d < 10" "digit_char d = c"
proof -
  let ?n = "of_char c :: nat"
  from assms have d: "d = ?n - 48" "48 \<le> ?n" "?n \<le> 57"
    by (auto simp: to_digit_def Let_def split: if_splits)
  then show "d < 10" by simp
  with d show "digit_char d = c" by (simp add: digit_char_def)
qed

lemma unat_word_of_nat_u8 [simp]: "n \<le> 255 \<Longrightarrow> unat (word_of_nat n :: u8) = n"
  by (simp add: unsigned_of_nat take_bit_nat_eq_self)

lemma from_str_radix_hex2 [simp]: "from_str_radix 16 255 (hex2 w) = Some (unat w)"
  using unat_u8_less [of w] by (auto simp: hex2_def from_str_radix_def)

lemma show_nat_small: "n < 10 \<Longrightarrow> show_nat n = [digit_char n]"
  by (simp add: show_nat.simps)

lemma show_nat_big: "10 \<le> n \<Longrightarrow> show_nat n = show_nat (n div 10) @ [digit_char (n mod 10)]"
  by (subst show_nat.simps) simp

lemma div_div_10: "n div 10 div 10 = n div (100 :: nat)"
  by (simp add: div_mult2_eq [symmetric])

lemma dec3 [simp]: "100 * (n div 100) + 10 * (n div 10 mod 10) + n mod 10 = (n :: nat)"
proof -
  have "10 * (n div 100) + n div 10 mod 10 = n div 10"
    using mult_div_mod_eq [of 10 "n div 10"] by (simp only: div_div_10)
  then have "10 * (10 * (n div 100) + n div 10 mod 10) + n mod 10 = n" by simp
  then show ?thesis by (simp add: algebra_simps)
qed

text \<open>The three shapes of a byte in decimal.\<close>

lemma show_u8_cases:
  obtains "unat w < 10" "show_u8 w = [digit_char (unat w)]"
  | "10 \<le> unat w" "unat w < 100"
    "show_u8 w = [digit_char (unat w div 10), digit_char (unat w mod 10)]"
  | "100 \<le> unat w" "unat w < 256"
    "show_u8 w = [digit_char (unat w div 100), digit_char (unat w div 10 mod 10),
       digit_char (unat w mod 10)]"
proof -
  consider "unat w < 10" | "10 \<le> unat w" "unat w < 100" | "100 \<le> unat w"
    by linarith
  then show thesis
  proof cases
    case 1
    then show ?thesis using that(1) by (simp add: show_u8_def show_nat_small)
  next
    case 2
    then have "unat w div 10 < 10" by simp
    with 2 show ?thesis
      using that(2) by (simp add: show_u8_def show_nat_big show_nat_small)
  next
    case 3
    then have "10 \<le> unat w div 10" and "unat w div 10 div 10 < 10"
      using unat_u8_less [of w] by simp_all
    with 3 show ?thesis
      using that(3) by (simp add: show_u8_def show_nat_big show_nat_small div_div_10)
  qed
qed

lemma dec2_le [simp]: "10 * (unat (w :: u8) div 100) + unat w div 10 mod 10 \<le> 255"
  using dec3 [of "unat w"] unat_u8_le [of w] by linarith

lemma from_str_radix_show [simp]: "from_str_radix 10 255 (show_u8 w) = Some (unat w)"
  by (rule show_u8_cases [of w]) (auto simp: from_str_radix_def)

lemma parse_u8_show [simp]: "parse_u8 (show_u8 w) = Some w"
  by (simp add: parse_u8_def)

lemma show_u8_no_sep:
  "c \<in> set (show_u8 w) \<Longrightarrow> c \<noteq> CHR ''.'' \<and> c \<noteq> CHR ''/''"
  by (rule show_u8_cases [of w]) auto

lemma hex2_no_sep:
  "c \<in> set (hex2 w) \<Longrightarrow> c \<noteq> CHR '':'' \<and> c \<noteq> CHR ''-''"
  by (auto simp: hex2_def)

section \<open>Hash maps\<close>

text \<open>
  A \<open>HashMap\<close> is an association list with distinct keys; the list order stands for the
  iteration order, which Rust leaves open. Theorems about iteration either do not depend on
  it or hold for every list, hence for every order.
\<close>

abbreviation hm_get :: "('k, 'v) hashmap \<Rightarrow> 'k \<Rightarrow> 'v option" where
  "hm_get m k \<equiv> map_of m k"

definition hm_wf :: "('k, 'v) hashmap \<Rightarrow> bool" where
  "hm_wf m \<longleftrightarrow> distinct (map fst m)"

definition hm_contains :: "'k \<Rightarrow> ('k, 'v) hashmap \<Rightarrow> bool" where
  "hm_contains k m \<longleftrightarrow> map_of m k \<noteq> None"

definition hm_insert :: "'k \<Rightarrow> 'v \<Rightarrow> ('k, 'v) hashmap \<Rightarrow> ('k, 'v) hashmap" where
  "hm_insert k v m = AList.update k v m"

definition hm_remove :: "'k \<Rightarrow> ('k, 'v) hashmap \<Rightarrow> ('k, 'v) hashmap" where
  "hm_remove k m = filter (\<lambda>(k', _). k' \<noteq> k) m"

definition hm_retain :: "('k \<Rightarrow> 'v \<Rightarrow> bool) \<Rightarrow> ('k, 'v) hashmap \<Rightarrow> ('k, 'v) hashmap" where
  "hm_retain p m = filter (\<lambda>(k, v). p k v) m"

text \<open>A loop over \<open>values_mut\<close>, and one \<open>get_mut\<close> followed by an assignment.\<close>

definition hm_map :: "('k \<Rightarrow> 'v \<Rightarrow> 'v) \<Rightarrow> ('k, 'v) hashmap \<Rightarrow> ('k, 'v) hashmap" where
  "hm_map f m = map (\<lambda>(k, v). (k, f k v)) m"

definition hm_modify :: "'k \<Rightarrow> ('v \<Rightarrow> 'v) \<Rightarrow> ('k, 'v) hashmap \<Rightarrow> ('k, 'v) hashmap" where
  "hm_modify k f m = hm_map (\<lambda>k' v. if k' = k then f v else v) m"

abbreviation hm_values :: "('k, 'v) hashmap \<Rightarrow> 'v list" where
  "hm_values m \<equiv> map snd m"

lemma hm_wf_empty [simp, wf_intros]: "hm_wf []"
  by (simp add: hm_wf_def)

lemma hm_get_insert [hm_simps]:
  "hm_get (hm_insert k v m) k' = (if k' = k then Some v else hm_get m k')"
  by (simp add: hm_insert_def update_conv')

lemma hm_insert_fun: "map_of (hm_insert k v m) = (map_of m)(k \<mapsto> v)"
  by (simp add: fun_eq_iff hm_get_insert)

lemma hm_wf_insert [wf_intros]: "hm_wf m \<Longrightarrow> hm_wf (hm_insert k v m)"
  by (simp add: hm_wf_def hm_insert_def distinct_update)

lemma hm_get_remove [hm_simps]:
  "hm_get (hm_remove k m) k' = (if k' = k then None else hm_get m k')"
  by (induction m) (auto simp: hm_remove_def)

lemma hm_wf_remove [wf_intros]: "hm_wf m \<Longrightarrow> hm_wf (hm_remove k m)"
  by (induction m) (auto simp: hm_wf_def hm_remove_def)

lemma hm_get_retain [hm_simps]:
  "hm_wf m \<Longrightarrow> hm_get (hm_retain p m) k =
     (case hm_get m k of None \<Rightarrow> None | Some v \<Rightarrow> if p k v then Some v else None)"
  by (induction m)
    (auto simp: hm_retain_def hm_wf_def split: option.splits dest: map_of_SomeD intro: rev_image_eqI)

lemma hm_wf_retain [wf_intros]: "hm_wf m \<Longrightarrow> hm_wf (hm_retain p m)"
  by (induction m) (auto simp: hm_wf_def hm_retain_def)

lemma hm_get_map [hm_simps]: "hm_get (hm_map f m) k = map_option (f k) (hm_get m k)"
  by (induction m) (auto simp: hm_map_def)

lemma hm_keys_map [simp]: "map fst (hm_map f m) = map fst m"
  by (induction m) (auto simp: hm_map_def)

lemma hm_wf_map [wf_intros]: "hm_wf m \<Longrightarrow> hm_wf (hm_map f m)"
  by (simp add: hm_wf_def)

lemma hm_get_modify [hm_simps]:
  "hm_get (hm_modify k f m) k' = (if k' = k then map_option f (hm_get m k) else hm_get m k')"
  by (simp add: hm_modify_def hm_get_map option.map_ident)

lemma hm_wf_modify [wf_intros]: "hm_wf m \<Longrightarrow> hm_wf (hm_modify k f m)"
  by (simp add: hm_modify_def wf_intros)

lemma hm_in_set_iff: "hm_wf m \<Longrightarrow> (k, v) \<in> set m \<longleftrightarrow> hm_get m k = Some v"
  by (simp add: hm_wf_def)

lemma hm_contains_set: "hm_contains k m \<longleftrightarrow> k \<in> fst ` set m"
  by (auto simp: hm_contains_def map_of_eq_None_iff)

lemma hm_set_insert: "fst ` set (hm_insert k v m) = insert k (fst ` set m)"
  by (simp add: hm_insert_def dom_update [symmetric] dom_map_of_conv_image_fst [symmetric] del: dom_map_of_conv_image_fst)
    (auto simp: update_conv' dom_def)

lemma hm_length_insert:
  "length (hm_insert k v m) = (if hm_contains k m then length m else Suc (length m))"
  by (induction m) (auto simp: hm_insert_def hm_contains_def)

lemma hm_length_retain: "length (hm_retain p m) \<le> length m"
  by (simp add: hm_retain_def)

lemma hm_length_remove:
  "hm_wf m \<Longrightarrow> length (hm_remove k m) = (if hm_contains k m then length m - 1 else length m)"
proof (induction m)
  case Nil
  then show ?case by (simp add: hm_remove_def)
next
  case (Cons e m)
  obtain k' v' where e: "e = (k', v')" by (cases e)
  from Cons.prems e have wf: "hm_wf m" and new: "k' \<notin> fst ` set m"
    by (auto simp: hm_wf_def)
  show ?case
  proof (cases "k' = k")
    case True
    with new e have "hm_remove k m = m"
      by (auto simp: hm_remove_def filter_id_conv intro: rev_image_eqI)
    with True e show ?thesis by (simp add: hm_remove_def hm_contains_def)
  next
    case False
    then have "length (hm_remove k (e # m)) = Suc (length (hm_remove k m))"
      using e by (simp add: hm_remove_def)
    moreover have "hm_contains k m \<Longrightarrow> length m \<noteq> 0"
      by (auto simp: hm_contains_def)
    ultimately show ?thesis
      using False e Cons.IH [OF wf] by (auto simp: hm_contains_def)
  qed
qed

text \<open>
  What a client of the map relies on. The lemmas of the contract are proved once, for any
  provider, and reach the components through the interpretation \<open>hm\<close> below.
\<close>

locale dictionary =
  fixes wf :: "'m \<Rightarrow> bool"
    and find :: "'m \<Rightarrow> 'k \<Rightarrow> 'v option"
    and put :: "'k \<Rightarrow> 'v \<Rightarrow> 'm \<Rightarrow> 'm"
    and del :: "'k \<Rightarrow> 'm \<Rightarrow> 'm"
    and keep :: "('k \<Rightarrow> 'v \<Rightarrow> bool) \<Rightarrow> 'm \<Rightarrow> 'm"
    and size_of :: "'m \<Rightarrow> nat"
  assumes find_put: "find (put k v m) k' = (if k' = k then Some v else find m k')"
    and find_del: "find (del k m) k' = (if k' = k then None else find m k')"
    and find_keep: "wf m \<Longrightarrow> find (keep p m) k =
      (case find m k of None \<Rightarrow> None | Some v \<Rightarrow> if p k v then Some v else None)"
    and wf_put: "wf m \<Longrightarrow> wf (put k v m)"
    and wf_del: "wf m \<Longrightarrow> wf (del k m)"
    and wf_keep: "wf m \<Longrightarrow> wf (keep p m)"
    and size_put: "size_of (put k v m) = (if find m k = None then Suc (size_of m) else size_of m)"
    and size_del: "wf m \<Longrightarrow> size_of (del k m) = (if find m k = None then size_of m else size_of m - 1)"
    and size_keep: "size_of (keep p m) \<le> size_of m"
begin

lemma put_over: "find m k = Some w \<Longrightarrow> size_of (put k v m) = size_of m"
  by (simp add: size_put)

lemma put_bounded: "size_of m < n \<Longrightarrow> size_of (put k v m) \<le> n"
  by (simp add: size_put)

lemma keep_bounded: "size_of m \<le> n \<Longrightarrow> size_of (keep p m) \<le> n"
  using size_keep [of p m] by linarith

lemma keep_find_Some: "wf m \<Longrightarrow> find (keep p m) k = Some v \<longleftrightarrow> find m k = Some v \<and> p k v"
  by (auto simp: find_keep split: option.splits)

end

interpretation hm: dictionary hm_wf hm_get hm_insert hm_remove hm_retain length
  by unfold_locales
    (auto simp: hm_simps wf_intros hm_length_insert hm_length_remove hm_length_retain hm_contains_def)

text \<open>
  A deterministic machine with an invariant that every operation keeps. Each component with
  state interprets it with its own operations, so a run of any length from an initial state
  satisfies the invariant.
\<close>

locale guarded_machine =
  fixes start :: "'s \<Rightarrow> bool"
    and step :: "'e \<Rightarrow> 's \<Rightarrow> 's"
    and inv :: "'s \<Rightarrow> bool"
  assumes inv_start: "start s \<Longrightarrow> inv s"
    and inv_step: "inv s \<Longrightarrow> inv (step e s)"
begin

lemma run_inv: "inv s \<Longrightarrow> inv (fold step es s)"
  by (induction es arbitrary: s) (auto simp: inv_step)

lemma reach_inv: "start s \<Longrightarrow> inv (fold step es s)"
  by (rule run_inv) (rule inv_start)

lemma run_app: "fold step (es @ fs) s = fold step fs (fold step es s)"
  by simp

end

end
