(* ===== verification/Errors.thy ===== *)
theory Errors
  imports Prelude
begin

text \<open>
  \<open>error.rs\<close>: the error type every fallible operation of the backend returns, its wire
  discriminator (\<open>kind\<close>) and its display text. Fallible operations return
  \<open>'a result\<close>, with \<open>Inl\<close> for \<open>Err\<close>; the \<open>?\<close> operator is \<open>res_bind\<close>. The
  payloads of \<open>Io\<close> and \<open>Serde\<close> are foreign error objects, kept as their display text.
\<close>

datatype app_error =
    Network string
  | AddressNotReady string
  | DiscoveryUnavailable string
  | Stream string
  | Config string
  | Validation string
  | SrtPassphraseUnavailable string
  | Camera string
  | Io string
  | Serde string

type_synonym 'a result = "app_error + 'a"

fun app_error_kind :: "app_error \<Rightarrow> string" where
  "app_error_kind (Network _) = ''Network''"
| "app_error_kind (AddressNotReady _) = ''Network''"
| "app_error_kind (DiscoveryUnavailable _) = ''DiscoveryUnavailable''"
| "app_error_kind (Stream _) = ''Stream''"
| "app_error_kind (Config _) = ''Config''"
| "app_error_kind (Validation _) = ''Validation''"
| "app_error_kind (SrtPassphraseUnavailable _) = ''SrtPassphraseUnavailable''"
| "app_error_kind (Camera _) = ''Camera''"
| "app_error_kind (Io _) = ''Io''"
| "app_error_kind (Serde _) = ''Serde''"

fun app_error_to_string :: "app_error \<Rightarrow> string" where
  "app_error_to_string (Network m) = ''Network error: '' @ m"
| "app_error_to_string (AddressNotReady m) = ''Network error: '' @ m"
| "app_error_to_string (DiscoveryUnavailable m) = ''Device discovery unavailable: '' @ m"
| "app_error_to_string (Stream m) = ''Stream error: '' @ m"
| "app_error_to_string (Config m) = ''Config error: '' @ m"
| "app_error_to_string (Validation m) = ''Validation error: '' @ m"
| "app_error_to_string (SrtPassphraseUnavailable m) = ''SRT passphrase unavailable: '' @ m"
| "app_error_to_string (Camera m) = ''Camera error: '' @ m"
| "app_error_to_string (Io m) = ''IO error: '' @ m"
| "app_error_to_string (Serde m) = ''Serialization error: '' @ m"

definition res_bind :: "'a result \<Rightarrow> ('a \<Rightarrow> 'b result) \<Rightarrow> 'b result" where
  "res_bind r f = (case r of Inl e \<Rightarrow> Inl e | Inr x \<Rightarrow> f x)"

definition ok_or :: "app_error \<Rightarrow> 'a option \<Rightarrow> 'a result" where
  "ok_or e x = (case x of None \<Rightarrow> Inl e | Some v \<Rightarrow> Inr v)"

lemma res_bind_simps [simp]:
  "res_bind (Inl e) f = Inl e" "res_bind (Inr x) f = f x"
  by (simp_all add: res_bind_def)

lemma ok_or_simps [simp]: "ok_or e None = Inl e" "ok_or e (Some v) = Inr v"
  by (simp_all add: ok_or_def)

lemma res_bind_Inr_iff: "res_bind r f = Inr y \<longleftrightarrow> (\<exists>x. r = Inr x \<and> f x = Inr y)"
  by (cases r) auto

lemma ok_or_Inr_iff [simp]: "ok_or e x = Inr v \<longleftrightarrow> x = Some v"
  by (cases x) auto

text \<open>Fallible steps over a state, for code that calls out in sequence with \<open>?\<close>: the state an
  error leaves is the one the failing call left.\<close>

type_synonym ('a, 's) io = "'s \<Rightarrow> 'a result \<times> 's"

definition io_bind :: "('a, 's) io \<Rightarrow> ('a \<Rightarrow> ('b, 's) io) \<Rightarrow> ('b, 's) io" where
  "io_bind m f s = (case m s of (Inl e, s') \<Rightarrow> (Inl e, s') | (Inr x, s') \<Rightarrow> f x s')"

definition io_lift :: "'a result \<Rightarrow> ('a, 's) io" where
  "io_lift r s = (r, s)"

definition io_get :: "('s \<Rightarrow> 'a result) \<Rightarrow> ('a, 's) io" where
  "io_get f s = (f s, s)"

lemma io_bind_Inr_iff:
  "io_bind m f s = (Inr y, s') \<longleftrightarrow> (\<exists>x u. m s = (Inr x, u) \<and> f x u = (Inr y, s'))"
  by (auto simp: io_bind_def split: prod.splits sum.splits)

lemma io_bind_Inl_iff:
  "io_bind m f s = (Inl e, s') \<longleftrightarrow> m s = (Inl e, s') \<or> (\<exists>x u. m s = (Inr x, u) \<and> f x u = (Inl e, s'))"
  by (auto simp: io_bind_def split: prod.splits sum.splits)

lemma io_bind_cong [fundef_cong]:
  "m s = m' s' \<Longrightarrow> (\<And>x u. m' s' = (Inr x, u) \<Longrightarrow> f x u = f' x u) \<Longrightarrow> io_bind m f s = io_bind m' f' s'"
  by (auto simp: io_bind_def split: prod.splits sum.splits)

lemma io_lift_iff [simp]: "io_lift r s = (r', s') \<longleftrightarrow> r = r' \<and> s' = s"
  by (auto simp: io_lift_def)

lemma io_get_iff [simp]: "io_get f s = (r', s') \<longleftrightarrow> f s = r' \<and> s' = s"
  by (auto simp: io_get_def)

lemma io_bind_lift [simp]: "io_bind (io_lift (Inr x)) f = f x" "io_bind (io_lift (Inl e)) f = io_lift (Inl e)"
  by (simp_all add: io_bind_def io_lift_def fun_eq_iff)

end
