(* ===== verification/Addresses.thy ===== *)
theory Addresses
  imports Errors
begin

unbundle bit_operations_syntax

text \<open>
  IPv4 addresses as the backend handles them: the standard library's \<open>Ipv4Addr\<close> (parser,
  display, classification), the camera-target and host-address policies of
  \<open>validation.rs\<close>, and the mask and prefix conversions of \<open>network/ip_config.rs\<close>.

  The \<open>ipnetwork\<close> crate is not part of the repository. Definitions that use it take it as
  the argument \<open>crate\<close> (record \<open>ipnet_crate\<close>); the behaviour its documentation gives is
  the predicate \<open>ipnet_laws\<close>.
\<close>

section \<open>Ipv4Addr of the standard library\<close>

datatype ipv4 = Ipv4 (oct0: u8) (oct1: u8) (oct2: u8) (oct3: u8)

instantiation ipv4 :: linorder
begin

definition less_eq_ipv4 :: "ipv4 \<Rightarrow> ipv4 \<Rightarrow> bool" where
  "less_eq_ipv4 a b \<longleftrightarrow> (oct0 a, oct1 a, oct2 a, oct3 a) \<le> (oct0 b, oct1 b, oct2 b, oct3 b)"

definition less_ipv4 :: "ipv4 \<Rightarrow> ipv4 \<Rightarrow> bool" where
  "less_ipv4 a b \<longleftrightarrow> (oct0 a, oct1 a, oct2 a, oct3 a) < (oct0 b, oct1 b, oct2 b, oct3 b)"

instance
proof
  fix x y z :: ipv4
  show "x < y \<longleftrightarrow> x \<le> y \<and> \<not> y \<le> x"
    by (auto simp: less_eq_ipv4_def less_ipv4_def)
  show "x \<le> x"
    by (simp add: less_eq_ipv4_def)
  show "x \<le> y \<Longrightarrow> y \<le> z \<Longrightarrow> x \<le> z"
    unfolding less_eq_ipv4_def by (rule order_trans)
  show "x \<le> y \<Longrightarrow> y \<le> x \<Longrightarrow> x = y"
    unfolding less_eq_ipv4_def by (drule (1) order_antisym) (cases x, cases y, simp)
  show "x \<le> y \<or> y \<le> x"
    unfolding less_eq_ipv4_def by (rule linear)
qed

end

definition show_ipv4 :: "ipv4 \<Rightarrow> string" where
  "show_ipv4 a = join_with ''.'' [show_u8 (oct0 a), show_u8 (oct1 a), show_u8 (oct2 a), show_u8 (oct3 a)]"

text \<open>One octet of the standard parser: one to three decimal digits, no leading zero
  unless the text is a single digit, at most 255.\<close>

definition parse_octet :: "string \<Rightarrow> u8 option" where
  "parse_octet s =
     (if s = [] \<or> 3 < length s \<or> (1 < length s \<and> hd s = CHR ''0'') then None
      else map_option word_of_nat (digits_acc 10 255 0 s))"

definition parse_ipv4 :: "string \<Rightarrow> ipv4 option" where
  "parse_ipv4 s =
     (case split_on (\<lambda>c. c = CHR ''.'') s of
        [a, b, c, d] \<Rightarrow>
          (case (parse_octet a, parse_octet b, parse_octet c, parse_octet d) of
             (Some w, Some x, Some y, Some z) \<Rightarrow> Some (Ipv4 w x y z)
           | _ \<Rightarrow> None)
      | _ \<Rightarrow> None)"

definition is_loopback :: "ipv4 \<Rightarrow> bool" where
  "is_loopback a \<longleftrightarrow> oct0 a = 127"

definition is_link_local :: "ipv4 \<Rightarrow> bool" where
  "is_link_local a \<longleftrightarrow> oct0 a = 169 \<and> oct1 a = 254"

definition is_broadcast :: "ipv4 \<Rightarrow> bool" where
  "is_broadcast a \<longleftrightarrow> a = Ipv4 255 255 255 255"

definition is_unspecified :: "ipv4 \<Rightarrow> bool" where
  "is_unspecified a \<longleftrightarrow> a = Ipv4 0 0 0 0"

definition is_multicast :: "ipv4 \<Rightarrow> bool" where
  "is_multicast a \<longleftrightarrow> 224 \<le> oct0 a \<and> oct0 a \<le> 239"

definition u32_of_ipv4 :: "ipv4 \<Rightarrow> u32" where
  "u32_of_ipv4 a = push_bit 24 (ucast (oct0 a)) OR push_bit 16 (ucast (oct1 a))
     OR push_bit 8 (ucast (oct2 a)) OR ucast (oct3 a)"

definition ipv4_of_u32 :: "u32 \<Rightarrow> ipv4" where
  "ipv4_of_u32 w = Ipv4 (ucast (drop_bit 24 w)) (ucast (drop_bit 16 w))
     (ucast (drop_bit 8 w)) (ucast w)"

section \<open>The ipnetwork crate, as a parameter\<close>

record 'n ipnet_crate =
  ipnet_new :: "ipv4 \<Rightarrow> u8 \<Rightarrow> 'n option"
  ipnet_network :: "'n \<Rightarrow> ipv4"
  ipnet_broadcast :: "'n \<Rightarrow> ipv4"
  ipnet_prefix :: "'n \<Rightarrow> u8"
  ipnet_contains :: "'n \<Rightarrow> ipv4 \<Rightarrow> bool"
  ipnet_parse :: "string \<Rightarrow> 'n option"

definition netmask :: "u8 \<Rightarrow> u32" where
  "netmask p = (if p = 0 then 0 else push_bit (32 - unat p) (-1))"

definition ipnet_laws :: "'n ipnet_crate \<Rightarrow> bool" where
  "ipnet_laws crate \<longleftrightarrow>
     (\<forall>a p. ipnet_new crate a p \<noteq> None \<longleftrightarrow> p \<le> 32) \<and>
     (\<forall>a p n. ipnet_new crate a p = Some n \<longrightarrow>
        ipnet_prefix crate n = p \<and>
        u32_of_ipv4 (ipnet_network crate n) = u32_of_ipv4 a AND netmask p \<and>
        u32_of_ipv4 (ipnet_broadcast crate n) = u32_of_ipv4 a OR NOT (netmask p) \<and>
        (\<forall>x. ipnet_contains crate n x \<longleftrightarrow>
           u32_of_ipv4 x AND netmask p = u32_of_ipv4 a AND netmask p))"

section \<open>validation.rs\<close>

definition prohibited_camera_ip :: "ipv4 \<Rightarrow> bool" where
  "prohibited_camera_ip addr \<longleftrightarrow>
     is_loopback addr \<or> is_link_local addr \<or> is_broadcast addr \<or> is_unspecified addr"

definition parse_camera_ip :: "string \<Rightarrow> ipv4 result" where
  "parse_camera_ip ip =
     (case parse_ipv4 ip of
        None \<Rightarrow> Inl (Network (''Invalid IP address: '' @ ip))
      | Some addr \<Rightarrow>
          if is_link_local addr
          then Inl (Network (''IP address not allowed: '' @ ip
                 @ ''; give the camera a routable IPv4 address first''))
          else if prohibited_camera_ip addr
          then Inl (Network (''IP address not allowed: '' @ ip))
          else Inr addr)"

definition parse_cidr :: "string \<Rightarrow> (ipv4 \<times> u8) result" where
  "parse_cidr cidr =
     (case split_once (CHR ''/'') cidr of
        None \<Rightarrow> Inl (Network (''Invalid CIDR (expected IP/prefix): '' @ cidr))
      | Some (ip_str, prefix_str) \<Rightarrow>
          (case parse_ipv4 ip_str of
             None \<Rightarrow> Inl (Network (''Invalid IP in CIDR: '' @ cidr))
           | Some ip \<Rightarrow>
               (case parse_u8 prefix_str of
                  None \<Rightarrow> Inl (Network (''Invalid prefix length in CIDR: '' @ cidr))
                | Some prefix \<Rightarrow>
                    if 32 < prefix
                    then Inl (Network (''CIDR prefix must be 0..=32, got /'' @ show_u8 prefix))
                    else Inr (ip, prefix))))"

definition validate_host :: "'n ipnet_crate \<Rightarrow> ipv4 \<Rightarrow> u8 \<Rightarrow> unit result" where
  "validate_host crate ip prefix =
     (if \<not> (1 \<le> prefix \<and> prefix \<le> 32) \<or> oct0 ip = 0 \<or> is_loopback ip \<or> is_multicast ip
         \<or> 240 \<le> oct0 ip
      then Inl (Network ''Invalid host IPv4 address or prefix'')
      else (case ipnet_new crate ip prefix of
              None \<Rightarrow> Inl (Network ''Invalid address prefix'')
            | Some network \<Rightarrow>
                if prefix \<le> 30 \<and> (ipnet_network crate network = ip \<or> ipnet_broadcast crate network = ip)
                then Inl (Network ''Host address is a network or broadcast address'')
                else Inr ()))"

section \<open>Masks and prefixes of ip\_config.rs\<close>

definition prefix_to_mask :: "u8 \<Rightarrow> string" where
  "prefix_to_mask prefix =
     (let bits = (if prefix = 0 then 0
                  else if 32 \<le> prefix then - 1
                  else push_bit (32 - unat prefix) (- 1) :: u32)
      in show_ipv4 (ipv4_of_u32 bits))"

definition validate_ip :: "string \<Rightarrow> unit result" where
  "validate_ip ip =
     (case parse_ipv4 ip of
        None \<Rightarrow> Inl (Network (''Invalid IP address: '' @ ip))
      | Some _ \<Rightarrow> Inr ())"

definition count_ones :: "u32 \<Rightarrow> nat" where
  "count_ones w = length (filter (bit w) [0..<32])"

definition mask_to_prefix :: "string \<Rightarrow> u8 result" where
  "mask_to_prefix msk =
     (case parse_ipv4 msk of
        None \<Rightarrow> Inl (Network (''Invalid subnet mask: '' @ msk))
      | Some addr \<Rightarrow>
          (let bits = u32_of_ipv4 addr;
               prefix = (word_of_nat (count_ones bits) :: u8)
           in if bits \<noteq> (if prefix = 0 then 0 else push_bit (32 - unat prefix) (- 1))
              then Inl (Network ''Subnet mask must be contiguous'')
              else Inr prefix))"

text \<open>The \<open>/24\<close> key of \<open>network/mod.rs\<close> that every adoption path derives.\<close>

definition subnet_key_for :: "ipv4 \<Rightarrow> string" where
  "subnet_key_for ip = show_u8 (oct0 ip) @ ''.'' @ show_u8 (oct1 ip) @ ''.'' @ show_u8 (oct2 ip)
     @ ''.0/24''"

section \<open>Parsing and printing agree\<close>

lemma parse_octet_show [simp]: "parse_octet (show_u8 w) = Some w"
proof (rule show_u8_cases [of w])
  assume "unat w < 10" "show_u8 w = [digit_char (unat w)]"
  then show ?thesis by (simp add: parse_octet_def)
next
  assume *: "10 \<le> unat w" "unat w < 100"
    "show_u8 w = [digit_char (unat w div 10), digit_char (unat w mod 10)]"
  then have "0 < unat w div 10" "unat w div 10 < 10"
    by linarith+
  with * show ?thesis by (simp add: parse_octet_def)
next
  assume *: "100 \<le> unat w" "unat w < 256"
    "show_u8 w = [digit_char (unat w div 100), digit_char (unat w div 10 mod 10),
       digit_char (unat w mod 10)]"
  then have "0 < unat w div 100"
    by linarith
  with * show ?thesis by (simp add: parse_octet_def)
qed

lemma parse_ipv4_show [simp]: "parse_ipv4 (show_ipv4 a) = Some a"
proof -
  have no: "\<forall>c\<in>set (show_u8 w). \<not> c = CHR ''.''" for w
    using show_u8_no_sep by blast
  have "split_on (\<lambda>c. c = CHR ''.'') (show_ipv4 a)
      = [show_u8 (oct0 a), show_u8 (oct1 a), show_u8 (oct2 a), show_u8 (oct3 a)]"
    using no by (simp add: show_ipv4_def split_on_append split_on_none)
  then show ?thesis
    by (simp add: parse_ipv4_def)
qed

lemma show_ipv4_inj [simp]: "show_ipv4 a = show_ipv4 b \<longleftrightarrow> a = b"
  by (metis option.inject parse_ipv4_show)

lemma ipv4_of_u32_of_ipv4 [simp]: "ipv4_of_u32 (u32_of_ipv4 a) = a"
  by (cases a)
    (auto simp: ipv4_of_u32_def u32_of_ipv4_def bit_simps intro!: bit_word_eqI)

lemma u32_of_ipv4_of_u32 [simp]: "u32_of_ipv4 (ipv4_of_u32 w) = w"
proof (rule bit_word_eqI)
  fix n assume "n < LENGTH(32)"
  then consider "n < 8" | "8 \<le> n" "n < 16" | "16 \<le> n" "n < 24" | "24 \<le> n" "n < 32"
    by fastforce
  then show "bit (u32_of_ipv4 (ipv4_of_u32 w)) n = bit w n"
    by cases (auto simp add: ipv4_of_u32_def u32_of_ipv4_def bit_simps)
qed

lemma u32_of_ipv4_inj [simp]: "u32_of_ipv4 a = u32_of_ipv4 b \<longleftrightarrow> a = b"
  by (metis ipv4_of_u32_of_ipv4)

text \<open>The parser accepts canonical text only, so printing what was parsed gives it back.\<close>

lemma show_parse_octet:
  assumes "parse_octet s = Some w"
  shows "show_u8 w = s"
proof -
  from assms have ne: "s \<noteq> []" "length s \<le> 3" "1 < length s \<longrightarrow> hd s \<noteq> CHR ''0''"
    and acc: "map_option word_of_nat (digits_acc 10 255 0 s) = Some w"
    by (auto simp: parse_octet_def split: if_splits)
  consider a where "s = [a]" | a b where "s = [a, b]" | a b c where "s = [a, b, c]"
    using ne by (auto simp: length_Suc_conv le_Suc_eq numeral_3_eq_3)
  then show ?thesis
  proof cases
    case 1
    with acc obtain d where "to_digit 10 a = Some d" and w: "w = word_of_nat d"
      by (auto split: option.splits if_splits)
    note d = to_digit_10_Some [OF this(1)]
    then have "unat w = d" using w by simp
    with d 1 show ?thesis by (simp add: show_u8_def show_nat_small)
  next
    case 2
    with acc obtain d e where "to_digit 10 a = Some d" and "to_digit 10 b = Some e"
      and w: "w = word_of_nat (10 * d + e)"
      by (auto split: option.splits if_splits)
    note de = to_digit_10_Some [OF this(1)] to_digit_10_Some [OF this(2)]
    from de ne 2 have "0 < d" by (cases d) auto
    moreover have "10 * d + e \<le> 255" using de by linarith
    then have "unat w = 10 * d + e" using w by (simp only: unat_word_of_nat_u8)
    ultimately show ?thesis
      using de 2 by (simp add: show_u8_def show_nat_big show_nat_small)
  next
    case 3
    with acc obtain d e f where "to_digit 10 a = Some d" and "to_digit 10 b = Some e"
      and "to_digit 10 c = Some f"
      and w: "w = word_of_nat (10 * (10 * d + e) + f)" "10 * (10 * d + e) + f \<le> 255"
      by (auto split: option.splits if_splits)
    note def = to_digit_10_Some [OF this(1)] to_digit_10_Some [OF this(2)] to_digit_10_Some [OF this(3)]
    from def ne 3 have "0 < d" by (cases d) auto
    have u: "unat w = 10 * (10 * d + e) + f" using w by (simp only: unat_word_of_nat_u8)
    have dm: "(10 * x + y) div 10 = x" "(10 * x + y) mod 10 = y" if "y < 10" for x y :: nat
      using that by simp_all
    have "unat w div 10 = 10 * d + e" "unat w mod 10 = f"
      unfolding u using def by (simp_all only: dm)
    moreover have "10 \<le> unat w"
      unfolding u using \<open>0 < d\<close> by simp
    ultimately have "show_nat (unat w) = [digit_char d, digit_char e, digit_char f]"
      using def \<open>0 < d\<close> by (simp add: show_nat_big show_nat_small)
    then show ?thesis
      using def 3 by (simp add: show_u8_def)
  qed
qed

lemma show_parse_ipv4:
  assumes "parse_ipv4 s = Some a"
  shows "show_ipv4 a = s"
proof -
  from assms obtain p q r t where parts: "split_on (\<lambda>c. c = CHR ''.'') s = [p, q, r, t]"
    and "parse_octet p = Some (oct0 a)" "parse_octet q = Some (oct1 a)"
      "parse_octet r = Some (oct2 a)" "parse_octet t = Some (oct3 a)"
    by (auto simp: parse_ipv4_def split: list.splits option.splits)
  then show ?thesis
    using join_split [of "CHR ''.''" s] by (simp add: show_ipv4_def show_parse_octet)
qed

lemma parse_ipv4_iff: "parse_ipv4 s = Some a \<longleftrightarrow> s = show_ipv4 a"
  by (auto simp: show_parse_ipv4)

section \<open>Masks\<close>

lemma count_ones_netmask:
  assumes "n \<le> 32"
  shows "count_ones (push_bit (32 - n) (- 1)) = n"
proof -
  have eq: "filter (bit (push_bit (32 - n) (- 1) :: u32)) [0..<32] = filter (\<lambda>i. 32 - n \<le> i) [0..<32]"
    by (rule filter_cong) (auto simp: bit_simps)
  have split: "[0..<32] = [0..<32 - n] @ [32 - n..<32]"
    using assms upt_add_eq_append [of 0 "32 - n" n] by simp
  have "filter (\<lambda>i. 32 - n \<le> i) [0..<32] = [32 - n..<32]"
    by (subst split) (simp add: filter_empty_conv)
  then have "length (filter (\<lambda>i. 32 - n \<le> i) [0..<32]) = n"
    using assms by simp
  then show ?thesis
    by (simp only: count_ones_def eq)
qed

lemma count_ones_le: "count_ones w \<le> 32"
  unfolding count_ones_def by (rule order_trans [OF length_filter_le]) simp

lemma unat_le_32: "(p :: u8) \<le> 32 \<longleftrightarrow> unat p \<le> 32"
  by (simp add: word_le_nat_alt)

lemma prefix_to_mask_netmask:
  assumes "p \<le> 32"
  shows "prefix_to_mask p = show_ipv4 (ipv4_of_u32 (netmask p))"
proof -
  have "32 \<le> p \<Longrightarrow> unat p = 32"
    using assms by (simp add: word_le_nat_alt)
  then show ?thesis
    by (auto simp: prefix_to_mask_def netmask_def Let_def)
qed

lemma mask_to_prefix_netmask:
  assumes "p \<le> 32"
  shows "mask_to_prefix (show_ipv4 (ipv4_of_u32 (netmask p))) = Inr p"
proof -
  have "count_ones (netmask p) = unat p"
    using count_ones_netmask [of "unat p"] assms
    by (cases "p = 0") (auto simp: netmask_def unat_le_32 count_ones_def)
  then show ?thesis
    by (simp add: mask_to_prefix_def netmask_def)
qed

end
