(* ===== verification/Caller_Registry.thy ===== *)
theory Caller_Registry
  imports Addresses
begin

text \<open>
  \<open>streaming/caller_registry.rs\<close>: admission accounting of the SRT listener. A caller is
  first reserved by \<open>caller_connecting\<close> (a pending entry that lapses after
  \<open>PENDING_CALLER_TTL\<close>), becomes active by \<open>caller_added\<close>, and leaves by
  \<open>caller_removed\<close>. The mutex makes every operation atomic, so each is a function that
  takes the registry and returns its answer and the new registry. A \<open>HashSet\<close> is a
  distinct list.

  The GLib values that the signal callbacks deliver are not part of the repository; the
  decoders take the accessors they call as the record \<open>glib_ops\<close>.
\<close>

definition MAX_SRT_CALLERS :: nat where
  "MAX_SRT_CALLERS = 10"

definition PENDING_CALLER_TTL :: nat where
  "PENDING_CALLER_TTL = 10000"

datatype ip_addr = V4 ipv4 | V6 "128 word"

datatype caller_address = CallerAddress (ca_ip: ip_addr) (ca_port: u16)

datatype admission_decision = Accept | RejectStreamId | RejectCapacity

datatype caller_fault =
    MissingAddress | InvalidAddressType | NonInternetAddress | InvalidInternetAddress
  | MissingStreamId | InvalidStreamIdType
  | MissingUnusedArgument | InvalidUnusedArgumentType | NonzeroUnusedArgument
  | DuplicateAddedCaller | AddedWithoutReservation | AddedOverCapacity
  | InconsistentCallerState | RemovedWithoutActiveCaller | OccupancyInvariantExceeded

record ('v, 'sock, 'inet) glib_ops =
  get_socket_address :: "'v \<Rightarrow> 'sock option"
  downcast_inet :: "'sock \<Rightarrow> 'inet option"
  inet_address :: "'inet \<Rightarrow> ip_addr option"
  inet_port :: "'inet \<Rightarrow> u16"
  get_opt_string :: "'v \<Rightarrow> string option option"
  get_i32 :: "'v \<Rightarrow> 32 word option"

definition canonical_caller_address ::
    "('v, 'sock, 'inet) glib_ops \<Rightarrow> 'v option \<Rightarrow> caller_fault + caller_address" where
  "canonical_caller_address g v =
     (case v of None \<Rightarrow> Inl MissingAddress
      | Some x \<Rightarrow>
          (case get_socket_address g x of None \<Rightarrow> Inl InvalidAddressType
           | Some socket \<Rightarrow>
               (case downcast_inet g socket of None \<Rightarrow> Inl NonInternetAddress
                | Some inet \<Rightarrow>
                    (case inet_address g inet of None \<Rightarrow> Inl InvalidInternetAddress
                     | Some ip \<Rightarrow> Inr (CallerAddress ip (inet_port g inet))))))"

definition caller_stream_id ::
    "('v, 'sock, 'inet) glib_ops \<Rightarrow> 'v option \<Rightarrow> caller_fault + string" where
  "caller_stream_id g v =
     (case v of None \<Rightarrow> Inl MissingStreamId
      | Some x \<Rightarrow>
          (case get_opt_string g x of None \<Rightarrow> Inl InvalidStreamIdType
           | Some None \<Rightarrow> Inr []
           | Some (Some s) \<Rightarrow> Inr s))"

definition caller_unused_argument ::
    "('v, 'sock, 'inet) glib_ops \<Rightarrow> 'v option \<Rightarrow> caller_fault + 32 word" where
  "caller_unused_argument g v =
     (case v of None \<Rightarrow> Inl MissingUnusedArgument
      | Some x \<Rightarrow>
          (case get_i32 g x of None \<Rightarrow> Inl InvalidUnusedArgumentType | Some n \<Rightarrow> Inr n))"

record registry_state =
  pending_callers :: "(caller_address, instant) hashmap"
  active_callers :: "caller_address list"

record caller_registry =
  expected_stream_id :: "string option"
  caller_state :: registry_state

definition occupancy :: "registry_state \<Rightarrow> nat" where
  "occupancy s = length (pending_callers s) + length (active_callers s)"

definition prune_expired :: "instant \<Rightarrow> registry_state \<Rightarrow> registry_state" where
  "prune_expired now s = s\<lparr>pending_callers :=
     hm_retain (\<lambda>_ reserved_at. now - reserved_at < PENDING_CALLER_TTL) (pending_callers s)\<rparr>"

definition caller_registry_new :: "string option \<Rightarrow> caller_registry" where
  "caller_registry_new stream_id =
     \<lparr>expected_stream_id = (case stream_id of None \<Rightarrow> None | Some s \<Rightarrow> if s = [] then None else Some s),
      caller_state = \<lparr>pending_callers = [], active_callers = []\<rparr>\<rparr>"

definition caller_connecting ::
    "caller_address \<Rightarrow> string \<Rightarrow> instant \<Rightarrow> caller_registry
      \<Rightarrow> (caller_fault + admission_decision) \<times> caller_registry" where
  "caller_connecting address stream_id now r =
     (let s = prune_expired now (caller_state r);
          r' = r\<lparr>caller_state := s\<rparr>
      in if occupancy s > MAX_SRT_CALLERS then (Inl OccupancyInvariantExceeded, r')
         else if hm_contains address (pending_callers s) \<and> address \<in> set (active_callers s)
         then (Inl InconsistentCallerState, r')
         else if (case expected_stream_id r of None \<Rightarrow> False | Some e \<Rightarrow> e \<noteq> stream_id)
         then (Inr RejectStreamId, r')
         else if address \<in> set (active_callers s) then (Inr Accept, r')
         else if hm_contains address (pending_callers s)
         then (Inr Accept,
               r\<lparr>caller_state := s\<lparr>pending_callers := hm_insert address now (pending_callers s)\<rparr>\<rparr>)
         else if occupancy s \<ge> MAX_SRT_CALLERS then (Inr RejectCapacity, r')
         else (Inr Accept,
               r\<lparr>caller_state := s\<lparr>pending_callers := hm_insert address now (pending_callers s)\<rparr>\<rparr>))"

definition caller_added ::
    "caller_address \<Rightarrow> 32 word \<Rightarrow> caller_registry \<Rightarrow> (caller_fault + u32) \<times> caller_registry" where
  "caller_added address unused r =
     (if unused \<noteq> 0 then (Inl NonzeroUnusedArgument, r)
      else
        let s = caller_state r in
        if occupancy s > MAX_SRT_CALLERS then (Inl OccupancyInvariantExceeded, r)
        else
          (case (hm_contains address (pending_callers s), address \<in> set (active_callers s)) of
             (True, True) \<Rightarrow> (Inl InconsistentCallerState, r)
           | (False, True) \<Rightarrow> (Inl DuplicateAddedCaller, r)
           | (False, False) \<Rightarrow>
               if occupancy s \<ge> MAX_SRT_CALLERS then (Inl AddedOverCapacity, r)
               else (Inl AddedWithoutReservation, r)
           | (True, False) \<Rightarrow>
               (let s' = s\<lparr>pending_callers := hm_remove address (pending_callers s),
                           active_callers := List.insert address (active_callers s)\<rparr>;
                    r' = r\<lparr>caller_state := s'\<rparr>
                in if occupancy s' > MAX_SRT_CALLERS then (Inl OccupancyInvariantExceeded, r')
                   else (Inr (word_of_nat (length (active_callers s'))), r'))))"

definition caller_removed ::
    "caller_address \<Rightarrow> 32 word \<Rightarrow> caller_registry \<Rightarrow> (caller_fault + u32) \<times> caller_registry" where
  "caller_removed address unused r =
     (if unused \<noteq> 0 then (Inl NonzeroUnusedArgument, r)
      else
        let s = caller_state r in
        if address \<notin> set (active_callers s) then (Inl RemovedWithoutActiveCaller, r)
        else
          let s' = s\<lparr>active_callers := remove1 address (active_callers s)\<rparr>
          in (Inr (word_of_nat (length (active_callers s'))), r\<lparr>caller_state := s'\<rparr>))"

definition active_count :: "caller_registry \<Rightarrow> u32" where
  "active_count r = word_of_nat (length (active_callers (caller_state r)))"

definition caller_clear :: "caller_registry \<Rightarrow> caller_registry" where
  "caller_clear r = r\<lparr>caller_state := \<lparr>pending_callers = [], active_callers = []\<rparr>\<rparr>"

section \<open>The registry as a machine\<close>

text \<open>Everything the listener's callbacks can do to the registry.\<close>

datatype caller_event =
    EvConnecting caller_address string instant
  | EvAdded caller_address "32 word"
  | EvRemoved caller_address "32 word"
  | EvClear

fun caller_step :: "caller_event \<Rightarrow> caller_registry \<Rightarrow> caller_registry" where
  "caller_step (EvConnecting a sid now) r = snd (caller_connecting a sid now r)"
| "caller_step (EvAdded a u) r = snd (caller_added a u r)"
| "caller_step (EvRemoved a u) r = snd (caller_removed a u r)"
| "caller_step EvClear r = caller_clear r"

definition callers_ok :: "registry_state \<Rightarrow> bool" where
  "callers_ok s \<longleftrightarrow>
     hm_wf (pending_callers s) \<and> distinct (active_callers s) \<and>
     (\<forall>a\<in>set (active_callers s). \<not> hm_contains a (pending_callers s)) \<and>
     occupancy s \<le> MAX_SRT_CALLERS"

definition registry_ok :: "caller_registry \<Rightarrow> bool" where
  "registry_ok r \<longleftrightarrow> callers_ok (caller_state r)"

lemma callers_ok_prune [wf_intros]: "callers_ok s \<Longrightarrow> callers_ok (prune_expired now s)"
  using hm.size_keep [of "\<lambda>_ reserved_at. now - reserved_at < PENDING_CALLER_TTL" "pending_callers s"]
  by (auto simp: callers_ok_def prune_expired_def occupancy_def hm_contains_def hm_simps
      intro: wf_intros split: option.splits)

lemma callers_ok_reserve:
  assumes "callers_ok s" "a \<notin> set (active_callers s)"
    "hm_contains a (pending_callers s) \<or> occupancy s < MAX_SRT_CALLERS"
  shows "callers_ok (s\<lparr>pending_callers := hm_insert a now (pending_callers s)\<rparr>)"
  using assms
  by (auto simp: callers_ok_def occupancy_def hm_length_insert hm_contains_def hm_simps
      intro: wf_intros)

lemma occupancy_activate:
  assumes "callers_ok s" "hm_contains a (pending_callers s)" "a \<notin> set (active_callers s)"
  shows "occupancy (s\<lparr>pending_callers := hm_remove a (pending_callers s),
           active_callers := List.insert a (active_callers s)\<rparr>) = occupancy s"
proof -
  have "pending_callers s \<noteq> []"
    using assms(2) by (auto simp: hm_contains_def)
  then show ?thesis
    using assms by (simp add: callers_ok_def occupancy_def hm_length_remove)
qed

lemma callers_ok_activate:
  assumes "callers_ok s" "hm_contains a (pending_callers s)" "a \<notin> set (active_callers s)"
  shows "callers_ok (s\<lparr>pending_callers := hm_remove a (pending_callers s),
           active_callers := List.insert a (active_callers s)\<rparr>)"
  using assms occupancy_activate [OF assms]
  by (auto simp: callers_ok_def hm_contains_def hm_simps intro: wf_intros)

lemma registry_ok_connecting: "registry_ok r \<Longrightarrow> registry_ok (snd (caller_connecting a sid now r))"
  by (auto simp: registry_ok_def caller_connecting_def Let_def callers_ok_prune
      intro!: callers_ok_reserve)

lemma registry_ok_added: "registry_ok r \<Longrightarrow> registry_ok (snd (caller_added a u r))"
  using callers_ok_activate [of "caller_state r" a] occupancy_activate [of "caller_state r" a]
  by (auto simp: registry_ok_def caller_added_def Let_def split: bool.splits)

lemma registry_ok_removed: "registry_ok r \<Longrightarrow> registry_ok (snd (caller_removed a u r))"
  by (auto simp: registry_ok_def caller_removed_def Let_def callers_ok_def occupancy_def
      length_remove1 dest: notin_set_remove1 in_set_remove1)

lemma registry_ok_clear: "registry_ok (caller_clear r)"
  by (simp add: caller_clear_def registry_ok_def callers_ok_def occupancy_def)

lemma registry_ok_step: "registry_ok r \<Longrightarrow> registry_ok (caller_step e r)"
  by (cases e)
    (auto simp: registry_ok_connecting registry_ok_added registry_ok_removed registry_ok_clear)

lemma registry_ok_new: "registry_ok (caller_registry_new sid)"
  by (simp add: caller_registry_new_def registry_ok_def callers_ok_def occupancy_def)

interpretation callers: guarded_machine
  "\<lambda>r. \<exists>sid. r = caller_registry_new sid" caller_step registry_ok
  by unfold_locales (auto simp: registry_ok_step registry_ok_new)

lemma callers_ok_disjoint:
  "callers_ok s \<Longrightarrow> fst ` set (pending_callers s) \<inter> set (active_callers s) = {}"
  by (auto simp: callers_ok_def hm_contains_set)

section \<open>What the registry promises\<close>

text \<open>
  The abstract registry: reservations with their time, and the set of active callers. The
  contract is stated on it, and the code's registry refines it through \<open>callers_abs\<close>.
\<close>

type_synonym callers_spec = "(caller_address \<rightharpoonup> instant) \<times> caller_address set"

definition spec_live :: "instant \<Rightarrow> (caller_address \<rightharpoonup> instant) \<Rightarrow> (caller_address \<rightharpoonup> instant)" where
  "spec_live now P = (\<lambda>a. case P a of None \<Rightarrow> None
     | Some t \<Rightarrow> if now - t < PENDING_CALLER_TTL then Some t else None)"

definition spec_connecting ::
    "string option \<Rightarrow> caller_address \<Rightarrow> string \<Rightarrow> instant \<Rightarrow> callers_spec \<Rightarrow> admission_decision \<times> callers_spec" where
  "spec_connecting expected a sid now = (\<lambda>(P, A).
     let L = spec_live now P in
     if expected \<noteq> None \<and> expected \<noteq> Some sid then (RejectStreamId, (L, A))
     else if a \<in> A then (Accept, (L, A))
     else if a \<in> dom L \<or> card (dom L) + card A < MAX_SRT_CALLERS then (Accept, (L(a \<mapsto> now), A))
     else (RejectCapacity, (L, A)))"

definition callers_abs :: "registry_state \<Rightarrow> callers_spec" where
  "callers_abs s = (map_of (pending_callers s), set (active_callers s))"

lemma abs_prune: "callers_ok s \<Longrightarrow>
   callers_abs (prune_expired now s) = (spec_live now (map_of (pending_callers s)), set (active_callers s))"
  by (auto simp: callers_abs_def prune_expired_def spec_live_def callers_ok_def hm_simps
      fun_eq_iff split: option.splits)

lemma card_pending: "callers_ok s \<Longrightarrow> card (dom (map_of (pending_callers s))) = length (pending_callers s)"
  using distinct_card [of "map fst (pending_callers s)"]
  by (simp add: callers_ok_def hm_wf_def dom_map_of_conv_image_fst)

lemma card_active: "callers_ok s \<Longrightarrow> card (set (active_callers s)) = length (active_callers s)"
  by (simp add: callers_ok_def distinct_card)

section \<open>Properties\<close>

text \<open>C7: whatever the callbacks do, in whatever order, from a fresh listener: pending and
  active callers together never exceed ten, no caller is both pending and active, and the
  callback faults that report a broken registry are never raised.\<close>

theorem srt_admission_bounded:
  "let r = fold caller_step events (caller_registry_new stream_id); s = caller_state r in
     occupancy s \<le> MAX_SRT_CALLERS
   \<and> fst ` set (pending_callers s) \<inter> set (active_callers s) = {}
   \<and> fst (caller_connecting a sid now r) \<notin> {Inl OccupancyInvariantExceeded, Inl InconsistentCallerState}
   \<and> fst (caller_added a u r) \<notin> {Inl OccupancyInvariantExceeded, Inl InconsistentCallerState}"
proof -
  define r where "r = fold caller_step events (caller_registry_new stream_id)"
  have ok: "callers_ok (caller_state r)"
    using callers.reach_inv [of "caller_registry_new stream_id" events]
    by (auto simp: registry_ok_def r_def)
  then have pr: "callers_ok (prune_expired now (caller_state r))"
    by (rule callers_ok_prune)
  have "fst (caller_connecting a sid now r) \<notin> {Inl OccupancyInvariantExceeded, Inl InconsistentCallerState}"
    using pr by (auto simp: caller_connecting_def Let_def callers_ok_def)
  moreover have "fst (caller_added a u r) \<notin> {Inl OccupancyInvariantExceeded, Inl InconsistentCallerState}"
    using ok occupancy_activate [OF ok, of a]
    by (auto simp: caller_added_def Let_def callers_ok_def split: bool.splits)
  ultimately show ?thesis
    using ok callers_ok_disjoint [OF ok] by (auto simp: callers_ok_def Let_def r_def [symmetric])
qed

text \<open>C8: on a consistent registry the admission decision and the resulting registry are
  exactly those of the abstract contract: a wrong Stream ID is rejected, a known caller is
  accepted, an unknown one is accepted exactly while fewer than ten places are taken by
  active callers and unexpired reservations, and an accepted reservation is dated now.\<close>

theorem caller_connecting_refines:
  assumes "registry_ok r"
  shows "map_prod id (\<lambda>r'. callers_abs (caller_state r')) (caller_connecting a sid now r)
    = map_prod Inr id (spec_connecting (expected_stream_id r) a sid now (callers_abs (caller_state r)))"
proof -
  let ?s = "prune_expired now (caller_state r)"
  have ok0: "callers_ok (caller_state r)" using assms by (simp add: registry_ok_def)
  then have ok: "callers_ok ?s" by (rule callers_ok_prune)
  have live: "spec_live now (map_of (pending_callers (caller_state r))) = map_of (pending_callers ?s)"
    and act: "active_callers ?s = active_callers (caller_state r)"
    using abs_prune [OF ok0, of now] by (simp_all add: callers_abs_def prune_expired_def)
  have occ: "card (dom (map_of (pending_callers ?s))) + card (set (active_callers (caller_state r))) = occupancy ?s"
    using card_pending [OF ok] card_active [OF ok] by (simp add: occupancy_def act)
  have le: "occupancy ?s \<le> MAX_SRT_CALLERS" and
    dj: "\<not> (hm_contains a (pending_callers ?s) \<and> a \<in> set (active_callers ?s))"
    using ok by (auto simp: callers_ok_def)
  have dom: "a \<in> dom (map_of (pending_callers ?s)) \<longleftrightarrow> hm_contains a (pending_callers ?s)"
    by (auto simp: hm_contains_def)
  show ?thesis
    using le dj
    by (auto simp: caller_connecting_def spec_connecting_def Let_def callers_abs_def live occ dom
        hm_insert_fun act not_le split: option.splits)
qed

theorem caller_connecting_refines_witness:
  "map_prod id (\<lambda>r'. callers_abs (caller_state r'))
     (caller_connecting (CallerAddress (V4 (Ipv4 192 168 1 20)) 5000) ''cam'' 7
        (caller_registry_new (Some ''cam'')))
   = map_prod Inr id (spec_connecting (Some ''cam'') (CallerAddress (V4 (Ipv4 192 168 1 20)) 5000) ''cam'' 7
        (callers_abs (caller_state (caller_registry_new (Some ''cam'')))))"
  using caller_connecting_refines [OF registry_ok_new [of "Some ''cam''"],
      of "CallerAddress (V4 (Ipv4 192 168 1 20)) 5000" "''cam''" 7]
  by (simp add: caller_registry_new_def)

text \<open>an accepted caller that was not already active can always be activated, the count
  reported is one more than before, and its removal restores the previous active callers.\<close>

theorem accepted_caller_activates:
  assumes "registry_ok r" "a \<notin> set (active_callers (caller_state r))"
    "caller_connecting a sid now r = (Inr Accept, r1)" "caller_added a 0 r1 = (res, r2)"
  shows "res = Inr (active_count r + 1) \<and> a \<in> set (active_callers (caller_state r2))
    \<and> \<not> hm_contains a (pending_callers (caller_state r2))
    \<and> fst (caller_removed a 0 r2) = Inr (active_count r)
    \<and> set (active_callers (caller_state (snd (caller_removed a 0 r2)))) = set (active_callers (caller_state r))"
proof -
  let ?s1 = "caller_state r1"
  have ok1: "callers_ok ?s1"
    using registry_ok_connecting [OF assms(1), of a sid now] assms(3) by (simp add: registry_ok_def)
  have act1: "active_callers ?s1 = active_callers (caller_state r)"
    using assms(3) by (auto simp: caller_connecting_def Let_def prune_expired_def split: if_splits)
  have pend1: "hm_contains a (pending_callers ?s1)"
    using assms(2,3)
    by (auto simp: caller_connecting_def Let_def prune_expired_def hm_contains_def hm_simps split: if_splits)
  have new: "a \<notin> set (active_callers ?s1)" using assms(2) act1 by simp
  have le: "occupancy ?s1 \<le> MAX_SRT_CALLERS" using ok1 by (simp add: callers_ok_def)
  have r2: "res = Inr (word_of_nat (Suc (length (active_callers (caller_state r)))))"
    "caller_state r2 = ?s1\<lparr>pending_callers := hm_remove a (pending_callers ?s1),
       active_callers := List.insert a (active_callers ?s1)\<rparr>"
    using assms(4) pend1 new le occupancy_activate [OF ok1 pend1 new]
    by (auto simp: caller_added_def Let_def act1)
  have "set (remove1 a (List.insert a (active_callers ?s1))) = set (active_callers ?s1)"
    using new by simp
  then show ?thesis
    using r2 new act1
    by (auto simp: caller_removed_def Let_def active_count_def hm_contains_def hm_simps length_remove1)
qed

theorem accepted_caller_activates_witness:
  "let a = CallerAddress (V4 (Ipv4 10 0 0 9)) 9000; r = caller_registry_new None;
       r1 = snd (caller_connecting a [] 5 r)
   in fst (caller_added a 0 r1) = Inr 1"
proof -
  let ?a = "CallerAddress (V4 (Ipv4 10 0 0 9)) 9000"
  let ?r = "caller_registry_new None"
  have "caller_connecting ?a [] 5 ?r = (Inr Accept, snd (caller_connecting ?a [] 5 ?r))"
    by (simp add: caller_connecting_def caller_registry_new_def prune_expired_def occupancy_def
        hm_retain_def hm_contains_def MAX_SRT_CALLERS_def)
  from accepted_caller_activates [OF registry_ok_new [of None] _ this prod.collapse [symmetric]]
  show ?thesis
    by (simp add: caller_registry_new_def active_count_def Let_def)
qed

end
