(* ===== verification/Settings.thy ===== *)
theory Settings
  imports Addresses
begin

text \<open>
  The settings data of \<open>config.rs\<close> and the validator of \<open>settings_validation.rs\<close>. Ports and
  latencies are kept at their width: wide \<open>i64\<close> values in the update and persisted shapes
  (read as signed), narrow \<open>u16\<close> and \<open>u32\<close> in the runtime shape.
\<close>

section \<open>Data of config.rs\<close>

datatype stream_protocol = InputRtsp | InputUdp

datatype restream_protocol = OutputRtsp | OutputSrt

record stream_config =
  sc_protocol :: stream_protocol
  sc_rtsp_port :: u16
  sc_rtsp_path :: string
  sc_udp_port :: u16
  sc_camera_ip :: string
  sc_camera_mac :: "string option"
  sc_audio_muted :: bool

record rtsp_server_config =
  rs_enabled :: bool
  rs_port :: u16
  rs_token :: string
  rs_bind_interface :: string
  rs_bind_interface_id :: "string option"

datatype srt_passphrase_state =
    Unencrypted
  | Available string
  | Unavailable (preserved_ciphertext: string)

record srt_server_config =
  ss_port :: u16
  ss_passphrase :: srt_passphrase_state
  ss_latency_ms :: u32
  ss_stream_id :: string
  ss_bind_interface :: string
  ss_bind_interface_id :: "string option"

definition srt_server_default :: srt_server_config where
  "srt_server_default = \<lparr>ss_port = 8890, ss_passphrase = Unencrypted, ss_latency_ms = 125,
     ss_stream_id = [], ss_bind_interface = [], ss_bind_interface_id = None\<rparr>"

record rtsp_server_update =
  ru_port :: i64
  ru_token :: string
  ru_bind_interface :: string
  ru_bind_interface_id :: "string option"

datatype srt_passphrase_update = Keep | Replace string | Clear

record srt_server_update =
  su_port :: i64
  su_passphrase :: srt_passphrase_update
  su_latency_ms :: i64
  su_stream_id :: string
  su_bind_interface :: string
  su_bind_interface_id :: "string option"

record restream_settings_update =
  rsu_enabled :: bool
  rsu_rtsp_server :: rtsp_server_update
  rsu_srt_server :: srt_server_update

record credentials =
  username :: string
  password :: string

datatype network_mode = Dhcp | StaticAuto | StaticManual

record manual_node =
  mn_expected_mac :: "string option"
  mn_ip :: string
  mn_alias :: string

record cached_device =
  cd_verified_by_mac :: "string option"
  cd_last_verified_at :: "string option"
  cd_mac :: string
  cd_ip :: string
  cd_subnet :: string
  cd_open_ports :: "u16 list"
  cd_alias :: string
  cd_last_seen :: string

datatype binding_desired = Present | Removed

record adopted_meta =
  am_adopted_at :: "string option"
  am_last_device_seen :: "string option"
  am_adapter_mac :: "string option"
  am_prefix :: "u8 option"
  am_address :: "string option"
  am_desired :: binding_desired
  am_applied :: bool
  am_last_error :: "string option"

definition adopted_meta_default :: adopted_meta where
  "adopted_meta_default = \<lparr>am_adopted_at = None, am_last_device_seen = None, am_adapter_mac = None,
     am_prefix = None, am_address = None, am_desired = Present, am_applied = False, am_last_error = None\<rparr>"

definition removal_complete :: "adopted_meta \<Rightarrow> bool" where
  "removal_complete row \<longleftrightarrow> am_desired row = Removed \<and> \<not> am_applied row \<and> am_last_error row = None"

record pending_address =
  pa_adapter_mac :: string
  pa_address :: string
  pa_prefix :: u8

record app_settings =
  bind_identity_migration_complete :: bool
  selected_adapter_mac :: "string option"
  primary_addresses :: "(string, string) hashmap"
  stream_cfg :: stream_config
  restream_protocol_sel :: restream_protocol
  rtsp_server :: rtsp_server_config
  srt_server :: srt_server_config
  credentials_cfg :: credentials
  adopted_subnets :: "(string, string) hashmap"
  adopted_meta_map :: "(string, adopted_meta) hashmap"
  pending_addresses :: "pending_address list"
  zoom_positions :: "(string, 32 word) hashmap"
  network_mode_sel :: network_mode
  manual_nodes :: "manual_node list"

text \<open>\<open>hex::encode\<close> and \<open>generate_token\<close>; the eight random bytes are the argument.\<close>

definition hex_encode :: "u8 list \<Rightarrow> string" where
  "hex_encode bytes = concat (map hex2 bytes)"

definition generate_token :: "u8 list \<Rightarrow> string" where
  "generate_token random8 = hex_encode random8"

definition app_settings_default :: "u8 list \<Rightarrow> app_settings" where
  "app_settings_default random8 = \<lparr>
     bind_identity_migration_complete = True, selected_adapter_mac = None, primary_addresses = [],
     stream_cfg = \<lparr>sc_protocol = InputRtsp, sc_rtsp_port = 554, sc_rtsp_path = ''/z3-1.sdp'',
       sc_udp_port = 8600, sc_camera_ip = [], sc_camera_mac = None, sc_audio_muted = False\<rparr>,
     restream_protocol_sel = OutputRtsp,
     rtsp_server = \<lparr>rs_enabled = False, rs_port = 8554, rs_token = generate_token random8,
       rs_bind_interface = [], rs_bind_interface_id = None\<rparr>,
     srt_server = srt_server_default,
     credentials_cfg = \<lparr>username = [], password = []\<rparr>,
     adopted_subnets = [], adopted_meta_map = [], pending_addresses = [], zoom_positions = [],
     network_mode_sel = StaticAuto, manual_nodes = []\<rparr>"

text \<open>The projection the frontend sees of the SRT passphrase.\<close>

datatype srt_passphrase_availability = PassUnencrypted | PassAvailable | PassUnavailable

record srt_passphrase_view =
  pv_state :: srt_passphrase_availability
  pv_value :: "string option"

fun srt_passphrase_view_of :: "srt_passphrase_state \<Rightarrow> srt_passphrase_view" where
  "srt_passphrase_view_of Unencrypted = \<lparr>pv_state = PassUnencrypted, pv_value = None\<rparr>"
| "srt_passphrase_view_of (Available v) = \<lparr>pv_state = PassAvailable, pv_value = Some v\<rparr>"
| "srt_passphrase_view_of (Unavailable _) = \<lparr>pv_state = PassUnavailable, pv_value = None\<rparr>"

section \<open>settings\_validation.rs\<close>

record resolved_srt_update =
  rsrt_port :: i64
  rsrt_passphrase :: srt_passphrase_state
  rsrt_latency_ms :: i64
  rsrt_stream_id :: string
  rsrt_bind_interface :: string
  rsrt_bind_interface_id :: "string option"

definition byte_of :: "char \<Rightarrow> nat" where
  "byte_of c = of_char c"

definition is_lower_hex :: "char \<Rightarrow> bool" where
  "is_lower_hex c \<longleftrightarrow> (48 \<le> byte_of c \<and> byte_of c \<le> 57) \<or> (97 \<le> byte_of c \<and> byte_of c \<le> 102)"

definition is_ascii_hexdigit :: "char \<Rightarrow> bool" where
  "is_ascii_hexdigit c \<longleftrightarrow> is_lower_hex c \<or> (65 \<le> byte_of c \<and> byte_of c \<le> 70)"

definition validate_rtsp_token :: "string \<Rightarrow> unit result" where
  "validate_rtsp_token token =
     (if length token = 16 \<and> list_all is_lower_hex token then Inr ()
      else Inl (Validation ''RTSP access token must be exactly 16 lowercase hexadecimal characters''))"

definition narrow_port :: "i64 \<Rightarrow> string \<Rightarrow> u16 result" where
  "narrow_port port protocol =
     (if 1 \<le> sint port \<and> sint port \<le> 65535 then Inr (word_of_int (sint port))
      else Inl (Validation (protocol @ '' server port must be between 1 and 65535'')))"

fun validate_srt_passphrase :: "srt_passphrase_state \<Rightarrow> unit result" where
  "validate_srt_passphrase (Available v) =
     (if \<not> (10 \<le> length v \<and> length v \<le> 79)
      then Inl (Validation ''SRT passphrase must be 10 to 79 bytes, or explicitly cleared'')
      else if \<not> list_all (\<lambda>c. 33 \<le> byte_of c \<and> byte_of c \<le> 126) v
      then Inl (Validation ''SRT passphrase must contain only printable ASCII characters without spaces'')
      else Inr ())"
| "validate_srt_passphrase _ = Inr ()"

text \<open>\<open>chars().any(char::is_control)\<close> on UTF-8 bytes: a control character is a byte below
  32, the byte 127, or one of U+0080 to U+009F, which are encoded as 194 followed by a byte
  below 160; in UTF-8 the byte 194 only ever starts a two-byte character.\<close>

fun has_control :: "string \<Rightarrow> bool" where
  "has_control [] = False"
| "has_control (c # cs) =
     (byte_of c < 32 \<or> byte_of c = 127
      \<or> (byte_of c = 194 \<and> (case cs of [] \<Rightarrow> False | d # _ \<Rightarrow> byte_of d < 160))
      \<or> has_control cs)"

definition validate_srt_stream_id :: "string \<Rightarrow> unit result" where
  "validate_srt_stream_id stream_id =
     (if 512 < length stream_id
      then Inl (Validation ''SRT Stream ID must be at most 512 UTF-8 bytes'')
      else if has_control stream_id
      then Inl (Validation ''SRT Stream ID must not contain NUL or control characters'')
      else Inr ())"

definition bind_identity_ok :: "string \<Rightarrow> string option \<Rightarrow> bool" where
  "bind_identity_ok alias ident =
     (case ident of None \<Rightarrow> True
      | Some gid \<Rightarrow>
          \<not> (alias = [] \<or> length gid \<noteq> 36
             \<or> \<not> list_all (\<lambda>(i, b). if i \<in> {8, 13, 18, 23} then b = CHR ''-'' else is_ascii_hexdigit b)
                  (enumerate 0 gid)))"

definition normalize_restream_servers ::
    "stream_config \<Rightarrow> bool \<Rightarrow> rtsp_server_update \<Rightarrow> resolved_srt_update
      \<Rightarrow> (rtsp_server_config \<times> srt_server_config) result" where
  "normalize_restream_servers stream enabled rtsp srt =
     res_bind (narrow_port (ru_port rtsp) ''RTSP'') (\<lambda>rtsp_port.
     res_bind (validate_rtsp_token (ru_token rtsp)) (\<lambda>_.
     res_bind (narrow_port (rsrt_port srt) ''SRT'') (\<lambda>srt_port.
     res_bind
       (if 20 \<le> sint (rsrt_latency_ms srt) \<and> sint (rsrt_latency_ms srt) \<le> 8000
        then Inr (word_of_int (sint (rsrt_latency_ms srt)) :: u32)
        else Inl (Validation ''SRT latency must be between 20 and 8000 ms'')) (\<lambda>latency_ms.
     res_bind (validate_srt_passphrase (rsrt_passphrase srt)) (\<lambda>_.
     res_bind (validate_srt_stream_id (rsrt_stream_id srt)) (\<lambda>_.
     if \<not> bind_identity_ok (ru_bind_interface rtsp) (ru_bind_interface_id rtsp)
        \<or> \<not> bind_identity_ok (rsrt_bind_interface srt) (rsrt_bind_interface_id srt)
     then Inl (Validation ''Bind identity must be a stable interface GUID with an explicit selection'')
     else if sc_protocol stream = InputUdp \<and> sc_udp_port stream = srt_port
     then Inl (Validation ''SRT server port must differ from the UDP camera input port'')
     else Inr
       (\<lparr>rs_enabled = enabled, rs_port = rtsp_port, rs_token = ru_token rtsp,
         rs_bind_interface = ru_bind_interface rtsp, rs_bind_interface_id = ru_bind_interface_id rtsp\<rparr>,
        \<lparr>ss_port = srt_port, ss_passphrase = rsrt_passphrase srt, ss_latency_ms = latency_ms,
         ss_stream_id = rsrt_stream_id srt, ss_bind_interface = rsrt_bind_interface srt,
         ss_bind_interface_id = rsrt_bind_interface_id srt\<rparr>)))))))"

definition validate_prospective_settings :: "app_settings \<Rightarrow> app_settings result" where
  "validate_prospective_settings settings =
     res_bind
       (normalize_restream_servers (stream_cfg settings) (rs_enabled (rtsp_server settings))
         \<lparr>ru_port = ucast (rs_port (rtsp_server settings)), ru_token = rs_token (rtsp_server settings),
          ru_bind_interface = rs_bind_interface (rtsp_server settings),
          ru_bind_interface_id = rs_bind_interface_id (rtsp_server settings)\<rparr>
         \<lparr>rsrt_port = ucast (ss_port (srt_server settings)),
          rsrt_passphrase = ss_passphrase (srt_server settings),
          rsrt_latency_ms = ucast (ss_latency_ms (srt_server settings)),
          rsrt_stream_id = ss_stream_id (srt_server settings),
          rsrt_bind_interface = ss_bind_interface (srt_server settings),
          rsrt_bind_interface_id = ss_bind_interface_id (srt_server settings)\<rparr>)
       (\<lambda>(rtsp, srt). Inr (settings\<lparr>rtsp_server := rtsp, srt_server := srt\<rparr>))"

definition resolve_passphrase_update ::
    "srt_passphrase_state \<Rightarrow> srt_passphrase_update \<Rightarrow> srt_passphrase_state" where
  "resolve_passphrase_update current upd =
     (case upd of Keep \<Rightarrow> current | Replace v \<Rightarrow> Available v | Clear \<Rightarrow> Unencrypted)"

definition prospective_restream_settings ::
    "app_settings \<Rightarrow> restream_settings_update \<Rightarrow> app_settings result" where
  "prospective_restream_settings current upd =
     (let passphrase = resolve_passphrase_update (ss_passphrase (srt_server current))
            (su_passphrase (rsu_srt_server upd))
      in res_bind
        (normalize_restream_servers (stream_cfg current) (rsu_enabled upd) (rsu_rtsp_server upd)
          \<lparr>rsrt_port = su_port (rsu_srt_server upd), rsrt_passphrase = passphrase,
           rsrt_latency_ms = su_latency_ms (rsu_srt_server upd),
           rsrt_stream_id = su_stream_id (rsu_srt_server upd),
           rsrt_bind_interface = su_bind_interface (rsu_srt_server upd),
           rsrt_bind_interface_id = su_bind_interface_id (rsu_srt_server upd)\<rparr>)
        (\<lambda>(rtsp, srt). validate_prospective_settings (current\<lparr>rtsp_server := rtsp, srt_server := srt\<rparr>)))"

definition validate_srt_startable_from_state :: "srt_passphrase_state \<Rightarrow> unit result" where
  "validate_srt_startable_from_state passphrase =
     (case passphrase of
        Unavailable _ \<Rightarrow> Inl (SrtPassphraseUnavailable
          ''the saved SRT passphrase cannot be decrypted; replace it or explicitly clear encryption'')
      | _ \<Rightarrow> Inr ())"

definition validate_srt_startable :: "app_settings \<Rightarrow> unit result" where
  "validate_srt_startable settings = validate_srt_startable_from_state (ss_passphrase (srt_server settings))"

section \<open>What the validator decides\<close>

definition passphrase_ok :: "srt_passphrase_state \<Rightarrow> bool" where
  "passphrase_ok p = (case p of
     Available v \<Rightarrow> 10 \<le> length v \<and> length v \<le> 79 \<and> (\<forall>c\<in>set v. 33 \<le> byte_of c \<and> byte_of c \<le> 126)
   | _ \<Rightarrow> True)"

definition settings_valid :: "app_settings \<Rightarrow> bool" where
  "settings_valid s \<longleftrightarrow>
     (let r = rtsp_server s; t = srt_server s in
      rs_port r \<noteq> 0 \<and> length (rs_token r) = 16 \<and> (\<forall>c\<in>set (rs_token r). is_lower_hex c)
    \<and> ss_port t \<noteq> 0 \<and> 20 \<le> ss_latency_ms t \<and> ss_latency_ms t \<le> 8000
    \<and> passphrase_ok (ss_passphrase t)
    \<and> length (ss_stream_id t) \<le> 512 \<and> \<not> has_control (ss_stream_id t)
    \<and> bind_identity_ok (rs_bind_interface r) (rs_bind_interface_id r)
    \<and> bind_identity_ok (ss_bind_interface t) (ss_bind_interface_id t)
    \<and> \<not> (sc_protocol (stream_cfg s) = InputUdp \<and> sc_udp_port (stream_cfg s) = ss_port t))"

lemma uint_u16: "uint (p :: u16) < 65536"
  using uint_lt2p [of p] by simp

lemma uint_u32: "uint (p :: u32) < 4294967296"
  using uint_lt2p [of p] by simp

lemma sint_ucast_u16: "sint (ucast (p :: u16) :: i64) = uint p"
proof -
  have "- (2 ^ 63) \<le> uint p" by (rule order_trans [OF _ uint_nonnegative]) simp
  then show ?thesis
    using uint_u16 [of p] by (simp add: signed_ucast_eq signed_take_bit_int_eq_self_iff)
qed

lemma sint_ucast_u32: "sint (ucast (p :: u32) :: i64) = uint p"
proof -
  have "- (2 ^ 63) \<le> uint p" by (rule order_trans [OF _ uint_nonnegative]) simp
  then show ?thesis
    using uint_u32 [of p] by (simp add: signed_ucast_eq signed_take_bit_int_eq_self_iff)
qed

lemma narrow_port_ucast [simp]:
  "narrow_port (ucast p) proto = (if p = 0
     then Inl (Validation (proto @ '' server port must be between 1 and 65535'')) else Inr p)"
proof -
  have "1 \<le> uint p \<longleftrightarrow> p \<noteq> 0"
    using uint_0_iff [of p] uint_nonnegative [of p] by linarith
  moreover have "uint p \<le> 65535"
    using uint_u16 [of p] by linarith
  ultimately show ?thesis
    by (simp add: narrow_port_def sint_ucast_u16)
qed

lemma validate_rtsp_token_iff [simp]:
  "validate_rtsp_token t = Inr () \<longleftrightarrow> length t = 16 \<and> (\<forall>c\<in>set t. is_lower_hex c)"
  by (simp add: validate_rtsp_token_def list_all_iff)

lemma validate_srt_passphrase_iff [simp]: "validate_srt_passphrase p = Inr () \<longleftrightarrow> passphrase_ok p"
  by (cases p) (auto simp: passphrase_ok_def list_all_iff)

lemma validate_srt_stream_id_iff [simp]:
  "validate_srt_stream_id i = Inr () \<longleftrightarrow> length i \<le> 512 \<and> \<not> has_control i"
  by (auto simp: validate_srt_stream_id_def)

lemma validate_prospective_iff:
  "validate_prospective_settings s = Inr s' \<longleftrightarrow> settings_valid s \<and> s' = s"
proof -
  have "validate_prospective_settings s = Inr s' \<longleftrightarrow>
      settings_valid s \<and> s' = s\<lparr>rtsp_server := rtsp_server s, srt_server := srt_server s\<rparr>"
    by (auto simp: validate_prospective_settings_def normalize_restream_servers_def res_bind_Inr_iff
        settings_valid_def Let_def sint_ucast_u32 word_le_def split: if_splits)
  then show ?thesis by simp
qed

lemma normalize_validation_error:
  "normalize_restream_servers st en r t = Inl e \<Longrightarrow> \<exists>m. e = Validation m"
  by (cases "rsrt_passphrase t")
    (auto simp: normalize_restream_servers_def res_bind_def narrow_port_def validate_rtsp_token_def
      validate_srt_stream_id_def split: if_splits)

lemma validate_validation_error:
  "validate_prospective_settings s = Inl e \<Longrightarrow> \<exists>m. e = Validation m"
  using normalize_validation_error
  by (auto simp: validate_prospective_settings_def res_bind_def split: sum.splits prod.splits)

lemma uint_word_of_int_small:
  "0 \<le> k \<Longrightarrow> k < 2 ^ LENGTH('a) \<Longrightarrow> uint (word_of_int k :: 'a::len word) = k"
  by (simp add: unsigned_of_int take_bit_int_eq_self)

lemma narrow_port_Inr: "narrow_port p proto = Inr w \<Longrightarrow> uint w = sint p"
  using uint_word_of_int_small [of "sint p", where 'a = 16]
  by (auto simp: narrow_port_def split: if_splits)

lemma is_lower_hex_digit_char: "d < 16 \<Longrightarrow> is_lower_hex (digit_char d)"
  by (auto simp: is_lower_hex_def digit_char_def byte_of_def)

lemma hex_encode_lower: "\<forall>c\<in>set (hex_encode bs). is_lower_hex c"
  by (auto simp: hex_encode_def hex2_def is_lower_hex_digit_char)

lemma length_hex_encode: "length (hex_encode bs) = 2 * length bs"
  by (induction bs) (auto simp: hex_encode_def hex2_def)

lemma default_settings_valid: "length random8 = 8 \<Longrightarrow> settings_valid (app_settings_default random8)"
  using hex_encode_lower [of random8] length_hex_encode [of random8]
  by (simp add: settings_valid_def app_settings_default_def generate_token_def srt_server_default_def
      passphrase_ok_def bind_identity_ok_def Let_def)

section \<open>Properties\<close>

text \<open>C12: the settings validator accepts exactly the valid snapshots (nonzero ports, a
  sixteen-digit lowercase hexadecimal token, latency 20 to 8000, a printable passphrase of 10
  to 79 bytes, a Stream ID of at most 512 bytes without control characters, well-formed bind
  identities, no clash with the UDP input port), returns them unchanged, and rejects every
  other snapshot with a validation error.\<close>

theorem validate_prospective_exact:
  "(validate_prospective_settings s = Inr s' \<longleftrightarrow> settings_valid s \<and> s' = s)
   \<and> ((\<exists>m. validate_prospective_settings s = Inl (Validation m)) \<longleftrightarrow> \<not> settings_valid s)"
proof (cases "validate_prospective_settings s")
  case (Inl e)
  with validate_validation_error [of s e] validate_prospective_iff [of s s] validate_prospective_iff [of s s']
  show ?thesis by auto
next
  case (Inr a)
  with validate_prospective_iff [of s a] validate_prospective_iff [of s s'] show ?thesis by auto
qed

text \<open>an accepted re-stream update yields a valid snapshot that differs from the current
  settings only in the two server sections, carries the requested ports and latency without
  truncation, and treats the passphrase as asked (keep, replace, clear).\<close>

theorem prospective_restream_sound:
  assumes "prospective_restream_settings current upd = Inr s"
  shows "settings_valid s
    \<and> s = current\<lparr>rtsp_server := rtsp_server s, srt_server := srt_server s\<rparr>
    \<and> uint (rs_port (rtsp_server s)) = sint (ru_port (rsu_rtsp_server upd))
    \<and> uint (ss_port (srt_server s)) = sint (su_port (rsu_srt_server upd))
    \<and> uint (ss_latency_ms (srt_server s)) = sint (su_latency_ms (rsu_srt_server upd))
    \<and> rs_token (rtsp_server s) = ru_token (rsu_rtsp_server upd)
    \<and> ss_passphrase (srt_server s)
        = resolve_passphrase_update (ss_passphrase (srt_server current)) (su_passphrase (rsu_srt_server upd))"
proof -
  from assms obtain r t where norm: "normalize_restream_servers (stream_cfg current) (rsu_enabled upd)
      (rsu_rtsp_server upd)
      \<lparr>rsrt_port = su_port (rsu_srt_server upd),
       rsrt_passphrase = resolve_passphrase_update (ss_passphrase (srt_server current)) (su_passphrase (rsu_srt_server upd)),
       rsrt_latency_ms = su_latency_ms (rsu_srt_server upd),
       rsrt_stream_id = su_stream_id (rsu_srt_server upd),
       rsrt_bind_interface = su_bind_interface (rsu_srt_server upd),
       rsrt_bind_interface_id = su_bind_interface_id (rsu_srt_server upd)\<rparr> = Inr (r, t)"
    and val: "validate_prospective_settings (current\<lparr>rtsp_server := r, srt_server := t\<rparr>) = Inr s"
    by (auto simp: prospective_restream_settings_def res_bind_Inr_iff Let_def)
  from val have s: "settings_valid s" "s = current\<lparr>rtsp_server := r, srt_server := t\<rparr>"
    by (auto simp: validate_prospective_iff)
  from norm have "uint (rs_port r) = sint (ru_port (rsu_rtsp_server upd))"
    and "uint (ss_port t) = sint (su_port (rsu_srt_server upd))"
    and "uint (ss_latency_ms t) = sint (su_latency_ms (rsu_srt_server upd))"
    and "rs_token r = ru_token (rsu_rtsp_server upd)"
    and "ss_passphrase t = resolve_passphrase_update (ss_passphrase (srt_server current)) (su_passphrase (rsu_srt_server upd))"
    using uint_word_of_int_small [of "sint (su_latency_ms (rsu_srt_server upd))", where 'a = 32]
    by (auto simp: normalize_restream_servers_def res_bind_Inr_iff dest: narrow_port_Inr split: if_splits)
  with s show ?thesis by simp
qed

theorem prospective_restream_sound_witness:
  "settings_valid (app_settings_default (replicate 8 0))"
proof -
  let ?d = "app_settings_default (replicate 8 0)"
  let ?u = "\<lparr>rsu_enabled = False,
     rsu_rtsp_server = \<lparr>ru_port = 8554, ru_token = rs_token (rtsp_server ?d), ru_bind_interface = [],
       ru_bind_interface_id = None\<rparr>,
     rsu_srt_server = \<lparr>su_port = 8890, su_passphrase = Keep, su_latency_ms = 125, su_stream_id = [],
       su_bind_interface = [], su_bind_interface_id = None\<rparr>\<rparr>"
  have valid: "settings_valid ?d" by (rule default_settings_valid) simp
  then have "validate_rtsp_token (generate_token (replicate 8 0)) = Inr ()"
    by (simp add: settings_valid_def Let_def app_settings_default_def)
  then have "prospective_restream_settings ?d ?u = Inr ?d"
    using valid
    by (simp add: prospective_restream_settings_def normalize_restream_servers_def narrow_port_def
        resolve_passphrase_update_def app_settings_default_def srt_server_default_def
        validate_srt_stream_id_def bind_identity_ok_def validate_prospective_iff
        del: validate_rtsp_token_iff)
  from prospective_restream_sound [OF this] show ?thesis by blast
qed

end
