(* ===== verification/Mac.thy ===== *)
theory Mac
  imports Errors
begin

unbundle bit_operations_syntax

text \<open>
  Device and adapter identities. \<open>parse_mac_bytes\<close> (\<open>network/mod.rs\<close>) reads six
  hexadecimal fields, \<open>canonical_mac\<close> and \<open>same_mac\<close> (\<open>network/device_registry.rs\<close>)
  decide when two texts name one interface, \<open>format_mac\<close> (\<open>network/arp.rs\<close>) prints a
  captured sender. A byte array \<open>[u8; 6]\<close> is a list of length six.
\<close>

type_synonym mac_bytes = "u8 list"

definition parse_mac_bytes :: "string \<Rightarrow> mac_bytes option" where
  "parse_mac_bytes mac =
     (let parts = split_on (\<lambda>c. c = CHR '':'' \<or> c = CHR ''-'') mac
      in if length parts \<noteq> 6 then None
         else those (map (\<lambda>p. map_option word_of_nat (from_str_radix 16 255 p)) parts))"

definition canonical_mac :: "string \<Rightarrow> string option" where
  "canonical_mac mac =
     (case parse_mac_bytes mac of
        None \<Rightarrow> None
      | Some bytes \<Rightarrow>
          if bytes = replicate 6 0 \<or> hd bytes AND 1 \<noteq> 0 then None
          else Some (join_with '':'' (map hex2 bytes)))"

text \<open>\<open>adapter_mac\<close> of \<open>network/adapter_selector.rs\<close>: the same texts are accepted, but the text is
  only lower-cased and its separators unified.\<close>

definition adapter_mac :: "string \<Rightarrow> string option" where
  "adapter_mac mac =
     (case parse_mac_bytes mac of
        None \<Rightarrow> None
      | Some bytes \<Rightarrow>
          if bytes \<noteq> replicate 6 0 \<and> hd bytes AND 1 = 0
          then Some (map (\<lambda>c. ascii_lower (if c = CHR ''-'' then CHR '':'' else c)) mac) else None)"

definition same_mac :: "string \<Rightarrow> string \<Rightarrow> bool" where
  "same_mac a b =
     (case (canonical_mac a, canonical_mac b) of
        (Some a', Some b') \<Rightarrow> a' = b'
      | _ \<Rightarrow> a = b)"

definition format_mac :: "mac_bytes \<Rightarrow> string" where
  "format_mac mac = join_with '':'' (map hex2 mac)"

definition is_local_mac :: "string \<Rightarrow> mac_bytes set \<Rightarrow> bool" where
  "is_local_mac mac local_macs =
     (case parse_mac_bytes mac of None \<Rightarrow> False | Some m \<Rightarrow> m \<in> local_macs)"

section \<open>Canonical identities\<close>

lemma split_on_join_hex:
  "bs \<noteq> [] \<Longrightarrow>
   split_on (\<lambda>c. c = CHR '':'' \<or> c = CHR ''-'') (join_with '':'' (map hex2 bs)) = map hex2 bs"
proof (induction bs rule: induct_list012)
  case (2 b)
  then show ?case
    using hex2_no_sep by (simp add: split_on_none)
next
  case (3 b c bs)
  have "\<forall>x\<in>set (hex2 b). \<not> (x = CHR '':'' \<or> x = CHR ''-'')"
    using hex2_no_sep by blast
  from split_on_append [OF this, of "CHR '':''"] 3 show ?case
    by simp
qed simp

lemma those_map_Some: "those (map (\<lambda>x. Some (f x)) xs) = Some (map f xs)"
  by (induction xs) auto

lemma length_those: "those xs = Some ys \<Longrightarrow> length ys = length xs"
  by (induction xs arbitrary: ys) (auto split: option.splits)

lemma parse_format_mac [simp]: "length bs = 6 \<Longrightarrow> parse_mac_bytes (format_mac bs) = Some bs"
  by (auto simp: parse_mac_bytes_def format_mac_def split_on_join_hex comp_def those_map_Some
      simp flip: length_greater_0_conv)

lemma parse_mac_bytes_length: "parse_mac_bytes mac = Some bs \<Longrightarrow> length bs = 6"
  by (auto simp: parse_mac_bytes_def Let_def dest: length_those split: if_splits)

lemma canonical_mac_cases:
  assumes "canonical_mac mac = Some c"
  obtains bs where "parse_mac_bytes mac = Some bs" "c = format_mac bs" "length bs = 6"
    "bs \<noteq> replicate 6 0" "hd bs AND 1 = 0"
  using assms parse_mac_bytes_length
  by (auto simp: canonical_mac_def format_mac_def split: option.splits if_splits)

lemma canonical_mac_idem: "canonical_mac mac = Some c \<Longrightarrow> canonical_mac c = Some c"
  by (erule canonical_mac_cases) (simp add: canonical_mac_def format_mac_def [symmetric])

lemma same_mac_refl [simp]: "same_mac a a"
  by (simp add: same_mac_def split: option.splits)

lemma same_mac_sym: "same_mac a b = same_mac b a"
  by (auto simp: same_mac_def split: option.splits)

lemma same_mac_iff:
  "same_mac a b \<longleftrightarrow> a = b \<or> (canonical_mac a \<noteq> None \<and> canonical_mac a = canonical_mac b)"
  by (auto simp: same_mac_def split: option.splits)

lemma same_mac_trans: "same_mac a b \<Longrightarrow> same_mac b c \<Longrightarrow> same_mac a c"
  by (auto simp: same_mac_iff)

lemma same_mac_canonical: "same_mac a b \<Longrightarrow> canonical_mac a = canonical_mac b"
  by (auto simp: same_mac_iff)

lemma adapter_mac_None: "adapter_mac mac = None \<longleftrightarrow> canonical_mac mac = None"
  by (auto simp: adapter_mac_def canonical_mac_def split: option.splits)

lemma parse_mac_lower: "parse_mac_bytes (map ascii_lower s) = parse_mac_bytes s"
proof -
  have p: "ascii_lower c = CHR '':'' \<longleftrightarrow> c = CHR '':''" "ascii_lower c = CHR ''-'' \<longleftrightarrow> c = CHR ''-''" for c
    by (rule ascii_lower_eq_iff; simp)+
  show ?thesis by (simp add: parse_mac_bytes_def split_on_map p Let_def comp_def)
qed

lemma canonical_mac_case:
  assumes "eq_ignore_ascii_case a b"
  shows "canonical_mac a = canonical_mac b"
proof -
  have "parse_mac_bytes a = parse_mac_bytes b"
    using assms parse_mac_lower [of a] parse_mac_lower [of b] by (simp add: eq_ignore_ascii_case_def)
  then show ?thesis by (simp add: canonical_mac_def)
qed
text \<open>The parser is lenient: signs, short and long fields and mixed separators are accepted.\<close>

lemma parse_mac_lenient: "parse_mac_bytes ''+2:0-000:0-+00:1'' = Some [2, 0, 0, 0, 0, 1]"
  by code_simp

end
