(* ===== verification/Config_Store.thy ===== *)
theory Config_Store
  imports Settings Mac
begin

text \<open>
  \<open>AppConfig\<close> of \<open>config.rs\<close>: the in-memory settings and device cache, and every writer of
  them, each one function from the configuration and the disk to its result and both after
  it. The disk is a parameter type \<open>'d\<close>; \<open>persist\<close> is the save function the writer is given
  (\<open>save_to_disk\<close> in production, a stub in the scenarios of the source), which may fail and
  may change the disk. A transactional writer holds the save lock and the settings mutex for
  its whole body, so it is one step; the others release a lock in between, and
  \<open>Config_Interleaving\<close> takes those apart.
\<close>

record app_config =
  cfg_settings :: app_settings
  cfg_cache :: "cached_device list"
  cfg_notices :: "string list"

type_synonym 'd persist = "app_settings \<Rightarrow> 'd \<Rightarrow> unit result \<times> 'd"
type_synonym 'd persist_cache = "cached_device list \<Rightarrow> 'd \<Rightarrow> unit result \<times> 'd"
type_synonym ('t, 'd) writer = "'d persist \<Rightarrow> app_config \<times> 'd \<Rightarrow> 't result \<times> (app_config \<times> 'd)"

section \<open>Fences\<close>

text \<open>\<open>SweepFence\<close> of \<open>network/mod.rs\<close>: the generation captured when work was scheduled,
  with the values the two shared atomics have when the fence is read.\<close>

record sweep_fence =
  sf_generation :: u64
  sf_current :: u64
  sf_active :: bool

definition is_stale :: "sweep_fence \<Rightarrow> bool" where
  "is_stale f \<longleftrightarrow> \<not> sf_active f \<or> sf_generation f \<noteq> sf_current f"

section \<open>Pure helpers\<close>

definition subnet_prefix :: "string \<Rightarrow> u8 option" where
  "subnet_prefix subnet =
     (case rsplit_once (CHR ''/'') subnet of None \<Rightarrow> None | Some (_, p) \<Rightarrow> parse_u8 p)"

definition align_row :: "string \<Rightarrow> string \<times> string \<Rightarrow> (string, adopted_meta) hashmap \<Rightarrow> (string, adopted_meta) hashmap" where
  "align_row now = (\<lambda>(subnet, address) meta.
     let row = (case hm_get meta subnet of Some r \<Rightarrow> r
                | None \<Rightarrow> adopted_meta_default\<lparr>am_adopted_at := Some now\<rparr>);
         row = (if am_address row = None then row\<lparr>am_address := Some address\<rparr> else row);
         row = (if am_prefix row = None then row\<lparr>am_prefix := subnet_prefix subnet\<rparr> else row)
     in hm_insert subnet row meta)"

definition align_adopted_meta ::
    "(string, string) hashmap \<Rightarrow> (string, adopted_meta) hashmap \<Rightarrow> string \<Rightarrow> (string, adopted_meta) hashmap" where
  "align_adopted_meta adopted meta now =
     fold (align_row now) adopted
       (hm_retain (\<lambda>subnet row. hm_contains subnet adopted \<or> am_desired row = Removed) meta)"

definition remove_adoption_entry ::
    "string \<Rightarrow> (string, string) hashmap \<times> (string, adopted_meta) hashmap
      \<Rightarrow> bool \<times> (string, string) hashmap \<times> (string, adopted_meta) hashmap" where
  "remove_adoption_entry subnet = (\<lambda>(adopted, meta).
     let address = hm_get adopted subnet; adopted' = hm_remove subnet adopted in
     if address = None \<and> \<not> hm_contains subnet meta then (False, adopted', meta)
     else
       let row = (case hm_get meta subnet of Some r \<Rightarrow> r | None \<Rightarrow> adopted_meta_default);
           row = (if am_address row = None then row\<lparr>am_address := address\<rparr> else row);
           row = (if am_prefix row = None then row\<lparr>am_prefix := subnet_prefix subnet\<rparr> else row)
       in (True, adopted', hm_insert subnet (row\<lparr>am_desired := Removed\<rparr>) meta))"

text \<open>\<open>iter_mut().find(p)\<close> followed by an update of the element found.\<close>

fun update_first :: "('a \<Rightarrow> bool) \<Rightarrow> ('a \<Rightarrow> 'a) \<Rightarrow> 'a list \<Rightarrow> 'a list" where
  "update_first p f [] = []"
| "update_first p f (x # xs) = (if p x then f x # xs else x # update_first p f xs)"

definition update_cached_alias_in_place ::
    "string \<Rightarrow> string \<Rightarrow> cached_device list \<Rightarrow> bool \<times> cached_device list" where
  "update_cached_alias_in_place mac alias cache =
     (case List.find (\<lambda>d. cd_mac d = mac) cache of
        Some d \<Rightarrow> if cd_alias d \<noteq> alias
                  then (True, update_first (\<lambda>d. cd_mac d = mac) (\<lambda>d. d\<lparr>cd_alias := alias\<rparr>) cache)
                  else (False, cache)
      | None \<Rightarrow> (False, cache))"

definition upsert_cache_record ::
    "cached_device \<Rightarrow> sweep_fence option \<Rightarrow> cached_device list \<Rightarrow> bool \<times> cached_device list" where
  "upsert_cache_record device fence cache =
     (if (case fence of None \<Rightarrow> False | Some f \<Rightarrow> is_stale f) then (False, cache)
      else if List.find (\<lambda>r. cd_mac r = cd_mac device) cache \<noteq> None
      then (True, update_first (\<lambda>r. cd_mac r = cd_mac device) (\<lambda>_. device) cache)
      else (True, cache @ [device]))"

definition manual_node_key :: "manual_node \<Rightarrow> string" where
  "manual_node_key node =
     (case mn_expected_mac node of Some m \<Rightarrow> m | None \<Rightarrow> ''manual:'' @ mn_ip node)"

definition same_expected_mac :: "string option \<Rightarrow> string option \<Rightarrow> bool" where
  "same_expected_mac a b =
     (case (a, b) of
        (None, None) \<Rightarrow> True
      | (Some x, Some y) \<Rightarrow> eq_ignore_ascii_case x y
      | _ \<Rightarrow> False)"

definition bind_manual_identity :: "string \<Rightarrow> manual_node \<Rightarrow> bool \<times> manual_node" where
  "bind_manual_identity mac node =
     (if mn_expected_mac node \<noteq> None then (False, node)
      else (True, node\<lparr>mn_expected_mac := Some mac\<rparr>))"

section \<open>The write-before-publish seam\<close>

text \<open>\<open>persist(&next)?; *settings = next; Ok(result)\<close>: a failed save leaves memory alone.\<close>

definition persist_then_publish :: "app_settings \<Rightarrow> 't \<Rightarrow> ('t, 'd) writer" where
  "persist_then_publish nxt r persist = (\<lambda>(c, d).
     case persist nxt d of
       (Inl e, d') \<Rightarrow> (Inl e, (c, d'))
     | (Inr _, d') \<Rightarrow> (Inr r, (c\<lparr>cfg_settings := nxt\<rparr>, d')))"

lemma persist_then_publish_iff [simp]:
  "persist_then_publish nxt r p (c, d) = (Inl e, (c', d')) \<longleftrightarrow> c' = c \<and> p nxt d = (Inl e, d')"
  "persist_then_publish nxt r p (c, d) = (Inr x, (c', d')) \<longleftrightarrow>
     x = r \<and> c' = c\<lparr>cfg_settings := nxt\<rparr> \<and> p nxt d = (Inr (), d')"
  by (cases "p nxt d"; cases "fst (p nxt d)"; auto simp: persist_then_publish_def)+

definition change_settings_if_with ::
    "(app_settings \<Rightarrow> (('t \<times> bool) \<times> app_settings) result) \<Rightarrow> ('t, 'd) writer" where
  "change_settings_if_with change persist = (\<lambda>(c, d).
     case change (cfg_settings c) of
       Inl e \<Rightarrow> (Inl e, (c, d))
     | Inr ((r, changed), nxt) \<Rightarrow>
         if changed then persist_then_publish nxt r persist (c, d)
         else (Inr r, (c, d)))"

definition change_settings_with ::
    "(app_settings \<Rightarrow> ('t \<times> app_settings) result) \<Rightarrow> ('t, 'd) writer" where
  "change_settings_with change =
     change_settings_if_with (\<lambda>s. res_bind (change s) (\<lambda>(v, s'). Inr ((v, True), s')))"

section \<open>Writers\<close>

definition owner_selected :: "string option \<Rightarrow> app_settings \<Rightarrow> bool" where
  "owner_selected owner s \<longleftrightarrow>
     owner \<noteq> None \<and> owner = Option.bind (selected_adapter_mac s) canonical_mac"

definition reserve_temporary_with :: "pending_address \<Rightarrow> (unit, 'd) writer" where
  "reserve_temporary_with row =
     change_settings_with (\<lambda>s.
       if \<not> owner_selected (canonical_mac (pa_adapter_mac row)) s
          \<or> network_mode_sel s \<noteq> StaticAuto
          \<or> pa_prefix row \<noteq> 24
          \<or> isl (parse_camera_ip (pa_address row))
          \<or> (\<exists>m\<in>set (hm_values (adopted_meta_map s)). am_address m = Some (pa_address row))
          \<or> (\<exists>p\<in>set (pending_addresses s). pa_adapter_mac p = pa_adapter_mac row \<and> pa_address p = pa_address row)
       then Inl (Network ''Temporary address ownership unavailable or already reserved'')
       else Inr ((), s\<lparr>pending_addresses := pending_addresses s @ [row]\<rparr>))"

definition forget_temporary_with :: "pending_address \<Rightarrow> (unit, 'd) writer" where
  "forget_temporary_with row =
     change_settings_with (\<lambda>s. Inr ((), s\<lparr>pending_addresses := filter (\<lambda>p. p \<noteq> row) (pending_addresses s)\<rparr>))"

definition update_stream_with :: "stream_config \<Rightarrow> (unit, 'd) writer" where
  "update_stream_with stream =
     change_settings_with (\<lambda>s. let s' = s\<lparr>stream_cfg := stream\<rparr> in
       res_bind (validate_prospective_settings s') (\<lambda>_. Inr ((), s')))"

text \<open>\<open>BindInterface\<close> of \<open>network/bindings.rs\<close>, the two fields the migration reads.\<close>

record bind_interface =
  bi_id :: string
  bi_alias :: string
  bi_kind :: string
  bi_address :: string

definition migrated_bind_id :: "bind_interface list \<Rightarrow> string \<Rightarrow> string option \<Rightarrow> string option" where
  "migrated_bind_id interfaces alias ident =
     (if alias = [] \<or> ident \<noteq> None then ident
      else (case filter (\<lambda>i. bi_alias i = alias) interfaces of
              [i] \<Rightarrow> Some (bi_id i)
            | _ \<Rightarrow> ident))"

definition migrate_bind_ids_with :: "bind_interface list \<Rightarrow> (unit, 'd) writer" where
  "migrate_bind_ids_with interfaces =
     change_settings_if_with (\<lambda>s.
       if bind_identity_migration_complete s then Inr (((), False), s)
       else Inr (((), True), s\<lparr>bind_identity_migration_complete := True,
              rtsp_server := (rtsp_server s)\<lparr>rs_bind_interface_id :=
                migrated_bind_id interfaces (rs_bind_interface (rtsp_server s)) (rs_bind_interface_id (rtsp_server s))\<rparr>,
              srt_server := (srt_server s)\<lparr>ss_bind_interface_id :=
                migrated_bind_id interfaces (ss_bind_interface (srt_server s)) (ss_bind_interface_id (srt_server s))\<rparr>\<rparr>))"

text \<open>The two re-stream commits validate a clone, save it, and then assign their own fields in
  memory; they return the validated snapshot.\<close>

definition commit_restream_settings_with ::
    "rtsp_server_config \<Rightarrow> srt_server_config \<Rightarrow> (app_settings, 'd) writer" where
  "commit_restream_settings_with rtsp srt persist = (\<lambda>(c, d).
     case validate_prospective_settings ((cfg_settings c)\<lparr>rtsp_server := rtsp, srt_server := srt\<rparr>) of
       Inl e \<Rightarrow> (Inl e, (c, d))
     | Inr prospective \<Rightarrow>
         (case persist prospective d of
            (Inl e, d') \<Rightarrow> (Inl e, (c, d'))
          | (Inr _, d') \<Rightarrow>
              (Inr prospective,
               (c\<lparr>cfg_settings := (cfg_settings c)\<lparr>rtsp_server := rtsp, srt_server := srt\<rparr>\<rparr>, d'))))"

definition commit_restream_protocol_with :: "restream_protocol \<Rightarrow> (app_settings, 'd) writer" where
  "commit_restream_protocol_with protocol persist = (\<lambda>(c, d).
     case validate_prospective_settings ((cfg_settings c)\<lparr>restream_protocol_sel := protocol\<rparr>) of
       Inl e \<Rightarrow> (Inl e, (c, d))
     | Inr prospective \<Rightarrow>
         (case persist prospective d of
            (Inl e, d') \<Rightarrow> (Inl e, (c, d'))
          | (Inr _, d') \<Rightarrow>
              (Inr prospective,
               (c\<lparr>cfg_settings := (cfg_settings c)\<lparr>restream_protocol_sel := protocol\<rparr>\<rparr>, d'))))"

definition liveness_row :: "adopted_meta \<Rightarrow> adopted_meta \<Rightarrow> adopted_meta" where
  "liveness_row incoming row =
     (if am_desired row = Present \<and> am_address row = am_address incoming
      then row\<lparr>am_last_device_seen := am_last_device_seen incoming\<rparr> else row)"

definition update_adoption_liveness :: "(string, adopted_meta) hashmap \<Rightarrow> (unit, 'd) writer" where
  "update_adoption_liveness meta =
     change_settings_with (\<lambda>s. Inr ((), s\<lparr>adopted_meta_map :=
       fold (\<lambda>(subnet, incoming) m. hm_modify subnet (liveness_row incoming) m) meta (adopted_meta_map s)\<rparr>))"

text \<open>A pending row is the temporary claim of exactly this binding row.\<close>

definition pending_matches :: "adopted_meta \<Rightarrow> pending_address \<Rightarrow> bool" where
  "pending_matches row p \<longleftrightarrow>
     Some (pa_adapter_mac p) = am_adapter_mac row \<and> Some (pa_address p) = am_address row
     \<and> Some (pa_prefix p) = am_prefix row"

definition committed_row :: "adopted_meta \<Rightarrow> bool" where
  "committed_row row \<longleftrightarrow> am_desired row = Present \<and> am_applied row \<and> am_last_error row = None"

text \<open>The two binding maps after the write, before the row itself is inserted.\<close>

definition binding_maps ::
    "string \<Rightarrow> adopted_meta \<Rightarrow> app_settings \<Rightarrow> (string, string) hashmap \<times> (string, adopted_meta) hashmap" where
  "binding_maps subnet row s =
     (if am_desired row = Removed
      then snd (remove_adoption_entry subnet (adopted_subnets s, adopted_meta_map s))
      else (case am_address row of
              Some address \<Rightarrow>
                ((if hm_contains subnet (adopted_subnets s) then adopted_subnets s
                  else hm_insert subnet address (adopted_subnets s)), adopted_meta_map s)
            | None \<Rightarrow> (adopted_subnets s, adopted_meta_map s)))"

definition set_binding_change ::
    "string \<Rightarrow> adopted_meta \<Rightarrow> bool \<Rightarrow> app_settings \<Rightarrow> ((unit \<times> bool) \<times> app_settings) result" where
  "set_binding_change subnet row force_intent s =
     (let needs_handover = (committed_row row \<and> list_ex (pending_matches row) (pending_addresses s)) in
      if \<not> force_intent \<and> hm_get (adopted_meta_map s) subnet = Some row \<and> \<not> needs_handover
      then Inr (((), False), s)
      else if am_desired row = Present
           \<and> (case hm_get (adopted_meta_map s) subnet of None \<Rightarrow> False | Some m \<Rightarrow> am_desired m = Removed)
      then Inl (Network ''Binding was removed by the user'')
      else Inr (((), True), s\<lparr>
             adopted_subnets := fst (binding_maps subnet row s),
             adopted_meta_map := hm_insert subnet row (snd (binding_maps subnet row s)),
             pending_addresses := (if committed_row row
               then filter (\<lambda>p. \<not> pending_matches row p) (pending_addresses s)
               else pending_addresses s)\<rparr>))"

definition set_binding_for_operation_with :: "string \<Rightarrow> adopted_meta \<Rightarrow> bool \<Rightarrow> (unit, 'd) writer" where
  "set_binding_for_operation_with subnet row force_intent =
     change_settings_if_with (set_binding_change subnet row force_intent)"

definition set_binding_with :: "string \<Rightarrow> adopted_meta \<Rightarrow> (unit, 'd) writer" where
  "set_binding_with subnet row = set_binding_for_operation_with subnet row False"

definition set_binding_intent :: "string \<Rightarrow> adopted_meta \<Rightarrow> (unit, 'd) writer" where
  "set_binding_intent subnet row = set_binding_for_operation_with subnet row True"

definition forget_unowned_binding_with :: "string \<Rightarrow> adopted_meta \<Rightarrow> (unit, 'd) writer" where
  "forget_unowned_binding_with subnet expected =
     change_settings_with (\<lambda>s.
       if am_adapter_mac expected \<noteq> None \<or> am_address expected = None
          \<or> hm_get (adopted_meta_map s) subnet \<noteq> Some expected
          \<or> (case hm_get (adopted_subnets s) subnet of None \<Rightarrow> False | Some ip \<Rightarrow> Some ip \<noteq> am_address expected)
          \<or> (\<exists>p\<in>set (pending_addresses s). Some (pa_address p) = am_address expected)
       then Inl (Network ''Saved binding changed or address ownership is pending; retry removal'')
       else Inr ((), s\<lparr>adopted_subnets := hm_remove subnet (adopted_subnets s),
                       adopted_meta_map := hm_remove subnet (adopted_meta_map s)\<rparr>))"

definition forget_completed_removal_with :: "string \<Rightarrow> adopted_meta \<Rightarrow> (unit, 'd) writer" where
  "forget_completed_removal_with subnet expected =
     change_settings_with (\<lambda>s.
       if \<not> removal_complete expected
          \<or> hm_get (adopted_meta_map s) subnet \<noteq> Some expected
          \<or> hm_contains subnet (adopted_subnets s)
          \<or> network_mode_sel s \<noteq> StaticAuto
          \<or> \<not> owner_selected (Option.bind (am_adapter_mac expected) canonical_mac) s
       then Inl (Network ''Saved removal changed or is not complete'')
       else Inr ((), s\<lparr>adopted_meta_map := hm_remove subnet (adopted_meta_map s)\<rparr>))"

definition claims_row :: "app_settings \<Rightarrow> string \<Rightarrow> adopted_meta \<Rightarrow> bool" where
  "claims_row s address row \<longleftrightarrow>
     am_address row = Some address
     \<and> (case am_adapter_mac row of None \<Rightarrow> True
        | Some owner \<Rightarrow> (case selected_adapter_mac s of None \<Rightarrow> False
                         | Some selected \<Rightarrow> canonical_mac owner = canonical_mac selected))"

definition claim_binding_with :: "string \<Rightarrow> (unit, 'd) writer" where
  "claim_binding_with address =
     change_settings_with (\<lambda>s.
       let pending = filter (\<lambda>p. pa_address p \<noteq> address
                       \<or> canonical_mac (pa_adapter_mac p) \<noteq> Option.bind (selected_adapter_mac s) canonical_mac)
                     (pending_addresses s);
           keys = map fst (filter (\<lambda>(_, row). claims_row s address row) (adopted_meta_map s))
       in Inr ((), s\<lparr>pending_addresses := pending,
                     adopted_subnets := fold hm_remove keys (adopted_subnets s),
                     adopted_meta_map := fold hm_remove keys (adopted_meta_map s)\<rparr>))"

definition set_selected_adapter_mac :: "string \<Rightarrow> (unit, 'd) writer" where
  "set_selected_adapter_mac mac =
     change_settings_with (\<lambda>s. Inr ((), s\<lparr>selected_adapter_mac := Some mac\<rparr>))"

definition set_network_mode :: "network_mode \<Rightarrow> (unit, 'd) writer" where
  "set_network_mode mode = change_settings_with (\<lambda>s. Inr ((), s\<lparr>network_mode_sel := mode\<rparr>))"

definition set_primary_address_with :: "string \<Rightarrow> string \<Rightarrow> (unit, 'd) writer" where
  "set_primary_address_with mac cidr persist cd =
     (case canonical_mac mac of
        None \<Rightarrow> (Inl (Config ''Invalid primary adapter MAC''), cd)
      | Some m \<Rightarrow>
          (case (if cidr \<noteq> [] then parse_cidr cidr else Inr (Ipv4 0 0 0 0, 0)) of
             Inl e \<Rightarrow> (Inl e, cd)
           | Inr _ \<Rightarrow> change_settings_with
               (\<lambda>s. Inr ((), s\<lparr>primary_addresses := hm_insert m cidr (primary_addresses s)\<rparr>)) persist cd))"

definition bind_manual_node_with :: "string \<Rightarrow> string \<Rightarrow> sweep_fence \<Rightarrow> (manual_node, 'd) writer" where
  "bind_manual_node_with ip mac fence save = (\<lambda>(c, d).
     case canonical_mac mac of
       None \<Rightarrow> (Inl (Network ''Invalid device MAC''), (c, d))
     | Some m \<Rightarrow>
         if is_stale fence then (Inl (Network ''verification retired''), (c, d))
         else
           (case List.find (\<lambda>n. mn_ip n = ip) (manual_nodes (cfg_settings c)) of
              None \<Rightarrow> (Inl (Network ''manual node no longer exists''), (c, d))
            | Some node \<Rightarrow>
                (let (changed, bound) = bind_manual_identity m node;
                     nxt = (cfg_settings c)\<lparr>manual_nodes :=
                       update_first (\<lambda>n. mn_ip n = ip) (\<lambda>_. bound) (manual_nodes (cfg_settings c))\<rparr>
                 in if changed then persist_then_publish nxt bound save (c, d)
                    else (Inr bound, (c, d)))))"

definition remove_manual_node :: "string \<Rightarrow> string option \<Rightarrow> (bool, 'd) writer" where
  "remove_manual_node ip expected_mac save = (\<lambda>(c, d).
     let nodes = manual_nodes (cfg_settings c);
         nodes' = filter (\<lambda>n. mn_ip n \<noteq> ip \<or> \<not> same_expected_mac (mn_expected_mac n) expected_mac) nodes;
         nxt = (cfg_settings c)\<lparr>manual_nodes := nodes'\<rparr>
     in if length nodes' = length nodes then (Inr False, (c, d))
        else persist_then_publish nxt True save (c, d))"

section \<open>Writers that assign in memory first and then save\<close>

definition save_settings :: "(unit, 'd) writer" where
  "save_settings save = (\<lambda>(c, d). let (r, d') = save (cfg_settings c) d in (r, (c, d')))"

definition assign_then_save :: "(app_settings \<Rightarrow> app_settings) \<Rightarrow> (unit, 'd) writer" where
  "assign_then_save f save = (\<lambda>(c, d). save_settings save (c\<lparr>cfg_settings := f (cfg_settings c)\<rparr>, d))"

definition clamp_percent :: "32 word \<Rightarrow> 32 word" where
  "clamp_percent p = (if sint p < 0 then 0 else if 100 < sint p then 100 else p)"

definition update_zoom_position :: "string \<Rightarrow> 32 word \<Rightarrow> (unit, 'd) writer" where
  "update_zoom_position camera_ip percent =
     assign_then_save (\<lambda>s. s\<lparr>zoom_positions := hm_insert camera_ip (clamp_percent percent) (zoom_positions s)\<rparr>)"

definition update_credentials :: "credentials \<Rightarrow> (unit, 'd) writer" where
  "update_credentials cr = assign_then_save (\<lambda>s. s\<lparr>credentials_cfg := cr\<rparr>)"

definition set_audio_muted :: "bool \<Rightarrow> (unit, 'd) writer" where
  "set_audio_muted muted =
     assign_then_save (\<lambda>s. s\<lparr>stream_cfg := (stream_cfg s)\<lparr>sc_audio_muted := muted\<rparr>\<rparr>)"

definition clear_manual_nodes :: "(unit, 'd) writer" where
  "clear_manual_nodes = assign_then_save (\<lambda>s. s\<lparr>manual_nodes := []\<rparr>)"

definition add_manual_node :: "manual_node \<Rightarrow> (unit, 'd) writer" where
  "add_manual_node node save = (\<lambda>(c, d).
     case List.find (\<lambda>n. mn_ip n = mn_ip node) (manual_nodes (cfg_settings c)) of
       Some existing \<Rightarrow>
         if mn_expected_mac existing \<noteq> None \<and> mn_expected_mac node \<noteq> None
            \<and> mn_expected_mac existing \<noteq> mn_expected_mac node
         then (Inl (Network ''different device at this address; remove the old pin before reassigning''), (c, d))
         else assign_then_save (\<lambda>s. s\<lparr>manual_nodes :=
                update_first (\<lambda>n. mn_ip n = mn_ip node)
                  (\<lambda>e. e\<lparr>mn_alias := mn_alias node,
                         mn_expected_mac := (if mn_expected_mac e = None then mn_expected_mac node
                                             else mn_expected_mac e)\<rparr>)
                  (manual_nodes s)\<rparr>) save (c, d)
     | None \<Rightarrow> assign_then_save (\<lambda>s. s\<lparr>manual_nodes := manual_nodes s @ [node]\<rparr>) save (c, d))"

definition update_manual_node_alias :: "string \<Rightarrow> string \<Rightarrow> (bool, 'd) writer" where
  "update_manual_node_alias key alias save = (\<lambda>(c, d).
     case List.find (\<lambda>n. eq_ignore_ascii_case (manual_node_key n) key) (manual_nodes (cfg_settings c)) of
       Some node \<Rightarrow>
         if mn_alias node \<noteq> alias then
           (case assign_then_save (\<lambda>s. s\<lparr>manual_nodes :=
                update_first (\<lambda>n. eq_ignore_ascii_case (manual_node_key n) key) (\<lambda>n. n\<lparr>mn_alias := alias\<rparr>)
                  (manual_nodes s)\<rparr>) save (c, d) of
              (Inl e, cd') \<Rightarrow> (Inl e, cd')
            | (Inr _, cd') \<Rightarrow> (Inr True, cd'))
         else (Inr False, (c, d))
     | None \<Rightarrow> (Inr False, (c, d)))"

section \<open>The device cache\<close>

definition save_cache :: "'d persist_cache \<Rightarrow> app_config \<times> 'd \<Rightarrow> unit result \<times> (app_config \<times> 'd)" where
  "save_cache save = (\<lambda>(c, d). let (r, d') = save (cfg_cache c) d in (r, (c, d')))"

definition update_cached_device_alias ::
    "string \<Rightarrow> string \<Rightarrow> 'd persist_cache \<Rightarrow> app_config \<times> 'd \<Rightarrow> bool result \<times> (app_config \<times> 'd)" where
  "update_cached_device_alias mac alias save = (\<lambda>(c, d).
     let (changed, cache) = update_cached_alias_in_place mac alias (cfg_cache c);
         c' = c\<lparr>cfg_cache := cache\<rparr>
     in if changed then
          (case save_cache save (c', d) of
             (Inl e, cd') \<Rightarrow> (Inl e, cd')
           | (Inr _, cd') \<Rightarrow> (Inr changed, cd'))
        else (Inr changed, (c', d)))"

definition upsert_cached_device_fenced ::
    "cached_device \<Rightarrow> sweep_fence option \<Rightarrow> 'd persist_cache \<Rightarrow> app_config \<times> 'd \<Rightarrow> unit result \<times> (app_config \<times> 'd)" where
  "upsert_cached_device_fenced device fence save = (\<lambda>(c, d).
     let (changed, cache) = upsert_cache_record device fence (cfg_cache c);
         c' = c\<lparr>cfg_cache := cache\<rparr>
     in if \<not> changed then (Inr (), (c', d)) else save_cache save (c', d))"

definition remove_cached_device ::
    "string \<Rightarrow> 'd persist_cache \<Rightarrow> app_config \<times> 'd \<Rightarrow> unit result \<times> (app_config \<times> 'd)" where
  "remove_cached_device mac save = (\<lambda>(c, d).
     let cache = filter (\<lambda>r. cd_mac r \<noteq> mac) (cfg_cache c);
         removed = (length (cfg_cache c) \<noteq> length cache);
         c' = c\<lparr>cfg_cache := cache\<rparr>
     in if removed then save_cache save (c', d) else (Inr (), (c', d)))"

section \<open>The contract of a transactional writer\<close>

text \<open>
  Refused: memory is untouched, and the disk at most carries what a failed save left there.
  Accepted: either nothing changed, or the published settings are exactly the snapshot that
  was persisted.
\<close>

definition atomic_persist :: "('d \<Rightarrow> app_settings) \<Rightarrow> 'd persist \<Rightarrow> bool" where
  "atomic_persist img p \<longleftrightarrow>
     (\<forall>s d. img (snd (p s d)) = (case fst (p s d) of Inl _ \<Rightarrow> img d | Inr _ \<Rightarrow> s))"

lemma atomic_persistD:
  assumes "atomic_persist img p"
  shows "p s d = (Inr (), d') \<Longrightarrow> img d' = s" "p s d = (Inl e, d') \<Longrightarrow> img d' = img d"
  using assms unfolding atomic_persist_def by (metis fst_conv snd_conv sum.case)+

locale settings_transaction =
  fixes run :: "('t, 'd) writer"
  assumes refused: "run p (c, d) = (Inl e, (c', d'))
      \<Longrightarrow> c' = c \<and> (d' = d \<or> (\<exists>s. p s d = (Inl e, d')))"
    and accepted: "run p (c, d) = (Inr r, (c', d'))
      \<Longrightarrow> (c' = c \<and> d' = d) \<or> (\<exists>s'. c' = c\<lparr>cfg_settings := s'\<rparr> \<and> p s' d = (Inr (), d'))"
begin

text \<open>With a save that either writes the whole snapshot or leaves the old one, memory and disk
  agree after the writer if they did before, whatever its outcome.\<close>

lemma keeps_sync:
  assumes atomic: "atomic_persist img p"
    and sync: "img d = cfg_settings c" and run: "run p (c, d) = (r, (c', d'))"
  shows "img d' = cfg_settings c'"
proof (cases r)
  case (Inl e)
  with refused run have "c' = c \<and> (d' = d \<or> (\<exists>s. p s d = (Inl e, d')))" by metis
  with atomic_persistD(2) [OF atomic] sync show ?thesis by metis
next
  case (Inr x)
  with accepted run have "(c' = c \<and> d' = d) \<or> (\<exists>s'. c' = c\<lparr>cfg_settings := s'\<rparr> \<and> p s' d = (Inr (), d'))"
    by metis
  with atomic_persistD(1) [OF atomic] sync show ?thesis by auto
qed

lemma keeps_cache:
  assumes "run p (c, d) = (r, (c', d'))"
  shows "cfg_cache c' = cfg_cache c \<and> cfg_notices c' = cfg_notices c"
proof (cases r)
  case (Inl e)
  with refused assms show ?thesis by metis
next
  case (Inr x)
  with accepted assms have "c' = c \<or> (\<exists>s'. c' = c\<lparr>cfg_settings := s'\<rparr>)" by metis
  then show ?thesis by auto
qed

end

lemma change_settings_if_transaction: "settings_transaction (change_settings_if_with change)"
proof
  fix p c d e c' d'
  assume "change_settings_if_with change p (c, d) = (Inl e, c', d')"
  then show "c' = c \<and> (d' = d \<or> (\<exists>s. p s d = (Inl e, d')))"
    by (cases "change (cfg_settings c)") (auto simp: change_settings_if_with_def split: if_splits)
next
  fix p c d r c' d'
  assume "change_settings_if_with change p (c, d) = (Inr r, c', d')"
  then show "c' = c \<and> d' = d \<or> (\<exists>s'. c' = c\<lparr>cfg_settings := s'\<rparr> \<and> p s' d = (Inr (), d'))"
    by (cases "change (cfg_settings c)") (auto simp: change_settings_if_with_def split: if_splits)
qed

lemma validate_prospective_same: "validate_prospective_settings s = Inr s' \<Longrightarrow> s' = s"
  by (simp add: validate_prospective_iff)

lemma commit_restream_settings_unfold:
  "commit_restream_settings_with rtsp srt p (c, d) =
     (let s' = (cfg_settings c)\<lparr>rtsp_server := rtsp, srt_server := srt\<rparr> in
      case validate_prospective_settings s' of
        Inl e \<Rightarrow> (Inl e, (c, d))
      | Inr _ \<Rightarrow> persist_then_publish s' s' p (c, d))"
  by (cases "validate_prospective_settings ((cfg_settings c)\<lparr>rtsp_server := rtsp, srt_server := srt\<rparr>)")
    (auto simp: commit_restream_settings_with_def persist_then_publish_def Let_def dest: validate_prospective_same)

lemma commit_restream_protocol_unfold:
  "commit_restream_protocol_with protocol p (c, d) =
     (let s' = (cfg_settings c)\<lparr>restream_protocol_sel := protocol\<rparr> in
      case validate_prospective_settings s' of
        Inl e \<Rightarrow> (Inl e, (c, d))
      | Inr _ \<Rightarrow> persist_then_publish s' s' p (c, d))"
  by (cases "validate_prospective_settings ((cfg_settings c)\<lparr>restream_protocol_sel := protocol\<rparr>)")
    (auto simp: commit_restream_protocol_with_def persist_then_publish_def Let_def dest: validate_prospective_same)

lemma change_settings_transaction: "settings_transaction (change_settings_with change)"
  by (simp add: change_settings_with_def change_settings_if_transaction)

interpretation reserve: settings_transaction "reserve_temporary_with row" for row
  by (simp add: reserve_temporary_with_def change_settings_transaction)

interpretation forget_temporary: settings_transaction "forget_temporary_with row" for row
  by (simp add: forget_temporary_with_def change_settings_transaction)

interpretation update_stream: settings_transaction "update_stream_with stream" for stream
  by (simp add: update_stream_with_def change_settings_transaction)

interpretation migrate: settings_transaction "migrate_bind_ids_with interfaces" for interfaces
  by (simp add: migrate_bind_ids_with_def change_settings_if_transaction)

interpretation commit_servers: settings_transaction "commit_restream_settings_with rtsp srt" for rtsp srt
  by unfold_locales (auto simp: commit_restream_settings_unfold Let_def split: sum.splits)

interpretation commit_protocol: settings_transaction "commit_restream_protocol_with protocol" for protocol
  by unfold_locales (auto simp: commit_restream_protocol_unfold Let_def split: sum.splits)

interpretation liveness: settings_transaction "update_adoption_liveness meta" for meta
  by (simp add: update_adoption_liveness_def change_settings_transaction)

interpretation set_binding: settings_transaction "set_binding_for_operation_with subnet row force" for subnet row force
  by (simp add: set_binding_for_operation_with_def change_settings_if_transaction)

interpretation forget_unowned: settings_transaction "forget_unowned_binding_with subnet row" for subnet row
  by (simp add: forget_unowned_binding_with_def change_settings_transaction)

interpretation forget_removal: settings_transaction "forget_completed_removal_with subnet row" for subnet row
  by (simp add: forget_completed_removal_with_def change_settings_transaction)

interpretation claim: settings_transaction "claim_binding_with address" for address
  by (simp add: claim_binding_with_def change_settings_transaction)

interpretation select_adapter: settings_transaction "set_selected_adapter_mac mac" for mac
  by (simp add: set_selected_adapter_mac_def change_settings_transaction)

interpretation set_mode: settings_transaction "set_network_mode mode" for mode
  by (simp add: set_network_mode_def change_settings_transaction)

interpretation set_primary: settings_transaction "set_primary_address_with mac cidr" for mac cidr
  by unfold_locales
    (auto simp: set_primary_address_with_def change_settings_with_def change_settings_if_with_def
      split: option.splits sum.splits)

interpretation bind_manual: settings_transaction "bind_manual_node_with ip mac fence" for ip mac fence
  by unfold_locales
    (auto simp: bind_manual_node_with_def bind_manual_identity_def Let_def split: option.splits if_splits)

interpretation remove_manual: settings_transaction "remove_manual_node ip expected" for ip expected
  by unfold_locales
    (auto simp: remove_manual_node_def Let_def split: if_splits)

end
