(* ===== verification/Config_Invariants.thy ===== *)
theory Config_Invariants
  imports Config_Store
begin

text \<open>
  What every writer of \<open>AppConfig\<close> keeps. \<open>settings_op\<close> names the writers, \<open>run_op\<close> runs
  one; \<open>store_inv\<close> collects the cross-field rules of the saved settings: the address
  ownership ledger (a committed binding is never also a temporary claim, a temporary claim
  is recorded once, a removed binding is no longer adopted), one pin per manual address, and
  zoom positions in range.
\<close>

datatype settings_op =
    OpReserve pending_address
  | OpForgetTemporary pending_address
  | OpUpdateStream stream_config
  | OpMigrate "bind_interface list"
  | OpCommitServers rtsp_server_config srt_server_config
  | OpCommitProtocol restream_protocol
  | OpLiveness "(string, adopted_meta) hashmap"
  | OpSetBinding string adopted_meta bool
  | OpForgetUnowned string adopted_meta
  | OpForgetRemoval string adopted_meta
  | OpClaim string
  | OpSelectAdapter string
  | OpSetMode network_mode
  | OpSetPrimary string string
  | OpBindManual string string sweep_fence
  | OpRemoveManual string "string option"
  | OpZoom string "32 word"
  | OpCredentials credentials
  | OpAudio bool
  | OpClearManual
  | OpAddManual manual_node
  | OpManualAlias string string

definition discard :: "('t, 'd) writer \<Rightarrow> (unit, 'd) writer" where
  "discard w p cd = map_prod (map_sum id (\<lambda>_. ())) id (w p cd)"

fun run_op :: "settings_op \<Rightarrow> (unit, 'd) writer" where
  "run_op (OpReserve row) = reserve_temporary_with row"
| "run_op (OpForgetTemporary row) = forget_temporary_with row"
| "run_op (OpUpdateStream st) = update_stream_with st"
| "run_op (OpMigrate is) = migrate_bind_ids_with is"
| "run_op (OpCommitServers r t) = discard (commit_restream_settings_with r t)"
| "run_op (OpCommitProtocol pr) = discard (commit_restream_protocol_with pr)"
| "run_op (OpLiveness meta) = update_adoption_liveness meta"
| "run_op (OpSetBinding subnet row force) = set_binding_for_operation_with subnet row force"
| "run_op (OpForgetUnowned subnet row) = forget_unowned_binding_with subnet row"
| "run_op (OpForgetRemoval subnet row) = forget_completed_removal_with subnet row"
| "run_op (OpClaim a) = claim_binding_with a"
| "run_op (OpSelectAdapter m) = set_selected_adapter_mac m"
| "run_op (OpSetMode m) = set_network_mode m"
| "run_op (OpSetPrimary m c) = set_primary_address_with m c"
| "run_op (OpBindManual ip m f) = discard (bind_manual_node_with ip m f)"
| "run_op (OpRemoveManual ip m) = discard (remove_manual_node ip m)"
| "run_op (OpZoom ip p) = update_zoom_position ip p"
| "run_op (OpCredentials cr) = update_credentials cr"
| "run_op (OpAudio b) = set_audio_muted b"
| "run_op OpClearManual = clear_manual_nodes"
| "run_op (OpAddManual n) = add_manual_node n"
| "run_op (OpManualAlias k a) = discard (update_manual_node_alias k a)"

fun transactional :: "settings_op \<Rightarrow> bool" where
  "transactional (OpZoom _ _) = False"
| "transactional (OpCredentials _) = False"
| "transactional (OpAudio _) = False"
| "transactional OpClearManual = False"
| "transactional (OpAddManual _) = False"
| "transactional (OpManualAlias _ _) = False"
| "transactional _ = True"

lemma discard_transaction:
  assumes "settings_transaction w"
  shows "settings_transaction (discard w)"
proof -
  from assms have r: "\<And>p c d e c' d'. w p (c, d) = (Inl e, (c', d')) \<Longrightarrow> c' = c \<and> (d' = d \<or> (\<exists>s. p s d = (Inl e, d')))"
    and a: "\<And>p c d r c' d'. w p (c, d) = (Inr r, (c', d'))
      \<Longrightarrow> (c' = c \<and> d' = d) \<or> (\<exists>s'. c' = c\<lparr>cfg_settings := s'\<rparr> \<and> p s' d = (Inr (), d'))"
    by (simp_all add: settings_transaction_def)
  show ?thesis
  proof
    fix p c d e c' d' assume "discard w p (c, d) = (Inl e, c', d')"
    then have "w p (c, d) = (Inl e, c', d')"
      by (cases "w p (c, d)"; cases "fst (w p (c, d))") (auto simp: discard_def)
    then show "c' = c \<and> (d' = d \<or> (\<exists>s. p s d = (Inl e, d')))" by (rule r)
  next
    fix p c d x c' d' assume "discard w p (c, d) = (Inr x, c', d')"
    then obtain y where "w p (c, d) = (Inr y, c', d')"
      by (cases "w p (c, d)"; cases "fst (w p (c, d))") (auto simp: discard_def)
    then show "(c' = c \<and> d' = d) \<or> (\<exists>s'. c' = c\<lparr>cfg_settings := s'\<rparr> \<and> p s' d = (Inr (), d'))" by (rule a)
  qed
qed

lemma run_op_transaction: "transactional op \<Longrightarrow> settings_transaction (run_op op)"
  by (cases op)
    (simp_all add: discard_transaction
      reserve.settings_transaction_axioms forget_temporary.settings_transaction_axioms
      update_stream.settings_transaction_axioms migrate.settings_transaction_axioms
      commit_servers.settings_transaction_axioms commit_protocol.settings_transaction_axioms
      liveness.settings_transaction_axioms set_binding.settings_transaction_axioms
      forget_unowned.settings_transaction_axioms forget_removal.settings_transaction_axioms
      claim.settings_transaction_axioms select_adapter.settings_transaction_axioms
      set_mode.settings_transaction_axioms set_primary.settings_transaction_axioms
      bind_manual.settings_transaction_axioms remove_manual.settings_transaction_axioms)

section \<open>Rules of the saved settings\<close>

definition maps_wf :: "app_settings \<Rightarrow> bool" where
  "maps_wf s \<longleftrightarrow> hm_wf (primary_addresses s) \<and> hm_wf (adopted_subnets s) \<and> hm_wf (adopted_meta_map s)
     \<and> hm_wf (zoom_positions s)"

definition pending_unique :: "app_settings \<Rightarrow> bool" where
  "pending_unique s \<longleftrightarrow> distinct (map (\<lambda>p. (pa_adapter_mac p, pa_address p)) (pending_addresses s))"

definition handed_over :: "app_settings \<Rightarrow> bool" where
  "handed_over s \<longleftrightarrow> (\<forall>subnet row. hm_get (adopted_meta_map s) subnet = Some row \<longrightarrow> committed_row row
     \<longrightarrow> (\<forall>p\<in>set (pending_addresses s). \<not> pending_matches row p))"

definition removed_retired :: "app_settings \<Rightarrow> bool" where
  "removed_retired s \<longleftrightarrow> (\<forall>subnet row. hm_get (adopted_meta_map s) subnet = Some row
     \<longrightarrow> am_desired row = Removed \<longrightarrow> \<not> hm_contains subnet (adopted_subnets s))"

definition manual_unique :: "app_settings \<Rightarrow> bool" where
  "manual_unique s \<longleftrightarrow> distinct (map mn_ip (manual_nodes s))"

definition zoom_in_range :: "app_settings \<Rightarrow> bool" where
  "zoom_in_range s \<longleftrightarrow> (\<forall>ip z. hm_get (zoom_positions s) ip = Some z \<longrightarrow> 0 \<le> sint z \<and> sint z \<le> 100)"

definition store_inv :: "app_settings \<Rightarrow> bool" where
  "store_inv s \<longleftrightarrow> maps_wf s \<and> pending_unique s \<and> handed_over s \<and> removed_retired s
     \<and> manual_unique s \<and> zoom_in_range s"

lemmas store_inv_defs = store_inv_def maps_wf_def pending_unique_def handed_over_def
  removed_retired_def manual_unique_def zoom_in_range_def

lemma store_inv_default: "store_inv (app_settings_default random8)"
  by (simp add: store_inv_defs app_settings_default_def)

text \<open>The part of a snapshot the rules read.\<close>

lemma store_inv_cong:
  assumes "store_inv s"
    and "primary_addresses s' = primary_addresses s" "adopted_subnets s' = adopted_subnets s"
    "adopted_meta_map s' = adopted_meta_map s" "zoom_positions s' = zoom_positions s"
    "pending_addresses s' = pending_addresses s" "manual_nodes s' = manual_nodes s"
  shows "store_inv s'"
  using assms by (simp add: store_inv_defs)

section \<open>Each writer keeps them\<close>

definition settings_after :: "'t result \<times> (app_config \<times> 'd) \<Rightarrow> app_settings" where
  "settings_after r = cfg_settings (fst (snd r))"

lemma settings_after_publish:
  "settings_after (persist_then_publish nxt r p (c, d)) \<in> {cfg_settings c, nxt}"
  by (auto simp: settings_after_def persist_then_publish_def split: prod.splits sum.splits)

lemma change_settings_if_keeps:
  assumes "P (cfg_settings c)" and "\<And>r b s'. change (cfg_settings c) = Inr ((r, b), s') \<Longrightarrow> P s'"
  shows "P (settings_after (change_settings_if_with change p (c, d)))"
proof (cases "change (cfg_settings c)")
  case (Inl e)
  with assms(1) show ?thesis by (simp add: change_settings_if_with_def settings_after_def)
next
  case (Inr x)
  obtain r b s' where x: "x = ((r, b), s')" by (cases x) auto
  with assms(2) Inr have "P s'" by simp
  with assms(1) settings_after_publish [of s' r p c d] show ?thesis
    by (auto simp: Inr x change_settings_if_with_def settings_after_def)
qed

lemma change_settings_keeps:
  assumes "P (cfg_settings c)" and "\<And>r s'. change (cfg_settings c) = Inr (r, s') \<Longrightarrow> P s'"
  shows "P (settings_after (change_settings_with change p (c, d)))"
  unfolding change_settings_with_def
  by (rule change_settings_if_keeps) (use assms in \<open>auto simp: res_bind_Inr_iff\<close>)

lemma settings_after_assign [simp]:
  "settings_after (assign_then_save f save (c, d)) = f (cfg_settings c)"
  by (simp add: assign_then_save_def save_settings_def settings_after_def split: prod.splits)

lemma settings_after_discard [simp]: "settings_after (discard w p cd) = settings_after (w p cd)"
  by (simp add: discard_def settings_after_def)

lemma hm_get_fold_remove:
  "hm_get (fold hm_remove ks m) k = (if k \<in> set ks then None else hm_get m k)"
  by (induction ks arbitrary: m) (auto simp: hm_simps)

lemma hm_wf_fold_remove [wf_intros]: "hm_wf m \<Longrightarrow> hm_wf (fold hm_remove ks m)"
  by (induction ks arbitrary: m) (auto simp: wf_intros)

text \<open>Whatever rows arrive, a liveness write only ever changes a row's last-seen stamp.\<close>

lemma liveness_fold_row:
  assumes "hm_get (fold (\<lambda>(subnet, incoming) m. hm_modify subnet (liveness_row incoming) m) meta m0) k = Some r'"
  shows "\<exists>r x. hm_get m0 k = Some r \<and> r' = r\<lparr>am_last_device_seen := x\<rparr>"
  using assms
proof (induction meta arbitrary: m0)
  case Nil
  then show ?case by (auto intro!: exI [of _ "am_last_device_seen r'"])
next
  case (Cons e meta)
  obtain sub inc where e: "e = (sub, inc)" by (cases e)
  from Cons.prems
  have "hm_get (fold (\<lambda>(subnet, incoming) m. hm_modify subnet (liveness_row incoming) m) meta
      (hm_modify sub (liveness_row inc) m0)) k = Some r'"
    by (simp add: e)
  from Cons.IH [OF this] obtain r1 x
    where "hm_get (hm_modify sub (liveness_row inc) m0) k = Some r1" "r' = r1\<lparr>am_last_device_seen := x\<rparr>"
    by blast
  then show ?case by (auto simp: hm_simps liveness_row_def split: if_splits)
qed

lemma hm_wf_liveness_fold:
  "hm_wf m0 \<Longrightarrow> hm_wf (fold (\<lambda>(subnet, incoming) m. hm_modify subnet (liveness_row incoming) m) meta m0)"
  by (induction meta arbitrary: m0) (auto simp: wf_intros)

lemma distinct_map_filterI: "distinct (map f xs) \<Longrightarrow> distinct (map f (filter p xs))"
  by (simp add: distinct_map inj_on_def)

lemma map_update_first: "(\<And>x. x \<in> set xs \<Longrightarrow> p x \<Longrightarrow> g (f x) = g x) \<Longrightarrow> map g (update_first p f xs) = map g xs"
  by (induction xs) auto

lemma find_None_set: "List.find p xs = None \<longleftrightarrow> (\<forall>x\<in>set xs. \<not> p x)"
  by (auto simp: find_None_iff)

lemma hm_get_values: "hm_get m k = Some v \<Longrightarrow> v \<in> set (hm_values m)"
  by (auto dest!: map_of_SomeD intro: rev_image_eqI)

lemma inv_reserve:
  assumes inv: "store_inv (cfg_settings c)"
  shows "store_inv (settings_after (reserve_temporary_with row p (c, d)))"
  unfolding reserve_temporary_with_def
proof (rule change_settings_keeps [where P = store_inv, OF inv])
  let ?s = "cfg_settings c"
  fix r s'
  assume "(if \<not> owner_selected (canonical_mac (pa_adapter_mac row)) ?s
          \<or> network_mode_sel ?s \<noteq> StaticAuto
          \<or> pa_prefix row \<noteq> 24
          \<or> isl (parse_camera_ip (pa_address row))
          \<or> (\<exists>m\<in>set (hm_values (adopted_meta_map ?s)). am_address m = Some (pa_address row))
          \<or> (\<exists>p\<in>set (pending_addresses ?s). pa_adapter_mac p = pa_adapter_mac row \<and> pa_address p = pa_address row)
       then Inl (Network ''Temporary address ownership unavailable or already reserved'')
       else Inr ((), ?s\<lparr>pending_addresses := pending_addresses ?s @ [row]\<rparr>)) = Inr (r, s')"
  then have s': "s' = ?s\<lparr>pending_addresses := pending_addresses ?s @ [row]\<rparr>"
    and free: "\<forall>m\<in>set (hm_values (adopted_meta_map ?s)). am_address m \<noteq> Some (pa_address row)"
    and new: "\<forall>p\<in>set (pending_addresses ?s). \<not> (pa_adapter_mac p = pa_adapter_mac row \<and> pa_address p = pa_address row)"
    by (auto split: if_splits)
  have "\<not> pending_matches m row" if "hm_get (adopted_meta_map ?s) k = Some m" for k m
    using free hm_get_values [OF that] by (auto simp: pending_matches_def)
  with inv new show "store_inv s'"
    by (auto simp: s' store_inv_defs)
qed

lemma inv_forget_temporary:
  "store_inv (cfg_settings c) \<Longrightarrow> store_inv (settings_after (forget_temporary_with row p (c, d)))"
  unfolding forget_temporary_with_def
  by (rule change_settings_keeps) (auto simp: store_inv_defs distinct_map_filterI)

lemma inv_liveness: "store_inv (cfg_settings c) \<Longrightarrow> store_inv (settings_after (update_adoption_liveness meta p (c, d)))"
  unfolding update_adoption_liveness_def
  by (rule change_settings_keeps)
    (auto simp: store_inv_defs hm_wf_liveness_fold committed_row_def pending_matches_def dest!: liveness_fold_row)

lemma remove_adoption_entry_laws:
  "fst (snd (remove_adoption_entry subnet (a, m))) = hm_remove subnet a"
  "k \<noteq> subnet \<Longrightarrow> hm_get (snd (snd (remove_adoption_entry subnet (a, m)))) k = hm_get m k"
  "hm_wf m \<Longrightarrow> hm_wf (snd (snd (remove_adoption_entry subnet (a, m))))"
  by (auto simp: remove_adoption_entry_def Let_def hm_simps wf_intros)

lemma binding_maps_laws:
  "k \<noteq> subnet \<Longrightarrow> hm_get (snd (binding_maps subnet row s)) k = hm_get (adopted_meta_map s) k"
  "maps_wf s \<Longrightarrow> hm_wf (fst (binding_maps subnet row s)) \<and> hm_wf (snd (binding_maps subnet row s))"
  "am_desired row = Removed \<Longrightarrow> \<not> hm_contains subnet (fst (binding_maps subnet row s))"
  "k \<noteq> subnet \<Longrightarrow> hm_contains k (fst (binding_maps subnet row s)) \<longleftrightarrow> hm_contains k (adopted_subnets s)"
  by (auto simp: binding_maps_def maps_wf_def remove_adoption_entry_laws hm_contains_def hm_simps wf_intros
      split: option.splits)

lemma inv_set_binding_change:
  assumes inv: "store_inv s" and ch: "set_binding_change subnet row force s = Inr ((r, b), s')"
  shows "store_inv s'"
proof -
  let ?pend = "if committed_row row then filter (\<lambda>p. \<not> pending_matches row p) (pending_addresses s)
                       else pending_addresses s"
  from ch consider "s' = s" | "s' = s\<lparr>adopted_subnets := fst (binding_maps subnet row s),
      adopted_meta_map := hm_insert subnet row (snd (binding_maps subnet row s)), pending_addresses := ?pend\<rparr>"
    by (auto simp: set_binding_change_def Let_def split: if_splits)
  then show ?thesis
  proof cases
    case 1
    with inv show ?thesis by simp
  next
    case 2
    have "set ?pend \<subseteq> set (pending_addresses s)" "pending_unique s \<Longrightarrow> pending_unique s'"
      by (auto simp: 2 pending_unique_def distinct_map_filterI)
    moreover have "handed_over s'"
      using inv by (auto simp: 2 store_inv_def handed_over_def hm_simps binding_maps_laws split: if_splits)
    moreover have "removed_retired s'"
      using inv by (auto simp: 2 store_inv_def removed_retired_def hm_simps binding_maps_laws split: if_splits)
    moreover have "maps_wf s'"
      using inv binding_maps_laws(2) [of s subnet row] by (simp add: 2 store_inv_def maps_wf_def wf_intros)
    ultimately show ?thesis
      using inv by (simp add: 2 store_inv_def manual_unique_def zoom_in_range_def)
  qed
qed

lemma inv_set_binding:
  "store_inv (cfg_settings c) \<Longrightarrow> store_inv (settings_after (set_binding_for_operation_with subnet row force p (c, d)))"
  unfolding set_binding_for_operation_with_def
  by (rule change_settings_if_keeps) (auto intro: inv_set_binding_change)

lemma inv_forget_unowned:
  "store_inv (cfg_settings c) \<Longrightarrow> store_inv (settings_after (forget_unowned_binding_with subnet row p (c, d)))"
  unfolding forget_unowned_binding_with_def
  by (rule change_settings_keeps)
    (auto simp: store_inv_defs hm_simps wf_intros hm_contains_def split: if_splits)

lemma inv_forget_removal:
  "store_inv (cfg_settings c) \<Longrightarrow> store_inv (settings_after (forget_completed_removal_with subnet row p (c, d)))"
  unfolding forget_completed_removal_with_def
  by (rule change_settings_keeps)
    (auto simp: store_inv_defs hm_simps wf_intros hm_contains_def split: if_splits)

lemma inv_claim: "store_inv (cfg_settings c) \<Longrightarrow> store_inv (settings_after (claim_binding_with address p (c, d)))"
  unfolding claim_binding_with_def
  by (rule change_settings_keeps)
    (auto simp: Let_def store_inv_defs hm_get_fold_remove wf_intros hm_contains_def distinct_map_filterI
      split: if_splits)

lemma inv_set_primary:
  "store_inv (cfg_settings c) \<Longrightarrow> store_inv (settings_after (set_primary_address_with mac cidr p (c, d)))"
proof (cases "canonical_mac mac")
  case None
  assume "store_inv (cfg_settings c)"
  with None show ?thesis by (simp add: set_primary_address_with_def settings_after_def)
next
  case (Some m)
  assume inv: "store_inv (cfg_settings c)"
  have "store_inv (settings_after (change_settings_with
      (\<lambda>s. Inr ((), s\<lparr>primary_addresses := hm_insert m cidr (primary_addresses s)\<rparr>)) p (c, d)))"
    by (rule change_settings_keeps) (use inv in \<open>auto simp: store_inv_defs wf_intros\<close>)
  with Some inv show ?thesis
    by (auto simp: set_primary_address_with_def settings_after_def split: sum.splits)
qed

lemma update_first_ips:
  "(\<And>n. mn_ip (f n) = mn_ip n) \<Longrightarrow> map mn_ip (update_first q f ns) = map mn_ip ns"
  by (rule map_update_first) simp

lemma update_first_found_ips:
  "List.find q ns = Some n \<Longrightarrow> mn_ip n' = mn_ip n \<Longrightarrow> map mn_ip (update_first q (\<lambda>_. n') ns) = map mn_ip ns"
  by (induction ns) (auto split: if_splits)

lemma store_inv_manual:
  "store_inv s \<Longrightarrow> distinct (map mn_ip ns) \<Longrightarrow> store_inv (s\<lparr>manual_nodes := ns\<rparr>)"
  by (simp add: store_inv_defs)

lemma store_inv_same_ips:
  "store_inv s \<Longrightarrow> map mn_ip ns = map mn_ip (manual_nodes s) \<Longrightarrow> store_inv (s\<lparr>manual_nodes := ns\<rparr>)"
  by (rule store_inv_manual) (simp_all add: store_inv_def manual_unique_def)

lemma inv_publish:
  "store_inv (cfg_settings c) \<Longrightarrow> store_inv nxt \<Longrightarrow> store_inv (settings_after (persist_then_publish nxt r p (c, d)))"
  using settings_after_publish [of nxt r p c d] by auto

lemma inv_bind_manual:
  assumes inv: "store_inv (cfg_settings c)"
  shows "store_inv (settings_after (bind_manual_node_with ip mac fence p (c, d)))"
proof -
  have "store_inv ((cfg_settings c)\<lparr>manual_nodes :=
      update_first (\<lambda>n. mn_ip n = ip) (\<lambda>_. snd (bind_manual_identity m node)) (manual_nodes (cfg_settings c))\<rparr>)"
    if "List.find (\<lambda>n. mn_ip n = ip) (manual_nodes (cfg_settings c)) = Some node" for m node
    using inv update_first_found_ips [OF that, of "snd (bind_manual_identity m node)"]
    by (intro store_inv_manual) (auto simp: bind_manual_identity_def store_inv_def manual_unique_def)
  note published = inv_publish [OF inv this]
  from inv have unchanged: "store_inv (settings_after (r, (c, d)))" for r :: "'t result"
    by (simp add: settings_after_def)
  show ?thesis
    by (auto simp: bind_manual_node_with_def Let_def case_prod_beta unchanged published
        split: option.splits)
qed

lemma inv_remove_manual:
  assumes inv: "store_inv (cfg_settings c)"
  shows "store_inv (settings_after (remove_manual_node ip expected p (c, d)))"
proof -
  have "store_inv ((cfg_settings c)\<lparr>manual_nodes := filter q (manual_nodes (cfg_settings c))\<rparr>)" for q
    using inv by (intro store_inv_manual) (auto simp: store_inv_def manual_unique_def distinct_map_filterI)
  with inv show ?thesis
    by (auto simp: remove_manual_node_def Let_def settings_after_def [of "(Inr False, c, d)"] intro: inv_publish)
qed

lemma sint_clamp_percent: "0 \<le> sint (clamp_percent z) \<and> sint (clamp_percent z) \<le> 100"
  by (auto simp: clamp_percent_def)

lemma inv_add_manual:
  assumes inv: "store_inv (cfg_settings c)"
  shows "store_inv (settings_after (add_manual_node node p (c, d)))"
proof (cases "List.find (\<lambda>n. mn_ip n = mn_ip node) (manual_nodes (cfg_settings c))")
  case None
  then have "mn_ip node \<notin> set (map mn_ip (manual_nodes (cfg_settings c)))"
    by (auto simp: find_None_set)
  with inv have "store_inv ((cfg_settings c)\<lparr>manual_nodes := manual_nodes (cfg_settings c) @ [node]\<rparr>)"
    by (intro store_inv_manual) (auto simp: store_inv_def manual_unique_def)
  with None show ?thesis by (simp add: add_manual_node_def)
next
  case (Some e)
  have "store_inv ((cfg_settings c)\<lparr>manual_nodes := update_first (\<lambda>n. mn_ip n = mn_ip node)
      (\<lambda>e. e\<lparr>mn_alias := mn_alias node, mn_expected_mac := f e\<rparr>) (manual_nodes (cfg_settings c))\<rparr>)" for f
    by (rule store_inv_same_ips [OF inv]) (simp add: update_first_ips)
  with Some inv show ?thesis
    by (simp add: add_manual_node_def) (simp add: settings_after_def)
qed

lemma inv_manual_alias:
  assumes inv: "store_inv (cfg_settings c)"
  shows "store_inv (settings_after (update_manual_node_alias key alias p (c, d)))"
proof -
  let ?w = "assign_then_save (\<lambda>s. s\<lparr>manual_nodes :=
      update_first (\<lambda>n. eq_ignore_ascii_case (manual_node_key n) key) (\<lambda>n. n\<lparr>mn_alias := alias\<rparr>)
        (manual_nodes s)\<rparr>) p (c, d)"
  have "store_inv (settings_after ?w)"
    by (simp, rule store_inv_same_ips [OF inv]) (simp add: update_first_ips)
  moreover have "settings_after (case ?w of (Inl e, cd') \<Rightarrow> (Inl e, cd') | (Inr _, cd') \<Rightarrow> (Inr True, cd')) = settings_after ?w"
    by (simp add: settings_after_def split: prod.splits sum.splits)
  ultimately show ?thesis
    using inv by (simp add: update_manual_node_alias_def split: option.splits) (simp add: settings_after_def)
qed

lemma inv_commit:
  assumes inv: "store_inv (cfg_settings c)"
  shows "store_inv (settings_after (commit_restream_settings_with rtsp srt p (c, d)))"
    and "store_inv (settings_after (commit_restream_protocol_with protocol p (c, d)))"
  using inv
  by (auto simp: commit_restream_settings_unfold commit_restream_protocol_unfold Let_def
      settings_after_def [of "(Inl _, _)"] intro!: inv_publish intro: store_inv_cong split: sum.splits)

lemma inv_plain_change:
  assumes inv: "store_inv (cfg_settings c)"
  shows "store_inv (settings_after (update_stream_with st p (c, d)))"
    and "store_inv (settings_after (migrate_bind_ids_with is p (c, d)))"
    and "store_inv (settings_after (set_selected_adapter_mac mac p (c, d)))"
    and "store_inv (settings_after (set_network_mode mode p (c, d)))"
  unfolding update_stream_with_def migrate_bind_ids_with_def set_selected_adapter_mac_def set_network_mode_def
  by (rule change_settings_keeps change_settings_if_keeps;
      use inv in \<open>auto simp: res_bind_Inr_iff Let_def split: if_splits intro: store_inv_cong [OF inv]\<close>)+

lemma inv_assigned:
  assumes inv: "store_inv (cfg_settings c)"
  shows "store_inv (settings_after (update_zoom_position ip z p (c, d)))"
    and "store_inv (settings_after (update_credentials cr p (c, d)))"
    and "store_inv (settings_after (set_audio_muted b p (c, d)))"
    and "store_inv (settings_after (clear_manual_nodes p (c, d)))"
  using inv sint_clamp_percent [of z]
  by (auto simp: update_zoom_position_def update_credentials_def set_audio_muted_def clear_manual_nodes_def
      store_inv_defs hm_simps wf_intros)

lemma run_op_inv: "store_inv (cfg_settings c) \<Longrightarrow> store_inv (settings_after (run_op op p (c, d)))"
  by (cases op)
    (simp_all add: inv_reserve inv_forget_temporary inv_liveness inv_set_binding inv_forget_unowned
      inv_forget_removal inv_claim inv_set_primary inv_bind_manual inv_remove_manual inv_add_manual
      inv_manual_alias inv_commit inv_plain_change inv_assigned)

section \<open>Runs of writers\<close>

definition op_step :: "'d persist \<Rightarrow> settings_op \<Rightarrow> app_config \<times> 'd \<Rightarrow> app_config \<times> 'd" where
  "op_step p op cd = snd (run_op op p cd)"

interpretation store: guarded_machine
  "\<lambda>(c, d). \<exists>random8. cfg_settings c = app_settings_default random8"
  "op_step p" "\<lambda>(c, d). store_inv (cfg_settings c)" for p :: "'d persist"
proof
  fix e and s :: "app_config \<times> 'd"
  assume "case s of (c, d) \<Rightarrow> store_inv (cfg_settings c)"
  then show "case op_step p e s of (c, d) \<Rightarrow> store_inv (cfg_settings c)"
    using run_op_inv [of "fst s" e p "snd s"]
    by (cases s) (simp add: op_step_def settings_after_def case_prod_beta)
qed (auto simp: store_inv_default)

lemma transactional_run_sync:
  assumes atomic: "atomic_persist img p"
  shows "list_all transactional ops \<Longrightarrow> img d = cfg_settings c
    \<Longrightarrow> fold (op_step p) ops (c, d) = (c', d') \<Longrightarrow> img d' = cfg_settings c'"
proof (induction ops arbitrary: c d)
  case (Cons op ops)
  obtain r c1 d1 where run: "run_op op p (c, d) = (r, (c1, d1))" by (metis prod.collapse)
  have "settings_transaction (run_op op)" using Cons.prems by (simp add: run_op_transaction)
  from settings_transaction.keeps_sync [OF this atomic Cons.prems(2) run] Cons run
  show ?case by (simp add: op_step_def)
qed simp

text \<open>The removal intent of one subnet, and the operations that may retire it.\<close>

definition removal_intent :: "string \<Rightarrow> app_settings \<Rightarrow> bool" where
  "removal_intent subnet s \<longleftrightarrow>
     (\<exists>row. hm_get (adopted_meta_map s) subnet = Some row \<and> am_desired row = Removed)"

fun retires :: "string \<Rightarrow> settings_op \<Rightarrow> bool" where
  "retires subnet (OpForgetUnowned s _) = (s = subnet)"
| "retires subnet (OpForgetRemoval s _) = (s = subnet)"
| "retires subnet (OpClaim _) = True"
| "retires subnet _ = False"

lemma removal_intent_cong:
  "adopted_meta_map s' = adopted_meta_map s \<Longrightarrow> removal_intent k s' = removal_intent k s"
  by (simp add: removal_intent_def)

lemma liveness_fold_keeps_removed:
  "hm_get m0 k = Some r \<Longrightarrow> am_desired r = Removed \<Longrightarrow>
   hm_get (fold (\<lambda>(subnet, incoming) m. hm_modify subnet (liveness_row incoming) m) meta m0) k = Some r"
proof (induction meta arbitrary: m0)
  case (Cons e meta)
  obtain sub inc where e: "e = (sub, inc)" by (cases e)
  from Cons.prems have "hm_get (hm_modify sub (liveness_row inc) m0) k = Some r"
    by (cases "k = sub") (auto simp: hm_simps liveness_row_def)
  from Cons.IH [OF this Cons.prems(2)] show ?case by (simp add: e)
qed simp

lemma intent_set_binding_change:
  "removal_intent k s \<Longrightarrow> set_binding_change subnet row force s = Inr ((r, b), s') \<Longrightarrow> removal_intent k s'"
  by (cases "k = subnet"; cases "am_desired row")
    (auto simp: removal_intent_def set_binding_change_def Let_def hm_simps binding_maps_laws split: if_splits)

lemma intent_publish:
  "removal_intent k (cfg_settings c) \<Longrightarrow> adopted_meta_map nxt = adopted_meta_map (cfg_settings c)
    \<Longrightarrow> removal_intent k (settings_after (persist_then_publish nxt r p (c, d)))"
  using settings_after_publish [of nxt r p c d] by (auto simp: removal_intent_def)

lemma intent_changes:
  assumes inv: "removal_intent k (cfg_settings c)"
  shows "removal_intent k (settings_after (reserve_temporary_with pend p (c, d)))"
    and "removal_intent k (settings_after (forget_temporary_with pend p (c, d)))"
    and "removal_intent k (settings_after (update_stream_with st p (c, d)))"
    and "removal_intent k (settings_after (migrate_bind_ids_with is p (c, d)))"
    and "removal_intent k (settings_after (set_selected_adapter_mac mac p (c, d)))"
    and "removal_intent k (settings_after (set_network_mode mode p (c, d)))"
    and "removal_intent k (settings_after (update_adoption_liveness meta p (c, d)))"
  unfolding reserve_temporary_with_def forget_temporary_with_def update_stream_with_def
    migrate_bind_ids_with_def set_selected_adapter_mac_def set_network_mode_def
    update_adoption_liveness_def
  by (rule change_settings_keeps [where P = "removal_intent k"] change_settings_if_keeps [where P = "removal_intent k"];
      use inv in \<open>auto simp: res_bind_Inr_iff Let_def removal_intent_def hm_simps
        dest: liveness_fold_keeps_removed
        split: if_splits\<close>)+

lemma intent_set_binding:
  "removal_intent k (cfg_settings c)
    \<Longrightarrow> removal_intent k (settings_after (set_binding_for_operation_with subnet row force p (c, d)))"
  unfolding set_binding_for_operation_with_def
  by (rule change_settings_if_keeps) (auto intro: intent_set_binding_change)

lemma intent_forget:
  assumes inv: "removal_intent k (cfg_settings c)" and "subnet \<noteq> k"
  shows "removal_intent k (settings_after (forget_unowned_binding_with subnet row p (c, d)))"
    and "removal_intent k (settings_after (forget_completed_removal_with subnet row p (c, d)))"
  unfolding forget_unowned_binding_with_def forget_completed_removal_with_def
  by (rule change_settings_keeps [where P = "removal_intent k"];
      use assms in \<open>auto simp: removal_intent_def hm_simps split: if_splits\<close>)+

lemma intent_set_primary:
  assumes inv: "removal_intent k (cfg_settings c)"
  shows "removal_intent k (settings_after (set_primary_address_with mac cidr p (c, d)))"
proof -
  have "removal_intent k (settings_after (change_settings_with
      (\<lambda>s. Inr ((), s\<lparr>primary_addresses := hm_insert m cidr (primary_addresses s)\<rparr>)) p (c, d)))" for m
    by (rule change_settings_keeps [where P = "removal_intent k"], rule inv)
      (use inv in \<open>auto simp: removal_intent_def\<close>)
  with inv show ?thesis
    by (auto simp: set_primary_address_with_def settings_after_def split: option.splits sum.splits)
qed

lemma intent_others:
  assumes inv: "removal_intent k (cfg_settings c)"
  shows "removal_intent k (settings_after (commit_restream_settings_with rtsp srt p (c, d)))"
    and "removal_intent k (settings_after (commit_restream_protocol_with protocol p (c, d)))"
    and "removal_intent k (settings_after (bind_manual_node_with ip mac fence p (c, d)))"
    and "removal_intent k (settings_after (remove_manual_node ip expected p (c, d)))"
proof -
  have keep: "removal_intent k (settings_after (x, (c, d)))" for x :: "'x result"
    using inv by (simp add: settings_after_def)
  show "removal_intent k (settings_after (commit_restream_settings_with rtsp srt p (c, d)))"
    "removal_intent k (settings_after (commit_restream_protocol_with protocol p (c, d)))"
    using inv by (auto simp: commit_restream_settings_unfold commit_restream_protocol_unfold Let_def
        settings_after_def [of "(Inl _, _)"] intro!: intent_publish split: sum.splits)
  show "removal_intent k (settings_after (bind_manual_node_with ip mac fence p (c, d)))"
    using inv by (auto simp: bind_manual_node_with_def Let_def case_prod_beta settings_after_def [of "(_, c, d)"]
        intro!: intent_publish split: option.splits)
  show "removal_intent k (settings_after (remove_manual_node ip expected p (c, d)))"
    using inv by (auto simp: remove_manual_node_def Let_def settings_after_def [of "(_, c, d)"]
        intro!: intent_publish)
qed

lemma assigned_meta:
  "adopted_meta_map (settings_after (update_zoom_position ip z p (c, d))) = adopted_meta_map (cfg_settings c)"
  "adopted_meta_map (settings_after (update_credentials cr p (c, d))) = adopted_meta_map (cfg_settings c)"
  "adopted_meta_map (settings_after (set_audio_muted b p (c, d))) = adopted_meta_map (cfg_settings c)"
  "adopted_meta_map (settings_after (clear_manual_nodes p (c, d))) = adopted_meta_map (cfg_settings c)"
  "adopted_meta_map (settings_after (add_manual_node node p (c, d))) = adopted_meta_map (cfg_settings c)"
  by (simp_all add: update_zoom_position_def update_credentials_def set_audio_muted_def clear_manual_nodes_def
      add_manual_node_def split: option.splits)
    (simp add: settings_after_def)

lemma assigned_meta_alias:
  "adopted_meta_map (settings_after (update_manual_node_alias key alias p (c, d))) = adopted_meta_map (cfg_settings c)"
proof -
  let ?w = "assign_then_save (\<lambda>s. s\<lparr>manual_nodes :=
      update_first (\<lambda>n. eq_ignore_ascii_case (manual_node_key n) key) (\<lambda>n. n\<lparr>mn_alias := alias\<rparr>)
        (manual_nodes s)\<rparr>) p (c, d)"
  have "settings_after (case ?w of (Inl e, cd') \<Rightarrow> (Inl e, cd') | (Inr _, cd') \<Rightarrow> (Inr True, cd')) = settings_after ?w"
    by (simp add: settings_after_def split: prod.splits sum.splits)
  then show ?thesis
    by (simp add: update_manual_node_alias_def split: option.splits) (simp add: settings_after_def)
qed

lemma run_op_intent:
  assumes "removal_intent k (cfg_settings c)" "\<not> retires k op"
  shows "removal_intent k (settings_after (run_op op p (c, d)))"
  using assms
  by (cases op)
    (simp_all add: intent_changes intent_set_binding intent_forget intent_set_primary intent_others
      removal_intent_def [of _ "settings_after (update_zoom_position _ _ _ _)"]
      removal_intent_def [of _ "settings_after (update_credentials _ _ _)"]
      removal_intent_def [of _ "settings_after (set_audio_muted _ _ _)"]
      removal_intent_def [of _ "settings_after (clear_manual_nodes _ _)"]
      removal_intent_def [of _ "settings_after (add_manual_node _ _ _)"]
      removal_intent_def [of _ "settings_after (update_manual_node_alias _ _ _ _)"]
      assigned_meta assigned_meta_alias removal_intent_def [of _ "cfg_settings c"])

section \<open>Validity of what is saved\<close>

lemma settings_valid_cong:
  assumes "settings_valid s"
    and "sc_protocol (stream_cfg s') = sc_protocol (stream_cfg s)"
    "sc_udp_port (stream_cfg s') = sc_udp_port (stream_cfg s)"
    "rtsp_server s' = rtsp_server s" "srt_server s' = srt_server s"
  shows "settings_valid s'"
  using assms by (simp add: settings_valid_def Let_def)

lemma valid_publish:
  "settings_valid (cfg_settings c) \<Longrightarrow> settings_valid nxt
    \<Longrightarrow> settings_valid (settings_after (persist_then_publish nxt r p (c, d)))"
  using settings_after_publish [of nxt r p c d] by auto

text \<open>The operating system reports interface identifiers in the GUID shape the validator
  asks for; \<open>guid_interfaces\<close> is that documented fact about \<open>MIB_IF_ROW2\<close>.\<close>

definition guid_interfaces :: "bind_interface list \<Rightarrow> bool" where
  "guid_interfaces is \<longleftrightarrow> (\<forall>i\<in>set is. bind_identity_ok (bi_alias i) (Some (bi_id i)) \<or> bi_alias i = [])"

fun op_interfaces_ok :: "settings_op \<Rightarrow> bool" where
  "op_interfaces_ok (OpMigrate is) = guid_interfaces is"
| "op_interfaces_ok _ = True"

lemma filter_single_in: "filter q xs = [x] \<Longrightarrow> x \<in> set xs \<and> q x"
proof -
  assume "filter q xs = [x]"
  then have "x \<in> set (filter q xs)" by simp
  then show ?thesis by simp
qed

lemma migrated_bind_id_ok:
  assumes "guid_interfaces is" "bind_identity_ok alias ident"
  shows "bind_identity_ok alias (migrated_bind_id is alias ident)"
proof (cases "\<exists>i. filter (\<lambda>i. bi_alias i = alias) is = [i] \<and> alias \<noteq> [] \<and> ident = None")
  case True
  then obtain i where i: "filter (\<lambda>i. bi_alias i = alias) is = [i]" "alias \<noteq> []" "ident = None" by blast
  from filter_single_in [OF i(1)] assms(1) i show ?thesis
    by (auto simp: migrated_bind_id_def guid_interfaces_def)
next
  case False
  with assms(2) show ?thesis
    by (auto simp: migrated_bind_id_def split: list.splits)
qed

lemma valid_migrate:
  assumes "guid_interfaces is" and v: "settings_valid (cfg_settings c)"
  shows "settings_valid (settings_after (migrate_bind_ids_with is p (c, d)))"
  unfolding migrate_bind_ids_with_def
  by (rule change_settings_if_keeps [where P = settings_valid], rule v)
    (use assms in \<open>auto simp: settings_valid_def Let_def migrated_bind_id_ok split: if_splits\<close>)

lemma set_binding_change_frame:
  "set_binding_change subnet row force s = Inr ((r, b), s') \<Longrightarrow>
     stream_cfg s' = stream_cfg s \<and> rtsp_server s' = rtsp_server s \<and> srt_server s' = srt_server s"
  by (auto simp: set_binding_change_def Let_def split: if_splits)

lemma valid_changes:
  assumes v: "settings_valid (cfg_settings c)"
  shows "settings_valid (settings_after (reserve_temporary_with pend p (c, d)))"
    and "settings_valid (settings_after (forget_temporary_with pend p (c, d)))"
    and "settings_valid (settings_after (update_stream_with st p (c, d)))"
    and "settings_valid (settings_after (set_selected_adapter_mac mac p (c, d)))"
    and "settings_valid (settings_after (set_network_mode mode p (c, d)))"
    and "settings_valid (settings_after (update_adoption_liveness meta p (c, d)))"
    and "settings_valid (settings_after (set_binding_for_operation_with subnet row force p (c, d)))"
    and "settings_valid (settings_after (forget_unowned_binding_with subnet row p (c, d)))"
    and "settings_valid (settings_after (forget_completed_removal_with subnet row p (c, d)))"
    and "settings_valid (settings_after (claim_binding_with address p (c, d)))"
  unfolding reserve_temporary_with_def forget_temporary_with_def update_stream_with_def
    set_selected_adapter_mac_def set_network_mode_def update_adoption_liveness_def
    set_binding_for_operation_with_def forget_unowned_binding_with_def
    forget_completed_removal_with_def claim_binding_with_def
  by (rule change_settings_keeps [where P = settings_valid] change_settings_if_keeps [where P = settings_valid];
      use v in \<open>auto simp: res_bind_Inr_iff Let_def validate_prospective_iff
        dest!: set_binding_change_frame split: if_splits intro: settings_valid_cong [OF v]\<close>)+

lemma valid_set_primary:
  assumes v: "settings_valid (cfg_settings c)"
  shows "settings_valid (settings_after (set_primary_address_with mac cidr p (c, d)))"
proof -
  have "settings_valid (settings_after (change_settings_with
      (\<lambda>s. Inr ((), s\<lparr>primary_addresses := hm_insert m cidr (primary_addresses s)\<rparr>)) p (c, d)))" for m
    by (rule change_settings_keeps [where P = settings_valid], rule v)
      (use v in \<open>auto intro: settings_valid_cong [OF v]\<close>)
  with v show ?thesis
    by (auto simp: set_primary_address_with_def settings_after_def split: option.splits sum.splits)
qed

lemma validate_Inr_valid: "validate_prospective_settings s = Inr x \<Longrightarrow> settings_valid s"
  by (simp add: validate_prospective_iff)

lemma valid_others:
  assumes v: "settings_valid (cfg_settings c)"
  shows "settings_valid (settings_after (commit_restream_settings_with rtsp srt p (c, d)))"
    and "settings_valid (settings_after (commit_restream_protocol_with protocol p (c, d)))"
    and "settings_valid (settings_after (bind_manual_node_with ip mac fence p (c, d)))"
    and "settings_valid (settings_after (remove_manual_node ip expected p (c, d)))"
  using v
  by (auto simp: commit_restream_settings_unfold commit_restream_protocol_unfold bind_manual_node_with_def
      remove_manual_node_def Let_def case_prod_beta settings_after_def [of "(_, c, d)"]
      intro!: valid_publish intro: settings_valid_cong [OF v] validate_Inr_valid split: sum.splits option.splits)

lemma valid_assigned:
  assumes v: "settings_valid (cfg_settings c)"
  shows "settings_valid (settings_after (update_zoom_position ip z p (c, d)))"
    and "settings_valid (settings_after (update_credentials cr p (c, d)))"
    and "settings_valid (settings_after (set_audio_muted b p (c, d)))"
    and "settings_valid (settings_after (clear_manual_nodes p (c, d)))"
    and "settings_valid (settings_after (add_manual_node node p (c, d)))"
    and "settings_valid (settings_after (update_manual_node_alias key alias p (c, d)))"
proof -
  have keep: "settings_valid (settings_after (x, (c, d)))" for x :: "'x result"
    using v by (simp add: settings_after_def)
  show "settings_valid (settings_after (update_zoom_position ip z p (c, d)))"
    "settings_valid (settings_after (update_credentials cr p (c, d)))"
    "settings_valid (settings_after (set_audio_muted b p (c, d)))"
    "settings_valid (settings_after (clear_manual_nodes p (c, d)))"
    "settings_valid (settings_after (add_manual_node node p (c, d)))"
    by (auto simp: update_zoom_position_def update_credentials_def set_audio_muted_def clear_manual_nodes_def
        add_manual_node_def settings_after_def [of "(Inl _, c, d)"] v
        intro: settings_valid_cong [OF v] split: option.splits)
  have after: "settings_after (case w of (Inl e, cd') \<Rightarrow> (Inl e, cd') | (Inr _, cd') \<Rightarrow> (Inr True, cd')) = settings_after w"
    for w :: "unit result \<times> app_config \<times> 'd"
    by (simp add: settings_after_def split: prod.splits sum.splits)
  show "settings_valid (settings_after (update_manual_node_alias key alias p (c, d)))"
    by (auto simp: update_manual_node_alias_def after settings_after_def [of "(Inr False, c, d)"] v
        intro: settings_valid_cong [OF v] split: option.splits)
qed

lemma run_op_valid:
  "settings_valid (cfg_settings c) \<Longrightarrow> op_interfaces_ok op \<Longrightarrow> settings_valid (settings_after (run_op op p (c, d)))"
  by (cases op)
    (simp_all add: valid_changes valid_migrate valid_set_primary valid_others valid_assigned)

section \<open>The device cache\<close>

datatype cache_op =
    CacheAlias string string
  | CacheUpsert cached_device "sweep_fence option"
  | CacheRemove string

fun cache_step :: "'d persist_cache \<Rightarrow> cache_op \<Rightarrow> app_config \<times> 'd \<Rightarrow> app_config \<times> 'd" where
  "cache_step p (CacheAlias mac alias) cd = snd (update_cached_device_alias mac alias p cd)"
| "cache_step p (CacheUpsert dev fence) cd = snd (upsert_cached_device_fenced dev fence p cd)"
| "cache_step p (CacheRemove mac) cd = snd (remove_cached_device mac p cd)"

definition cache_unique :: "app_config \<times> 'd \<Rightarrow> bool" where
  "cache_unique cd \<longleftrightarrow> distinct (map cd_mac (cfg_cache (fst cd)))"

lemma cache_after_save [simp]: "fst (snd (save_cache p (c, d))) = c"
  by (simp add: save_cache_def split: prod.splits)

lemma cfg_cache_step:
  "cfg_cache (fst (snd (update_cached_device_alias mac alias p (c, d)))) = snd (update_cached_alias_in_place mac alias (cfg_cache c))"
  "cfg_cache (fst (snd (upsert_cached_device_fenced dev fence p (c, d)))) = snd (upsert_cache_record dev fence (cfg_cache c))"
  "cfg_cache (fst (snd (remove_cached_device mac p (c, d)))) = filter (\<lambda>r. cd_mac r \<noteq> mac) (cfg_cache c)"
  by (simp_all add: update_cached_device_alias_def upsert_cached_device_fenced_def remove_cached_device_def
      save_cache_def Let_def split: prod.splits sum.splits)

lemma map_update_first_same:
  "(\<And>x. p x \<Longrightarrow> g (f x) = g x) \<Longrightarrow> map g (update_first p f xs) = map g xs"
  by (rule map_update_first) simp

interpretation cache: guarded_machine "\<lambda>cd. cfg_cache (fst cd) = []" "cache_step p" cache_unique for p :: "'d persist_cache"
proof
  fix e and s :: "app_config \<times> 'd"
  assume u: "cache_unique s"
  obtain c d where s: "s = (c, d)" by (cases s)
  show "cache_unique (cache_step p e s)"
  proof (cases e)
    case (CacheAlias mac nm)
    then show ?thesis
      using u by (simp add: cache_unique_def s cfg_cache_step update_cached_alias_in_place_def map_update_first_same
          split: option.splits)
  next
    case (CacheUpsert dev fence)
    then show ?thesis
      using u by (auto simp: cache_unique_def s cfg_cache_step upsert_cache_record_def map_update_first_same
          find_None_set)
  next
    case (CacheRemove mac)
    then show ?thesis
      using u by (simp add: cache_unique_def s cfg_cache_step distinct_map_filterI)
  qed
qed (simp add: cache_unique_def)

section \<open>Properties\<close>

text \<open>whatever sequence of transactional writers runs, and whichever of their saves
  fail, the settings in memory are the ones on disk afterwards, provided a save either writes
  the whole snapshot or leaves the file as it was.\<close>

theorem memory_matches_disk:
  assumes "atomic_persist img p" "list_all transactional ops" "img d = cfg_settings c"
  shows "img (snd (fold (op_step p) ops (c, d))) = cfg_settings (fst (fold (op_step p) ops (c, d)))"
  using transactional_run_sync [OF assms] by (metis prod.collapse)

theorem memory_matches_disk_witness:
  "let p = (\<lambda>s (d, n). if n = (0::nat) then (Inl (Io ''disk full''), (d, n)) else (Inr (), (s, n - 1)));
       c = \<lparr>cfg_settings = app_settings_default [], cfg_cache = [], cfg_notices = []\<rparr>;
       after = fold (op_step p) [OpSetMode Dhcp, OpSelectAdapter ''m'', OpSetMode StaticManual]
                 (c, (app_settings_default [], 2))
   in fst (snd after) = cfg_settings (fst after)"
proof -
  let ?p = "\<lambda>s (d, n). if n = (0::nat) then (Inl (Io ''disk full''), (d, n)) else (Inr (), (s, n - 1))"
  have "atomic_persist fst ?p" by (auto simp: atomic_persist_def)
  from memory_matches_disk [OF this, of "[OpSetMode Dhcp, OpSelectAdapter ''m'', OpSetMode StaticManual]"
      "(app_settings_default [], 2)" "\<lparr>cfg_settings = app_settings_default [], cfg_cache = [], cfg_notices = []\<rparr>"]
  show ?thesis by (simp add: Let_def)
qed

text \<open>C10: every sequence of settings writers, with any outcome of their saves, keeps the rules of
  the saved settings: hash maps with unique keys, one temporary claim per adapter and address,
  no committed binding that is still a temporary claim, no removed binding that is still
  adopted, one pin per manual address, zoom positions between 0 and 100.\<close>

theorem writers_keep_store_inv:
  assumes "store_inv (cfg_settings c)"
  shows "store_inv (cfg_settings (fst (fold (op_step p) ops (c, d))))"
  using store.run_inv [of "(c, d)" p ops] assms by (simp add: case_prod_beta)

theorem writers_keep_store_inv_witness:
  "store_inv (cfg_settings (fst (fold (op_step (\<lambda>s d. (Inr (), d)))
     [OpZoom ''10.0.0.2'' 200, OpAddManual \<lparr>mn_expected_mac = None, mn_ip = ''10.0.0.2'', mn_alias = ''cam''\<rparr>]
     (\<lparr>cfg_settings = app_settings_default [], cfg_cache = [], cfg_notices = []\<rparr>, ()))))"
  by (rule writers_keep_store_inv) (simp add: store_inv_default)



text \<open>C9: once the user has removed a binding, the removal intent stays in the saved settings
  through every sequence of writers that does not explicitly retire it; in particular late
  status, restore and liveness writes cannot bring the binding back.\<close>

theorem removal_intent_persists:
  assumes "removal_intent subnet (cfg_settings c)" "list_all (\<lambda>op. \<not> retires subnet op) ops"
  shows "removal_intent subnet (cfg_settings (fst (fold (op_step p) ops (c, d))))"
  using assms
proof (induction ops arbitrary: c d)
  case (Cons op ops)
  from run_op_intent [of subnet c op p d] Cons.prems
  have "removal_intent subnet (cfg_settings (fst (op_step p op (c, d))))"
    by (simp add: op_step_def settings_after_def)
  from Cons.IH [OF this, of "snd (op_step p op (c, d))"] Cons.prems show ?case by simp
qed simp

theorem removal_intent_persists_witness:
  "removal_intent ''10.0.0.0/24'' (cfg_settings (fst (fold (op_step (\<lambda>s d. (Inr (), d)))
     [OpSetBinding ''10.0.0.0/24'' adopted_meta_default False, OpLiveness [(''10.0.0.0/24'', adopted_meta_default)]]
     (\<lparr>cfg_settings = (app_settings_default [])\<lparr>adopted_meta_map :=
          [(''10.0.0.0/24'', adopted_meta_default\<lparr>am_desired := Removed\<rparr>)]\<rparr>,
        cfg_cache = [], cfg_notices = []\<rparr>, ()))))"
  by (rule removal_intent_persists) (simp_all add: removal_intent_def)

text \<open>a binding whose address is committed is saved together with the end of its temporary
  claim: when the write succeeds, the row is stored, no temporary claim for it is left, its
  subnet is adopted, and the persisted snapshot is the published one.\<close>

theorem binding_handover_atomic:
  assumes "set_binding_with subnet row p (c, d) = (Inr (), (c', d'))"
    and "committed_row row" "am_address row = Some a"
    and "store_inv (cfg_settings c)" "hm_contains subnet (adopted_subnets (cfg_settings c))
      \<or> hm_get (adopted_meta_map (cfg_settings c)) subnet \<noteq> Some row"
  shows "hm_get (adopted_meta_map (cfg_settings c')) subnet = Some row
    \<and> (\<forall>q\<in>set (pending_addresses (cfg_settings c')). \<not> pending_matches row q)
    \<and> hm_contains subnet (adopted_subnets (cfg_settings c'))
    \<and> (c' = c \<and> d' = d \<or> p (cfg_settings c') d = (Inr (), d'))"
proof (cases "set_binding_change subnet row False (cfg_settings c)")
  case (Inl e)
  with assms(1) show ?thesis
    by (simp add: set_binding_with_def set_binding_for_operation_with_def change_settings_if_with_def)
next
  case (Inr x)
  obtain b s' where x: "x = (((), b), s')" by (cases x) auto
  note change = Inr [unfolded x]
  have stored: "hm_get (adopted_meta_map s') subnet = Some row"
    "\<forall>q\<in>set (pending_addresses s'). \<not> pending_matches row q" "\<not> b \<Longrightarrow> s' = cfg_settings c"
    "hm_contains subnet (adopted_subnets s')"
    using change assms(2-5)
    by (auto simp: set_binding_change_def Let_def committed_row_def hm_simps list_ex_iff binding_maps_def
        hm_contains_def split: if_splits)
  from assms(1) change stored show ?thesis
    by (cases b) (auto simp: set_binding_with_def set_binding_for_operation_with_def change_settings_if_with_def)
qed

theorem binding_handover_atomic_witness:
  "let row = adopted_meta_default\<lparr>am_adapter_mac := Some ''m'', am_address := Some ''10.0.0.9'',
         am_prefix := Some 24, am_applied := True\<rparr>;
       q = \<lparr>pa_adapter_mac = ''m'', pa_address = ''10.0.0.9'', pa_prefix = 24\<rparr>;
       c = \<lparr>cfg_settings = (app_settings_default [])\<lparr>pending_addresses := [q]\<rparr>, cfg_cache = [], cfg_notices = []\<rparr>;
       after = set_binding_with ''10.0.0.0/24'' row (\<lambda>s d. (Inr (), d)) (c, ())
   in fst after = Inr () \<and> (\<forall>p\<in>set (pending_addresses (cfg_settings (fst (snd after)))). \<not> pending_matches row p)"
proof -
  let ?row = "adopted_meta_default\<lparr>am_adapter_mac := Some ''m'', am_address := Some ''10.0.0.9'',
         am_prefix := Some 24, am_applied := True\<rparr>"
  let ?q = "\<lparr>pa_adapter_mac = ''m'', pa_address = ''10.0.0.9'', pa_prefix = 24\<rparr>"
  let ?c = "\<lparr>cfg_settings = (app_settings_default [])\<lparr>pending_addresses := [?q]\<rparr>, cfg_cache = [], cfg_notices = []\<rparr>"
  let ?after = "set_binding_with ''10.0.0.0/24'' ?row (\<lambda>s d. (Inr (), d)) (?c, ())"
  have ok: "fst ?after = Inr ()"
    by (simp add: set_binding_with_def set_binding_for_operation_with_def change_settings_if_with_def
        set_binding_change_def persist_then_publish_def app_settings_default_def)
  then have "?after = (Inr (), (fst (snd ?after), ()))" by (simp only: prod_eq_iff fst_conv snd_conv simp_thms unit_eq)
  from binding_handover_atomic [OF this, of "''10.0.0.9''"] ok show ?thesis
    by (simp add: Let_def committed_row_def adopted_meta_default_def store_inv_defs app_settings_default_def)
qed

end
