(* ===== verification/Config_Interleaving.thy ===== *)
theory Config_Interleaving
  imports Config_Invariants
begin

text \<open>
  Writers of \<open>AppConfig\<close> on several threads. \<open>CONFIG_SAVE_LOCK\<close> serialises saves, the
  settings mutex serialises accesses to memory, and not every writer holds both throughout:

  \<^item> \<open>change_settings_if_with\<close>, \<open>bind_manual_node_with\<close>, \<open>remove_manual_node\<close> and
    \<open>set_selected_adapter_mac\<close> hold both locks, so each is one step here (\<open>EvTransact\<close>);
  \<^item> the writers that assign first hold the mutex for the assignment (\<open>EvAssign\<close>), release
    it, and then call \<open>save\<close>, which clones memory under the save lock (\<open>EvSaveBegin\<close>) and
    writes the clone (\<open>EvSaveEnd\<close>);
  \<^item> the two re-stream commits hold only the save lock between persisting the validated
    clone (\<open>EvCommitBegin\<close>) and assigning their own fields (\<open>EvCommitEnd\<close>).

  An event that needs a lock another thread holds changes nothing: that thread is blocked. A
  save either writes the whole snapshot or leaves the old file (\<open>atomic_write\<close>).
\<close>

datatype lock_holder = Saving app_settings | Committing settings_op

record shared_config =
  sh_config :: app_config
  sh_disk :: app_settings
  sh_lock :: "lock_holder option"
  sh_unsaved :: nat
  sh_failed :: bool

datatype store_event =
    EvTransact settings_op bool
  | EvAssign settings_op
  | EvSaveBegin
  | EvSaveEnd bool
  | EvCommitBegin settings_op bool
  | EvCommitEnd

fun commit_fields :: "settings_op \<Rightarrow> (app_settings \<Rightarrow> app_settings) option" where
  "commit_fields (OpCommitServers r t) = Some (\<lambda>s. s\<lparr>rtsp_server := r, srt_server := t\<rparr>)"
| "commit_fields (OpCommitProtocol pr) = Some (\<lambda>s. s\<lparr>restream_protocol_sel := pr\<rparr>)"
| "commit_fields _ = None"

definition commit_apply :: "settings_op \<Rightarrow> app_settings \<Rightarrow> app_settings" where
  "commit_apply op s = (case commit_fields op of None \<Rightarrow> s | Some f \<Rightarrow> f s)"

text \<open>The save a step performs: it writes the snapshot, or fails and leaves the file.\<close>

definition file_write :: "bool \<Rightarrow> app_settings persist" where
  "file_write ok s d = (if ok then (Inr (), s) else (Inl (Io ''write failed''), d))"

text \<open>The in-memory half of a writer that assigns first, and whether it goes on to save.\<close>

definition assign_half :: "settings_op \<Rightarrow> app_config \<Rightarrow> app_config \<times> bool" where
  "assign_half op c = snd (run_op op (\<lambda>_ _. (Inr (), True)) (c, False))"

fun store_step :: "store_event \<Rightarrow> shared_config \<Rightarrow> shared_config" where
  "store_step (EvTransact op ok) st =
     (if sh_lock st = None \<and> transactional op \<and> commit_fields op = None then
        (let (c', d') = snd (run_op op (file_write ok) (sh_config st, sh_disk st)) in
         st\<lparr>sh_config := c', sh_disk := d'\<rparr>)
      else st)"
| "store_step (EvAssign op) st =
     (if \<not> transactional op then
        (let (c', owes) = assign_half op (sh_config st) in
         st\<lparr>sh_config := c', sh_unsaved := sh_unsaved st + (if owes then 1 else 0)\<rparr>)
      else st)"
| "store_step EvSaveBegin st =
     (if sh_lock st = None \<and> 0 < sh_unsaved st
      then st\<lparr>sh_lock := Some (Saving (cfg_settings (sh_config st)))\<rparr> else st)"
| "store_step (EvSaveEnd ok) st =
     (case sh_lock st of
        Some (Saving snap) \<Rightarrow>
          st\<lparr>sh_lock := None, sh_unsaved := sh_unsaved st - 1, sh_failed := \<not> ok,
             sh_disk := snd (file_write ok snap (sh_disk st))\<rparr>
      | _ \<Rightarrow> st)"
| "store_step (EvCommitBegin op ok) st =
     (if sh_lock st = None \<and> commit_fields op \<noteq> None then
        (case validate_prospective_settings (commit_apply op (cfg_settings (sh_config st))) of
           Inl _ \<Rightarrow> st
         | Inr prospective \<Rightarrow>
             if ok then st\<lparr>sh_disk := prospective, sh_lock := Some (Committing op), sh_failed := False\<rparr>
             else st)
      else st)"
| "store_step EvCommitEnd st =
     (case sh_lock st of
        Some (Committing op) \<Rightarrow>
          st\<lparr>sh_lock := None,
             sh_config := (sh_config st)\<lparr>cfg_settings := commit_apply op (cfg_settings (sh_config st))\<rparr>\<rparr>
      | _ \<Rightarrow> st)"

text \<open>Memory and disk agree, or somebody still owes a save, or the last save failed.\<close>

definition synced :: "shared_config \<Rightarrow> bool" where
  "synced st = (case sh_lock st of
     None \<Rightarrow> sh_failed st \<or> 0 < sh_unsaved st \<or> sh_disk st = cfg_settings (sh_config st)
   | Some (Saving snap) \<Rightarrow> 0 < sh_unsaved st \<and> (snap = cfg_settings (sh_config st) \<or> 2 \<le> sh_unsaved st)
   | Some (Committing op) \<Rightarrow> 0 < sh_unsaved st \<or> sh_disk st = commit_apply op (cfg_settings (sh_config st)))"

lemma file_write_atomic: "atomic_persist id (file_write ok)"
  by (simp add: atomic_persist_def file_write_def)

lemma assign_save_marks [simp]:
  "snd (assign_then_save f (\<lambda>_ _. (Inr (), True)) (c, b)) = (c\<lparr>cfg_settings := f (cfg_settings c)\<rparr>, True)"
  by (simp add: assign_then_save_def save_settings_def)

lemma assign_then_save_marks:
  "assign_then_save f (\<lambda>_ _. (Inr (), True)) (c, b) = (Inr (), c\<lparr>cfg_settings := f (cfg_settings c)\<rparr>, True)"
  by (simp add: assign_then_save_def save_settings_def)

lemma assign_half_cases:
  "\<not> transactional op \<Longrightarrow> assign_half op c = (c', owes) \<Longrightarrow> owes \<or> c' = c"
  by (cases op)
    (auto simp: assign_half_def discard_def update_zoom_position_def update_credentials_def set_audio_muted_def
      clear_manual_nodes_def add_manual_node_def update_manual_node_alias_def assign_then_save_marks
      split: option.splits if_splits)

lemma transact_synced:
  assumes "transactional op" "sh_disk st = cfg_settings (sh_config st)"
    "run_op op (file_write ok) (sh_config st, sh_disk st) = (r, c', d')"
  shows "d' = cfg_settings c'"
  using settings_transaction.keeps_sync [OF run_op_transaction [OF assms(1)] file_write_atomic _ assms(3)]
    assms(2) by simp

interpretation shared: guarded_machine
  "\<lambda>st. sh_lock st = None \<and> sh_disk st = cfg_settings (sh_config st)" store_step synced
proof
  fix e st assume "synced st"
  then show "synced (store_step e st)"
  proof (cases e)
    case (EvTransact op ok)
    obtain r c' d' where run: "run_op op (file_write ok) (sh_config st, sh_disk st) = (r, c', d')"
      by (metis prod.collapse)
    show ?thesis
      using \<open>synced st\<close> EvTransact transact_synced [of op st ok r c' d'] run by (auto simp: synced_def)
  next
    case (EvAssign op)
    obtain c' owes where half: "assign_half op (sh_config st) = (c', owes)" by (metis prod.collapse)
    show ?thesis
      using \<open>synced st\<close> EvAssign assign_half_cases [of op "sh_config st" c' owes] half
      by (auto simp: synced_def split: option.splits lock_holder.splits)
  qed (auto simp: synced_def file_write_def commit_apply_def validate_prospective_iff
      split: option.splits lock_holder.splits sum.splits)
qed (simp add: synced_def)



end
