(* ===== verification/Config_Persist.thy ===== *)
theory Config_Persist
  imports Config_Invariants
begin

text \<open>
  Saving and loading of \<open>config.rs\<close>: the persisted shapes, the protected fields, the key
  file, the staged file write and the salvage of unreadable files.

  A file system is a map from paths to byte contents. What an operation does to it is the
  list of states it passes through, in order, so that stopping at any of them is a crash at
  that point; the last one is the state the operation leaves. The record \<open>os\<close> says which
  system calls fail in this run, the record \<open>crates\<close> holds the third-party functions the
  code calls (AES-256-GCM, base64, DPAPI, TOML), and random bytes are arguments.
\<close>

section \<open>Views and persisted shapes\<close>

record srt_server_view =
  sv_port :: u16
  sv_passphrase :: srt_passphrase_view
  sv_latency_ms :: u32
  sv_stream_id :: string
  sv_bind_interface :: string
  sv_bind_interface_id :: "string option"

definition srt_server_view_of :: "srt_server_config \<Rightarrow> srt_server_view" where
  "srt_server_view_of t = \<lparr>sv_port = ss_port t, sv_passphrase = srt_passphrase_view_of (ss_passphrase t),
     sv_latency_ms = ss_latency_ms t, sv_stream_id = ss_stream_id t,
     sv_bind_interface = ss_bind_interface t, sv_bind_interface_id = ss_bind_interface_id t\<rparr>"

record app_settings_view =
  av_selected_adapter_mac :: "string option"
  av_primary_addresses :: "(string, string) hashmap"
  av_stream :: stream_config
  av_restream_protocol :: restream_protocol
  av_rtsp_server :: rtsp_server_config
  av_srt_server :: srt_server_view
  av_credentials :: credentials
  av_adopted_subnets :: "(string, string) hashmap"
  av_adopted_meta :: "(string, adopted_meta) hashmap"
  av_zoom_positions :: "(string, 32 word) hashmap"
  av_network_mode :: network_mode
  av_manual_nodes :: "manual_node list"

definition app_settings_view_of :: "app_settings \<Rightarrow> app_settings_view" where
  "app_settings_view_of s = \<lparr>av_selected_adapter_mac = selected_adapter_mac s,
     av_primary_addresses = primary_addresses s, av_stream = stream_cfg s,
     av_restream_protocol = restream_protocol_sel s, av_rtsp_server = rtsp_server s,
     av_srt_server = srt_server_view_of (srt_server s), av_credentials = credentials_cfg s,
     av_adopted_subnets = adopted_subnets s, av_adopted_meta = adopted_meta_map s,
     av_zoom_positions = zoom_positions s, av_network_mode = network_mode_sel s,
     av_manual_nodes = manual_nodes s\<rparr>"

record persisted_rtsp_server =
  pr_enabled :: bool
  pr_port :: i64
  pr_token :: string
  pr_bind_interface :: string
  pr_bind_interface_id :: "string option"

record persisted_srt_server =
  ps_port :: i64
  ps_passphrase :: string
  ps_latency_ms :: i64
  ps_stream_id :: string
  ps_bind_interface :: string
  ps_bind_interface_id :: "string option"

text \<open>The default that a file without an SRT section gets.\<close>

definition persisted_srt_default :: persisted_srt_server where
  "persisted_srt_default = \<lparr>ps_port = 8890, ps_passphrase = [], ps_latency_ms = 125, ps_stream_id = [],
     ps_bind_interface = [], ps_bind_interface_id = None\<rparr>"

record persisted_settings =
  pe_migration_complete :: bool
  pe_selected_adapter_mac :: "string option"
  pe_primary_addresses :: "(string, string) hashmap"
  pe_pending_addresses :: "pending_address list"
  pe_stream :: stream_config
  pe_restream_protocol :: restream_protocol
  pe_rtsp_server :: persisted_rtsp_server
  pe_srt_server :: persisted_srt_server
  pe_credentials :: credentials
  pe_adopted_subnets :: "(string, string) hashmap"
  pe_adopted_meta :: "(string, adopted_meta) hashmap"
  pe_zoom_positions :: "(string, 32 word) hashmap"
  pe_network_mode :: network_mode
  pe_manual_nodes :: "manual_node list"

section \<open>Third-party functions\<close>

record crates =
  aes_encrypt :: "string \<Rightarrow> string \<Rightarrow> string \<Rightarrow> string option"
  aes_decrypt :: "string \<Rightarrow> string \<Rightarrow> string \<Rightarrow> string option"
  b64_encode :: "string \<Rightarrow> string"
  b64_decode :: "string \<Rightarrow> string option"
  dpapi_protect :: "string \<Rightarrow> string option"
  dpapi_unprotect :: "string \<Rightarrow> string option"
  toml_settings_to :: "persisted_settings \<Rightarrow> string + string"
  toml_settings_from :: "string \<Rightarrow> string + persisted_settings"
  toml_cache_to :: "cached_device list \<Rightarrow> string + string"
  toml_cache_from :: "string \<Rightarrow> string + cached_device list"
  toml_legacy_cache :: "string \<Rightarrow> cached_device list option"

text \<open>Two values of a hash map are equal when they have the same entries; a file need not
  bring them back in the same order.\<close>

definition same_map :: "('k, 'v) hashmap \<Rightarrow> ('k, 'v) hashmap \<Rightarrow> bool" where
  "same_map m m' \<longleftrightarrow> map_of m = map_of m' \<and> hm_wf m = hm_wf m'"

definition same_persisted :: "persisted_settings \<Rightarrow> persisted_settings \<Rightarrow> bool" where
  "same_persisted a b \<longleftrightarrow>
     b = a\<lparr>pe_primary_addresses := pe_primary_addresses b, pe_adopted_subnets := pe_adopted_subnets b,
           pe_adopted_meta := pe_adopted_meta b, pe_zoom_positions := pe_zoom_positions b\<rparr>
     \<and> same_map (pe_primary_addresses a) (pe_primary_addresses b)
     \<and> same_map (pe_adopted_subnets a) (pe_adopted_subnets b)
     \<and> same_map (pe_adopted_meta a) (pe_adopted_meta b)
     \<and> same_map (pe_zoom_positions a) (pe_zoom_positions b)"

definition same_settings :: "app_settings \<Rightarrow> app_settings \<Rightarrow> bool" where
  "same_settings a b \<longleftrightarrow>
     b = a\<lparr>primary_addresses := primary_addresses b, adopted_subnets := adopted_subnets b,
           adopted_meta_map := adopted_meta_map b, zoom_positions := zoom_positions b\<rparr>
     \<and> same_map (primary_addresses a) (primary_addresses b)
     \<and> same_map (adopted_subnets a) (adopted_subnets b)
     \<and> same_map (adopted_meta_map a) (adopted_meta_map b)
     \<and> same_map (zoom_positions a) (zoom_positions b)"

text \<open>What the code relies on: decryption inverts encryption under the same key and nonce,
  base64 decodes what it encodes and encodes something to something, DPAPI opens what it
  sealed and its blobs are not 32 bytes long, TOML reads back what it wrote.\<close>

definition crates_laws :: "crates \<Rightarrow> bool" where
  "crates_laws k \<longleftrightarrow>
     (\<forall>key nonce p c. aes_encrypt k key nonce p = Some c \<longrightarrow> aes_decrypt k key nonce c = Some p)
   \<and> (\<forall>b. b64_decode k (b64_encode k b) = Some b)
   \<and> (\<forall>b. b \<noteq> [] \<longrightarrow> b64_encode k b \<noteq> [])
   \<and> (\<forall>b c. dpapi_protect k b = Some c \<longrightarrow> dpapi_unprotect k c = Some b \<and> length c \<noteq> 32)
   \<and> (\<forall>p t. toml_settings_to k p = Inr t \<longrightarrow> (\<exists>p'. toml_settings_from k t = Inr p' \<and> same_persisted p p'))"

section \<open>Protected fields\<close>

text \<open>\<open>String::from_utf8\<close>: the byte sequences of well-formed UTF-8.\<close>

definition is_cont :: "char \<Rightarrow> bool" where
  "is_cont c \<longleftrightarrow> 128 \<le> byte_of c \<and> byte_of c \<le> 191"

fun is_utf8 :: "string \<Rightarrow> bool" where
  "is_utf8 [] = True"
| "is_utf8 (a # cs) =
     (let x = byte_of a in
      if x < 128 then is_utf8 cs
      else if 194 \<le> x \<and> x \<le> 223 then (case cs of b # cs' \<Rightarrow> is_cont b \<and> is_utf8 cs' | _ \<Rightarrow> False)
      else if 224 \<le> x \<and> x \<le> 239 then
        (case cs of b # c # cs' \<Rightarrow>
           is_cont b \<and> is_cont c \<and> (x = 224 \<longrightarrow> 160 \<le> byte_of b) \<and> (x = 237 \<longrightarrow> byte_of b \<le> 159) \<and> is_utf8 cs'
         | _ \<Rightarrow> False)
      else if 240 \<le> x \<and> x \<le> 244 then
        (case cs of b # c # d # cs' \<Rightarrow>
           is_cont b \<and> is_cont c \<and> is_cont d \<and> (x = 240 \<longrightarrow> 144 \<le> byte_of b)
           \<and> (x = 244 \<longrightarrow> byte_of b \<le> 143) \<and> is_utf8 cs'
         | _ \<Rightarrow> False)
      else False)"

definition encrypt_string_checked :: "crates \<Rightarrow> string \<Rightarrow> string \<Rightarrow> string \<Rightarrow> string result" where
  "encrypt_string_checked k nonce plaintext key =
     (if plaintext = [] then Inr []
      else if length key \<noteq> 32 then Inl (Config ''invalid protected-secret key length'')
      else (case aes_encrypt k key nonce plaintext of
              None \<Rightarrow> Inl (Config ''protected-secret encryption failed; settings were not saved'')
            | Some ciphertext \<Rightarrow> Inr (b64_encode k (nonce @ ciphertext))))"

definition encrypt_string :: "crates \<Rightarrow> string \<Rightarrow> string \<Rightarrow> string \<Rightarrow> string" where
  "encrypt_string k nonce plaintext key =
     (case encrypt_string_checked k nonce plaintext key of Inl _ \<Rightarrow> [] | Inr c \<Rightarrow> c)"

definition decrypt_string :: "crates \<Rightarrow> string \<Rightarrow> string \<Rightarrow> string option" where
  "decrypt_string k encrypted key =
     (if encrypted = [] then Some []
      else (case b64_decode k encrypted of
              None \<Rightarrow> None
            | Some combined \<Rightarrow>
                if length combined < 12 then None
                else if length key \<noteq> 32 then None
                else (case aes_decrypt k key (take 12 combined) (drop 12 combined) of
                        None \<Rightarrow> None
                      | Some p \<Rightarrow> if is_utf8 p then Some p else None)))"

definition decrypt_field :: "crates \<Rightarrow> string \<Rightarrow> string \<Rightarrow> string" where
  "decrypt_field k field key = (case decrypt_string k field key of Some s \<Rightarrow> s | None \<Rightarrow> [])"

definition resolve_credentials :: "crates \<Rightarrow> string \<Rightarrow> string \<Rightarrow> string option \<Rightarrow> string \<times> string" where
  "resolve_credentials k user pass key =
     (case key of
        Some b \<Rightarrow> if length b = 32 then (decrypt_field k user b, decrypt_field k pass b) else ([], [])
      | None \<Rightarrow> ([], []))"

definition resolve_srt_passphrase :: "crates \<Rightarrow> string \<Rightarrow> string option \<Rightarrow> srt_passphrase_state" where
  "resolve_srt_passphrase k stored key =
     (if stored = [] then Unencrypted
      else (case (case key of None \<Rightarrow> None
                  | Some b \<Rightarrow> if length b = 32 then decrypt_string k stored b else None) of
              Some plaintext \<Rightarrow> Available plaintext
            | None \<Rightarrow> Unavailable stored))"

definition runtime_settings_from_persisted ::
    "crates \<Rightarrow> persisted_settings \<Rightarrow> string option \<Rightarrow> app_settings result" where
  "runtime_settings_from_persisted k p key =
     (let (user, pass) = resolve_credentials k (username (pe_credentials p)) (password (pe_credentials p)) key;
          passphrase = resolve_srt_passphrase k (ps_passphrase (pe_srt_server p)) key;
          rtsp = pe_rtsp_server p; srt = pe_srt_server p
      in res_bind
        (normalize_restream_servers (pe_stream p) (pr_enabled rtsp)
          \<lparr>ru_port = pr_port rtsp, ru_token = pr_token rtsp, ru_bind_interface = pr_bind_interface rtsp,
           ru_bind_interface_id = pr_bind_interface_id rtsp\<rparr>
          \<lparr>rsrt_port = ps_port srt, rsrt_passphrase = passphrase, rsrt_latency_ms = ps_latency_ms srt,
           rsrt_stream_id = ps_stream_id srt, rsrt_bind_interface = ps_bind_interface srt,
           rsrt_bind_interface_id = ps_bind_interface_id srt\<rparr>)
        (\<lambda>(rtsp, srt). validate_prospective_settings
          \<lparr>bind_identity_migration_complete = pe_migration_complete p,
           selected_adapter_mac = pe_selected_adapter_mac p, primary_addresses = pe_primary_addresses p,
           stream_cfg = pe_stream p, restream_protocol_sel = pe_restream_protocol p,
           rtsp_server = rtsp, srt_server = srt, credentials_cfg = \<lparr>username = user, password = pass\<rparr>,
           adopted_subnets = pe_adopted_subnets p, adopted_meta_map = pe_adopted_meta p,
           pending_addresses = pe_pending_addresses p, zoom_positions = pe_zoom_positions p,
           network_mode_sel = pe_network_mode p, manual_nodes = pe_manual_nodes p\<rparr>))"

text \<open>The three nonces are those of the passphrase, the user name and the password.\<close>

record nonces =
  nonce_srt :: string
  nonce_user :: string
  nonce_pass :: string

definition persisted_passphrase :: "srt_passphrase_state \<Rightarrow> (string \<Rightarrow> string result) \<Rightarrow> string result" where
  "persisted_passphrase state encrypt_srt =
     (case state of
        Unencrypted \<Rightarrow> Inr []
      | Available plaintext \<Rightarrow>
          res_bind (encrypt_srt plaintext) (\<lambda>encrypted.
            if encrypted = []
            then Inl (Config ''protected SRT passphrase encryption returned no ciphertext; settings were not saved'')
            else Inr encrypted)
      | Unavailable preserved \<Rightarrow>
          if preserved = []
          then Inl (Config ''unavailable SRT passphrase has no preserved ciphertext; settings were not saved'')
          else Inr preserved)"

definition persisted_settings_with_srt_encryptor ::
    "crates \<Rightarrow> nonces \<Rightarrow> app_settings \<Rightarrow> string \<Rightarrow> (string \<Rightarrow> string \<Rightarrow> string result)
      \<Rightarrow> persisted_settings result" where
  "persisted_settings_with_srt_encryptor k ns settings key encrypt_srt =
     res_bind (validate_prospective_settings settings) (\<lambda>s.
     res_bind (persisted_passphrase (ss_passphrase (srt_server s)) (\<lambda>p. encrypt_srt p key)) (\<lambda>passphrase.
     Inr \<lparr>pe_migration_complete = bind_identity_migration_complete s,
          pe_selected_adapter_mac = selected_adapter_mac s, pe_primary_addresses = primary_addresses s,
          pe_pending_addresses = pending_addresses s, pe_stream = stream_cfg s,
          pe_restream_protocol = restream_protocol_sel s,
          pe_rtsp_server = \<lparr>pr_enabled = rs_enabled (rtsp_server s), pr_port = ucast (rs_port (rtsp_server s)),
            pr_token = rs_token (rtsp_server s), pr_bind_interface = rs_bind_interface (rtsp_server s),
            pr_bind_interface_id = rs_bind_interface_id (rtsp_server s)\<rparr>,
          pe_srt_server = \<lparr>ps_port = ucast (ss_port (srt_server s)), ps_passphrase = passphrase,
            ps_latency_ms = ucast (ss_latency_ms (srt_server s)), ps_stream_id = ss_stream_id (srt_server s),
            ps_bind_interface = ss_bind_interface (srt_server s),
            ps_bind_interface_id = ss_bind_interface_id (srt_server s)\<rparr>,
          pe_credentials = \<lparr>username = encrypt_string k (nonce_user ns) (username (credentials_cfg s)) key,
            password = encrypt_string k (nonce_pass ns) (password (credentials_cfg s)) key\<rparr>,
          pe_adopted_subnets = adopted_subnets s, pe_adopted_meta = adopted_meta_map s,
          pe_zoom_positions = zoom_positions s, pe_network_mode = network_mode_sel s,
          pe_manual_nodes = manual_nodes s\<rparr>))"

definition map_config_error :: "string + 'a \<Rightarrow> 'a result" where
  "map_config_error r = (case r of Inl e \<Rightarrow> Inl (Config e) | Inr x \<Rightarrow> Inr x)"

lemma map_config_error_Inr [simp]: "map_config_error r = Inr x \<longleftrightarrow> r = Inr x"
  by (cases r) (simp_all add: map_config_error_def)

definition serialize_settings_with_srt_encryptor ::
    "crates \<Rightarrow> nonces \<Rightarrow> app_settings \<Rightarrow> string \<Rightarrow> (string \<Rightarrow> string \<Rightarrow> string result) \<Rightarrow> string result" where
  "serialize_settings_with_srt_encryptor k ns settings key encrypt_srt =
     res_bind (persisted_settings_with_srt_encryptor k ns settings key encrypt_srt)
       (\<lambda>persisted. map_config_error (toml_settings_to k persisted))"

section \<open>Files\<close>

type_synonym path = "string list"
type_synonym file_system = "path \<rightharpoonup> string"

datatype io_error = IoNotFound | IoOther string

fun io_error_to_string :: "io_error \<Rightarrow> string" where
  "io_error_to_string IoNotFound = ''entity not found''"
| "io_error_to_string (IoOther m) = m"

record os =
  os_windows :: bool
  os_pid :: nat
  os_read :: "path \<Rightarrow> string option"
  os_mkdir :: "path \<Rightarrow> string option"
  os_create :: "path \<Rightarrow> string option"
  os_write :: "path \<Rightarrow> (nat \<times> string) option"
  os_sync :: "path \<Rightarrow> string option"
  os_rename :: "path \<Rightarrow> string option"
  os_remove :: "path \<Rightarrow> bool"

definition fs_read :: "os \<Rightarrow> path \<Rightarrow> file_system \<Rightarrow> io_error + string" where
  "fs_read os path fs =
     (case os_read os path of Some e \<Rightarrow> Inl (IoOther e)
      | None \<Rightarrow> (case fs path of None \<Rightarrow> Inl IoNotFound | Some c \<Rightarrow> Inr c))"

definition path_parent :: "path \<Rightarrow> path option" where
  "path_parent p = (if p = [] then None else Some (butlast p))"

definition path_file_name :: "path \<Rightarrow> string option" where
  "path_file_name p = (if p = [] then None else Some (last p))"

text \<open>The state an operation leaves behind.\<close>

definition final_fs :: "file_system \<Rightarrow> file_system list \<Rightarrow> file_system" where
  "final_fs fs states = last (fs # states)"

text \<open>The staging name: the file name, the process id and a counter value that no other write
  of this process has used.\<close>

definition tmp_path :: "os \<Rightarrow> nat \<Rightarrow> path \<Rightarrow> string \<Rightarrow> path" where
  "tmp_path os counter parent name =
     parent @ [name @ ''.'' @ show_nat (os_pid os) @ ''.'' @ show_nat counter @ ''.tmp'']"

definition atomic_write ::
    "os \<Rightarrow> nat \<Rightarrow> path \<Rightarrow> string \<Rightarrow> file_system \<Rightarrow> (io_error + unit) \<times> file_system list" where
  "atomic_write os counter path content fs =
     (case path_parent path of
        None \<Rightarrow> (Inl (IoOther ''path has no parent''), [])
      | Some parent \<Rightarrow>
     (case os_mkdir os parent of
        Some e \<Rightarrow> (Inl (IoOther e), [])
      | None \<Rightarrow>
     (case path_file_name path of
        None \<Rightarrow> (Inl (IoOther ''path has no file name''), [])
      | Some name \<Rightarrow>
     (let tmp = tmp_path os counter parent name;
          writing = (\<lambda>n. map (\<lambda>i. fs(tmp \<mapsto> take i content)) [0..<Suc n])
      in case os_create os tmp of
        Some e \<Rightarrow> (Inl (IoOther e), [])
      | None \<Rightarrow>
     (case os_write os tmp of
        Some (n, e) \<Rightarrow> (Inl (IoOther e), writing n)
      | None \<Rightarrow>
     (case os_sync os tmp of
        Some e \<Rightarrow> (Inl (IoOther e), writing (length content))
      | None \<Rightarrow>
     (case os_rename os path of
        Some e \<Rightarrow> (Inl (IoOther e), writing (length content)
          @ (if os_remove os tmp then [fs(tmp := None)] else []))
      | None \<Rightarrow> (Inr (), writing (length content) @ [fs(tmp := None, path \<mapsto> content)]))))))))"

definition config_dir :: path where
  "config_dir = [''PocketStream'']"

definition config_path :: path where
  "config_path = config_dir @ [''config.toml'']"

definition cache_path :: path where
  "cache_path = config_dir @ [''device_cache.toml'']"

definition key_path :: path where
  "key_path = config_dir @ [''.key'']"

definition quarantine_path :: "path \<Rightarrow> path" where
  "quarantine_path path =
     (let name = (case path_file_name path of Some n \<Rightarrow> n | None \<Rightarrow> ''config'') @ ''.parse-error''
      in (case path_parent path of Some p \<Rightarrow> p @ [name] | None \<Rightarrow> [name]))"

definition quarantine_file_name :: "path \<Rightarrow> string" where
  "quarantine_file_name path =
     (case path_file_name (quarantine_path path) of Some n \<Rightarrow> n | None \<Rightarrow> ''parse-error'')"

text \<open>\<open>fs::rename\<close> replaces an existing destination.\<close>

definition quarantine :: "os \<Rightarrow> path \<Rightarrow> file_system \<Rightarrow> file_system" where
  "quarantine os path fs =
     (case os_rename os (quarantine_path path) of
        Some _ \<Rightarrow> fs
      | None \<Rightarrow> (case fs path of None \<Rightarrow> fs | Some c \<Rightarrow> fs(path := None, quarantine_path path \<mapsto> c)))"

section \<open>The key file\<close>

definition read_key_from :: "os \<Rightarrow> crates \<Rightarrow> path \<Rightarrow> file_system \<Rightarrow> io_error + (string \<times> bool) option" where
  "read_key_from os k path fs =
     (case fs_read os path fs of
        Inl IoNotFound \<Rightarrow> Inr None
      | Inl e \<Rightarrow> Inl e
      | Inr raw \<Rightarrow>
          if length raw = 32 then Inr (Some (raw, os_windows os))
          else if os_windows os then
            (case dpapi_unprotect k raw of
               Some plain \<Rightarrow> if length plain = 32 then Inr (Some (plain, False)) else Inr None
             | None \<Rightarrow> Inr None)
          else Inr None)"

definition write_key_to ::
    "os \<Rightarrow> crates \<Rightarrow> nat \<Rightarrow> path \<Rightarrow> string \<Rightarrow> file_system \<Rightarrow> unit result \<times> file_system list" where
  "write_key_to os k counter path key fs =
     (case (if os_windows os then dpapi_protect k key else Some key) of
        None \<Rightarrow> (Inl (Config ''DPAPI protection of the encryption key failed''), [])
      | Some on_disk \<Rightarrow>
          (case atomic_write os counter path on_disk fs of
             (Inl e, states) \<Rightarrow> (Inl (Config (io_error_to_string e)), states)
           | (Inr _, states) \<Rightarrow> (Inr (), states)))"

definition get_or_create_key_at ::
    "os \<Rightarrow> crates \<Rightarrow> nat \<Rightarrow> string \<Rightarrow> path \<Rightarrow> file_system \<Rightarrow> string result \<times> file_system list" where
  "get_or_create_key_at os k counter fresh path fs =
     (case read_key_from os k path fs of
        Inr (Some (key, needs_rewrap)) \<Rightarrow>
          (Inr key, if needs_rewrap then snd (write_key_to os k counter path key fs) else [])
      | Inr None \<Rightarrow>
          (case write_key_to os k counter path fresh fs of
             (Inl e, states) \<Rightarrow> (Inl e, states)
           | (Inr _, states) \<Rightarrow> (Inr fresh, states))
      | Inl e \<Rightarrow> (Inl (Config (''encryption key is present but unreadable: '' @ io_error_to_string e)), []))"

section \<open>Saving\<close>

definition save_settings_to_path ::
    "os \<Rightarrow> crates \<Rightarrow> nat \<Rightarrow> nonces \<Rightarrow> app_settings \<Rightarrow> path \<Rightarrow> string \<Rightarrow> file_system
      \<Rightarrow> unit result \<times> file_system list" where
  "save_settings_to_path os k counter ns settings path key fs =
     (case serialize_settings_with_srt_encryptor k ns settings key (encrypt_string_checked k (nonce_srt ns)) of
        Inl e \<Rightarrow> (Inl e, [])
      | Inr content \<Rightarrow>
          (case atomic_write os counter path content fs of
             (Inl e, states) \<Rightarrow> (Inl (Config (io_error_to_string e)), states)
           | (Inr _, states) \<Rightarrow> (Inr (), states)))"

text \<open>One save: the counter values are those of the key write and of the settings write.\<close>

definition save_to_disk ::
    "os \<Rightarrow> crates \<Rightarrow> nat \<Rightarrow> string \<Rightarrow> nonces \<Rightarrow> app_settings \<Rightarrow> file_system
      \<Rightarrow> unit result \<times> file_system list" where
  "save_to_disk os k counter fresh ns settings fs =
     (case os_mkdir os config_dir of
        Some e \<Rightarrow> (Inl (Config e), [])
      | None \<Rightarrow>
          (case get_or_create_key_at os k counter fresh key_path fs of
             (Inl e, states) \<Rightarrow> (Inl e, states)
           | (Inr key, states) \<Rightarrow>
               (case save_settings_to_path os k (Suc counter) ns settings config_path key (final_fs fs states) of
                  (r, states') \<Rightarrow> (r, states @ states'))))"

definition save_cache_to_disk ::
    "os \<Rightarrow> crates \<Rightarrow> nat \<Rightarrow> cached_device list \<Rightarrow> file_system \<Rightarrow> unit result \<times> file_system list" where
  "save_cache_to_disk os k counter cache fs =
     (case os_mkdir os config_dir of
        Some e \<Rightarrow> (Inl (Config e), [])
      | None \<Rightarrow>
          (case toml_cache_to k cache of
             Inl e \<Rightarrow> (Inl (Config e), [])
           | Inr content \<Rightarrow>
               (case atomic_write os counter cache_path content fs of
                  (Inl e, states) \<Rightarrow> (Inl (Config (io_error_to_string e)), states)
                | (Inr _, states) \<Rightarrow> (Inr (), states))))"

section \<open>Loading\<close>

text \<open>A load gives the value, the notices for the user and the file system after salvage.\<close>

definition parse_settings ::
    "os \<Rightarrow> crates \<Rightarrow> string \<Rightarrow> path \<Rightarrow> string option \<Rightarrow> file_system
      \<Rightarrow> app_settings option \<times> string list \<times> file_system" where
  "parse_settings os k content path key fs =
     (case (case toml_settings_from k content of
              Inr p \<Rightarrow> runtime_settings_from_persisted k p key
            | Inl e \<Rightarrow> Inl (Config e)) of
        Inr settings \<Rightarrow> (Some settings, [], fs)
      | Inl _ \<Rightarrow>
          (None,
           [''Settings could not be read and were reset to defaults. The old file was preserved as ''
             @ quarantine_file_name path @ '', and the RTSP access token was regenerated.''],
           quarantine os path fs))"

definition load_from_disk ::
    "os \<Rightarrow> crates \<Rightarrow> file_system \<Rightarrow> app_settings option \<times> string list \<times> file_system" where
  "load_from_disk os k fs =
     (case fs_read os config_path fs of
        Inl _ \<Rightarrow> (None, [], fs)
      | Inr content \<Rightarrow>
          let key = (case read_key_from os k key_path fs of
                       Inr (Some (key, _)) \<Rightarrow> Some key | Inr None \<Rightarrow> None | Inl _ \<Rightarrow> None)
          in parse_settings os k content config_path key fs)"

definition parse_cache ::
    "os \<Rightarrow> crates \<Rightarrow> string \<Rightarrow> path \<Rightarrow> file_system \<Rightarrow> cached_device list option \<times> string list \<times> file_system" where
  "parse_cache os k content path fs =
     (case toml_cache_from k content of
        Inr devices \<Rightarrow> (Some devices, [], fs)
      | Inl _ \<Rightarrow>
          (None,
           [''The saved device cache could not be read; it was preserved as '' @ quarantine_file_name path
             @ '' and devices will be rediscovered on the next network sweep.''],
           quarantine os path fs))"

definition load_cache_from_disk ::
    "os \<Rightarrow> crates \<Rightarrow> file_system \<Rightarrow> cached_device list option \<times> string list \<times> file_system" where
  "load_cache_from_disk os k fs =
     (case fs_read os cache_path fs of
        Inl _ \<Rightarrow> (None, [], fs)
      | Inr content \<Rightarrow> parse_cache os k content cache_path fs)"

text \<open>\<open>random8\<close> feeds the token of the defaults, \<open>now\<close> is the load time in RFC 3339.\<close>

definition load_or_default ::
    "os \<Rightarrow> crates \<Rightarrow> nat \<Rightarrow> u8 list \<Rightarrow> string \<Rightarrow> file_system \<Rightarrow> app_config \<times> file_system" where
  "load_or_default os k counter random8 now fs =
     (let (loaded, notices, fs1) = load_from_disk os k fs;
          settings = (case loaded of Some s \<Rightarrow> s | None \<Rightarrow> app_settings_default random8);
          settings = settings\<lparr>adopted_meta_map :=
            align_adopted_meta (adopted_subnets settings) (adopted_meta_map settings) now\<rparr>;
          (cached, notices', fs2) = load_cache_from_disk os k fs1
      in case cached of
           Some c \<Rightarrow> (\<lparr>cfg_settings = settings, cfg_cache = c, cfg_notices = notices @ notices'\<rparr>, fs2)
         | None \<Rightarrow>
             (let migrated = (case fs_read os config_path fs2 of
                                Inl _ \<Rightarrow> []
                              | Inr content \<Rightarrow>
                                  (case toml_legacy_cache k content of Some c \<Rightarrow> c | None \<Rightarrow> []));
                  fs3 = (if migrated \<noteq> [] then final_fs fs2 (snd (save_cache_to_disk os k counter migrated fs2)) else fs2)
              in (\<lparr>cfg_settings = settings, cfg_cache = migrated, cfg_notices = notices @ notices'\<rparr>, fs3)))"

section \<open>A staged write is all or nothing\<close>

lemma tmp_path_length: "length name < length (last (tmp_path os counter parent name))"
  by (simp add: tmp_path_def)

text \<open>Every state but a successful last one differs from the first only in the staging file.\<close>

lemma atomic_write_shape:
  assumes "atomic_write os counter path content fs = (r, states)"
  defines "tmp \<equiv> tmp_path os counter (butlast path) (last path)"
  shows "(\<exists>e. r = Inl e) \<and> (\<forall>f\<in>set states. \<forall>q. q \<noteq> tmp \<longrightarrow> f q = fs q)
    \<or> r = Inr () \<and> (\<exists>pre. states = pre @ [fs(tmp := None, path \<mapsto> content)] \<and> (\<forall>f\<in>set pre. \<forall>q. q \<noteq> tmp \<longrightarrow> f q = fs q))"
proof -
  have w: "\<forall>f\<in>set (map (\<lambda>i. fs(tmp \<mapsto> take i content)) [0..<n]). \<forall>q. q \<noteq> tmp \<longrightarrow> f q = fs q" for n
    by auto
  show ?thesis
    using assms(1) w
    unfolding atomic_write_def path_parent_def path_file_name_def Let_def tmp_def [symmetric]
    by (auto simp: tmp_def [symmetric] simp del: upt_Suc split: if_splits option.splits prod.splits)
qed

lemma atomic_write_states:
  assumes "atomic_write os counter path content fs = (r, states)"
  shows "\<forall>f\<in>set states. f path = fs path \<or> f path = Some content"
    and "r = Inr () \<Longrightarrow> final_fs fs states path = Some content"
    and "r = Inl e \<Longrightarrow> \<forall>f\<in>set states. f path = fs path"
    and "length (last q) \<le> length (last path) \<Longrightarrow> q \<noteq> path \<Longrightarrow> \<forall>f\<in>set states. f q = fs q"
proof -
  define tmp where "tmp = tmp_path os counter (butlast path) (last path)"
  have ne: "q \<noteq> tmp" if "length (last q) \<le> length (last path)" for q
    using tmp_path_length [of "last path" os counter "butlast path"] that by (auto simp: tmp_def)
  note shape = atomic_write_shape [OF assms, folded tmp_def]
  show "\<forall>f\<in>set states. f path = fs path \<or> f path = Some content"
    "r = Inr () \<Longrightarrow> final_fs fs states path = Some content"
    "r = Inl e \<Longrightarrow> \<forall>f\<in>set states. f path = fs path"
    using shape ne [of path] by (auto simp: final_fs_def)
  show "\<forall>f\<in>set states. f q = fs q" if "length (last q) \<le> length (last path)" "q \<noteq> path"
    using shape ne [OF that(1)] that(2) by auto
qed

lemma atomic_write_other:
  assumes "atomic_write os counter path content fs = (r, states)" "last (last q) \<noteq> CHR ''p''" "q \<noteq> path"
  shows "\<forall>f\<in>set states. f q = fs q" "final_fs fs states q = fs q"
proof -
  have "q \<noteq> tmp_path os counter (butlast path) (last path)"
    using assms(2) by (auto simp: tmp_path_def)
  with atomic_write_shape [OF assms(1)] assms(3) show "\<forall>f\<in>set states. f q = fs q"
    by auto
  then show "final_fs fs states q = fs q" by (simp add: final_fs_def)
qed

lemma final_fs_Inl: "\<forall>f\<in>set states. f q = fs q \<Longrightarrow> final_fs fs states q = fs q"
  by (simp add: final_fs_def)

lemma final_fs_append: "final_fs fs (a @ b) = final_fs (final_fs fs a) b"
  by (simp add: final_fs_def)

lemma path_simps [simp]:
  "last (last config_path) = CHR ''l''" "last (last key_path) = CHR ''y''" "last (last cache_path) = CHR ''l''"
  "config_path \<noteq> key_path" "key_path \<noteq> config_path"
  by (simp_all add: config_path_def key_path_def cache_path_def config_dir_def)

section \<open>Protected fields come back\<close>

definition aes_total :: "crates \<Rightarrow> bool" where
  "aes_total k \<longleftrightarrow> (\<forall>key nonce p. length key = 32 \<longrightarrow> aes_encrypt k key nonce p \<noteq> None)"

lemma crates_lawsD:
  assumes "crates_laws k"
  shows "aes_encrypt k key nonce p = Some c \<Longrightarrow> aes_decrypt k key nonce c = Some p"
    and "b64_decode k (b64_encode k b) = Some b"
    and "b \<noteq> [] \<Longrightarrow> b64_encode k b \<noteq> []"
    and "dpapi_protect k b = Some d \<Longrightarrow> dpapi_unprotect k d = Some b"
    and "dpapi_protect k b = Some d \<Longrightarrow> length d \<noteq> 32"
    and "toml_settings_to k e = Inr t \<Longrightarrow> \<exists>e'. toml_settings_from k t = Inr e' \<and> same_persisted e e'"
  using assms by (simp_all add: crates_laws_def)

lemma aes_totalD: "aes_total k \<Longrightarrow> length key = 32 \<Longrightarrow> \<exists>c. aes_encrypt k key nonce p = Some c"
  unfolding aes_total_def not_None_eq by blast

lemma decrypt_encrypt:
  assumes laws: "crates_laws k" and len: "length key = 32" "length nonce = 12" and utf8: "is_utf8 p"
    and enc: "encrypt_string_checked k nonce p key = Inr c"
  shows "decrypt_string k c key = Some p"
proof (cases "p = []")
  case True
  with enc show ?thesis by (simp add: encrypt_string_checked_def decrypt_string_def)
next
  case False
  with enc len obtain ct where ct: "aes_encrypt k key nonce p = Some ct" "c = b64_encode k (nonce @ ct)"
    by (auto simp: encrypt_string_checked_def split: option.splits)
  moreover have "nonce @ ct \<noteq> []" using len by auto
  ultimately have "aes_decrypt k key nonce ct = Some p" "b64_decode k c = Some (nonce @ ct)" "c \<noteq> []"
    by (simp_all add: crates_lawsD [OF laws])
  with len utf8 show ?thesis by (simp add: decrypt_string_def)
qed

lemma decrypt_field_encrypt:
  assumes "crates_laws k" "aes_total k" "length key = 32" "length nonce = 12" "is_utf8 p"
  shows "decrypt_field k (encrypt_string k nonce p key) key = p"
proof -
  obtain ct where "aes_encrypt k key nonce p = Some ct"
    using aes_totalD [OF assms(2,3)] by blast
  then have "encrypt_string_checked k nonce p key = Inr (if p = [] then [] else b64_encode k (nonce @ ct))"
    using assms(3) by (simp add: encrypt_string_checked_def)
  with decrypt_encrypt [OF assms(1,3,4,5)] show ?thesis
    by (simp add: encrypt_string_def decrypt_field_def)
qed

lemma ascii_utf8: "\<forall>c\<in>set v. byte_of c < 128 \<Longrightarrow> is_utf8 v"
  by (induction v) (simp_all add: Let_def)

lemma passphrase_round_trip:
  assumes laws: "crates_laws k" and len: "length key = 32" "length nonce = 12"
    and ok: "passphrase_ok st" and un: "\<forall>c. st = Unavailable c \<longrightarrow> decrypt_string k c key = None"
    and stored: "persisted_passphrase st (\<lambda>p. encrypt_string_checked k nonce p key) = Inr stored"
  shows "resolve_srt_passphrase k stored (Some key) = st"
proof (cases st)
  case (Available v)
  with ok have "is_utf8 v" by (intro ascii_utf8) (auto simp: passphrase_ok_def)
  with Available stored decrypt_encrypt [OF laws len, of v stored] len show ?thesis
    by (auto simp: persisted_passphrase_def resolve_srt_passphrase_def res_bind_Inr_iff split: if_splits)
qed (use stored un len in \<open>auto simp: persisted_passphrase_def resolve_srt_passphrase_def split: if_splits\<close>)

lemma same_persisted_fields:
  assumes "same_persisted p q"
  shows "pe_migration_complete q = pe_migration_complete p" "pe_selected_adapter_mac q = pe_selected_adapter_mac p"
    "pe_pending_addresses q = pe_pending_addresses p" "pe_stream q = pe_stream p"
    "pe_restream_protocol q = pe_restream_protocol p" "pe_rtsp_server q = pe_rtsp_server p"
    "pe_srt_server q = pe_srt_server p" "pe_credentials q = pe_credentials p"
    "pe_network_mode q = pe_network_mode p" "pe_manual_nodes q = pe_manual_nodes p"
    "same_map (pe_primary_addresses p) (pe_primary_addresses q)"
    "same_map (pe_adopted_subnets p) (pe_adopted_subnets q)"
    "same_map (pe_adopted_meta p) (pe_adopted_meta q)" "same_map (pe_zoom_positions p) (pe_zoom_positions q)"
proof -
  from assms have eq: "q = p\<lparr>pe_primary_addresses := pe_primary_addresses q, pe_adopted_subnets := pe_adopted_subnets q,
           pe_adopted_meta := pe_adopted_meta q, pe_zoom_positions := pe_zoom_positions q\<rparr>"
    by (simp add: same_persisted_def)
  show "pe_migration_complete q = pe_migration_complete p" by (subst eq) simp
  show "pe_selected_adapter_mac q = pe_selected_adapter_mac p" by (subst eq) simp
  show "pe_pending_addresses q = pe_pending_addresses p" by (subst eq) simp
  show "pe_stream q = pe_stream p" by (subst eq) simp
  show "pe_restream_protocol q = pe_restream_protocol p" by (subst eq) simp
  show "pe_rtsp_server q = pe_rtsp_server p" by (subst eq) simp
  show "pe_srt_server q = pe_srt_server p" by (subst eq) simp
  show "pe_credentials q = pe_credentials p" by (subst eq) simp
  show "pe_network_mode q = pe_network_mode p" by (subst eq) simp
  show "pe_manual_nodes q = pe_manual_nodes p" by (subst eq) simp
qed (use assms in \<open>simp_all add: same_persisted_def\<close>)

lemma normalize_of_valid:
  assumes "settings_valid s"
  shows "normalize_restream_servers (stream_cfg s) (rs_enabled (rtsp_server s))
         \<lparr>ru_port = ucast (rs_port (rtsp_server s)), ru_token = rs_token (rtsp_server s),
          ru_bind_interface = rs_bind_interface (rtsp_server s),
          ru_bind_interface_id = rs_bind_interface_id (rtsp_server s)\<rparr>
         \<lparr>rsrt_port = ucast (ss_port (srt_server s)),
          rsrt_passphrase = ss_passphrase (srt_server s),
          rsrt_latency_ms = ucast (ss_latency_ms (srt_server s)),
          rsrt_stream_id = ss_stream_id (srt_server s),
          rsrt_bind_interface = ss_bind_interface (srt_server s),
          rsrt_bind_interface_id = ss_bind_interface_id (srt_server s)\<rparr> = Inr (rtsp_server s, srt_server s)"
proof -
  have upd: "s\<lparr>rtsp_server := r, srt_server := t\<rparr> = s \<Longrightarrow> r = rtsp_server s \<and> t = srt_server s" for r t
    by (metis app_settings.select_convs(6,7) app_settings.surjective app_settings.update_convs(6,7))
  from assms have "validate_prospective_settings s = Inr s" by (simp add: validate_prospective_iff)
  then show ?thesis
    unfolding validate_prospective_settings_def by (auto simp: res_bind_Inr_iff dest!: upd)
qed

lemma runtime_of_persisted:
  assumes laws: "crates_laws k" "aes_total k" and len: "length key = 32"
    and ns: "length (nonce_srt ns) = 12" "length (nonce_user ns) = 12" "length (nonce_pass ns) = 12"
    and cred: "is_utf8 (username (credentials_cfg s))" "is_utf8 (password (credentials_cfg s))"
    and un: "\<forall>c. ss_passphrase (srt_server s) = Unavailable c \<longrightarrow> decrypt_string k c key = None"
    and per: "persisted_settings_with_srt_encryptor k ns s key (encrypt_string_checked k (nonce_srt ns)) = Inr p"
    and same: "same_persisted p q"
  shows "\<exists>s'. runtime_settings_from_persisted k q (Some key) = Inr s' \<and> same_settings s s'"
proof -
  from per obtain stored where valid: "settings_valid s"
    and stored: "persisted_passphrase (ss_passphrase (srt_server s)) (\<lambda>p. encrypt_string_checked k (nonce_srt ns) p key) = Inr stored"
    and p: "pe_migration_complete p = bind_identity_migration_complete s" "pe_selected_adapter_mac p = selected_adapter_mac s"
      "pe_primary_addresses p = primary_addresses s" "pe_pending_addresses p = pending_addresses s"
      "pe_stream p = stream_cfg s" "pe_restream_protocol p = restream_protocol_sel s"
      "pe_adopted_subnets p = adopted_subnets s" "pe_adopted_meta p = adopted_meta_map s"
      "pe_zoom_positions p = zoom_positions s" "pe_network_mode p = network_mode_sel s" "pe_manual_nodes p = manual_nodes s"
      "username (pe_credentials p) = encrypt_string k (nonce_user ns) (username (credentials_cfg s)) key"
      "password (pe_credentials p) = encrypt_string k (nonce_pass ns) (password (credentials_cfg s)) key"
    and servers: "pe_rtsp_server p = \<lparr>pr_enabled = rs_enabled (rtsp_server s), pr_port = ucast (rs_port (rtsp_server s)),
            pr_token = rs_token (rtsp_server s), pr_bind_interface = rs_bind_interface (rtsp_server s),
            pr_bind_interface_id = rs_bind_interface_id (rtsp_server s)\<rparr>"
      "pe_srt_server p = \<lparr>ps_port = ucast (ss_port (srt_server s)), ps_passphrase = stored,
            ps_latency_ms = ucast (ss_latency_ms (srt_server s)), ps_stream_id = ss_stream_id (srt_server s),
            ps_bind_interface = ss_bind_interface (srt_server s),
            ps_bind_interface_id = ss_bind_interface_id (srt_server s)\<rparr>"
    by (auto simp: persisted_settings_with_srt_encryptor_def res_bind_Inr_iff validate_prospective_iff)
  let ?s = "s\<lparr>primary_addresses := pe_primary_addresses q, adopted_subnets := pe_adopted_subnets q,
      adopted_meta_map := pe_adopted_meta q, zoom_positions := pe_zoom_positions q\<rparr>"
  have pass: "resolve_srt_passphrase k stored (Some key) = ss_passphrase (srt_server s)"
    using valid by (intro passphrase_round_trip [OF laws(1) len ns(1) _ un stored]) (simp add: settings_valid_def Let_def)
  have creds: "resolve_credentials k (encrypt_string k (nonce_user ns) (username (credentials_cfg s)) key)
      (encrypt_string k (nonce_pass ns) (password (credentials_cfg s)) key) (Some key)
      = (username (credentials_cfg s), password (credentials_cfg s))"
    using cred by (simp add: resolve_credentials_def len decrypt_field_encrypt [OF laws len] ns)
  have val: "validate_prospective_settings ?s = Inr ?s"
    by (simp add: validate_prospective_iff) (rule settings_valid_cong [OF valid]; simp)
  have rec: "\<lparr>bind_identity_migration_complete = bind_identity_migration_complete s,
      selected_adapter_mac = selected_adapter_mac s, primary_addresses = pe_primary_addresses q,
      stream_cfg = stream_cfg s, restream_protocol_sel = restream_protocol_sel s, rtsp_server = rtsp_server s,
      srt_server = srt_server s,
      credentials_cfg = \<lparr>username = username (credentials_cfg s), password = password (credentials_cfg s)\<rparr>,
      adopted_subnets = pe_adopted_subnets q, adopted_meta_map = pe_adopted_meta q,
      pending_addresses = pending_addresses s, zoom_positions = pe_zoom_positions q,
      network_mode_sel = network_mode_sel s, manual_nodes = manual_nodes s\<rparr> = ?s"
    by simp
  have "runtime_settings_from_persisted k q (Some key) = Inr ?s"
    by (simp add: runtime_settings_from_persisted_def creds same_persisted_fields(1-10) [OF same] p servers pass
        normalize_of_valid [OF valid] rec val)
  moreover have "same_settings s ?s"
    using same_persisted_fields(11-14) [OF same] by (simp add: same_settings_def p)
  ultimately show ?thesis by blast
qed

section \<open>The key survives\<close>

lemma write_key_effect:
  assumes "write_key_to os k counter path key fs = (r, states)"
  shows "(\<exists>e. r = Inl e) \<and> final_fs fs states path = fs path
    \<or> r = Inr () \<and> (\<exists>d. (if os_windows os then dpapi_protect k key else Some key) = Some d
        \<and> final_fs fs states path = Some d)"
proof (cases "if os_windows os then dpapi_protect k key else Some key")
  case None
  with assms show ?thesis by (auto simp: write_key_to_def final_fs_def)
next
  case (Some d)
  obtain r0 st where aw: "atomic_write os counter path d fs = (r0, st)" by (metis prod.collapse)
  with assms Some have "states = st" "r = (case r0 of Inl e \<Rightarrow> Inl (Config (io_error_to_string e)) | Inr _ \<Rightarrow> Inr ())"
    by (auto simp: write_key_to_def split: sum.splits)
  with atomic_write_states(2,3) [OF aw] Some show ?thesis
    by (cases r0) (auto simp: final_fs_Inl)
qed

definition quiet :: "os \<Rightarrow> bool" where
  "quiet os \<longleftrightarrow> (\<forall>p. os_read os p = None)"

lemma read_back_key:
  assumes laws: "crates_laws k" and len: "length key = 32" and os': "quiet os'"
    and d: "(if os_windows os' then dpapi_protect k key else Some key) = Some d" "fs path = Some d"
  shows "\<exists>b. read_key_from os' k path fs = Inr (Some (key, b))"
  using d len os' crates_lawsD(4,5) [OF laws, of key d]
  by (auto simp: read_key_from_def fs_read_def quiet_def split: if_splits)

lemma key_survives:
  assumes laws: "crates_laws k" and fresh: "length fresh = 32"
    and os': "quiet os'" "os_windows os' = os_windows os"
    and run: "get_or_create_key_at os k counter fresh path fs = (Inr key, states)"
  shows "length key = 32 \<and> (\<exists>b. read_key_from os' k path (final_fs fs states) = Inr (Some (key, b)))"
proof (cases "read_key_from os k path fs")
  case (Inl e)
  with run show ?thesis by (simp add: get_or_create_key_at_def)
next
  case (Inr found)
  show ?thesis
  proof (cases found)
    case None
    with run Inr have key: "key = fresh" and w: "write_key_to os k counter path fresh fs = (Inr (), states)"
      by (auto simp: get_or_create_key_at_def split: prod.splits sum.splits)
    from write_key_effect [OF w] read_back_key [OF laws fresh os'(1)] fresh os' key show ?thesis by auto
  next
    case (Some kb)
    obtain b where kb: "kb = (key, b)" and st: "states = (if b then snd (write_key_to os k counter path key fs) else [])"
      using run Inr Some by (cases kb) (auto simp: get_or_create_key_at_def)
    have len: "length key = 32"
      using Inr Some kb by (auto simp: read_key_from_def split: sum.splits io_error.splits if_splits option.splits)
    have same: "\<exists>b. read_key_from os' k path fs' = Inr (Some (key, b))" if "fs' path = fs path" for fs'
      using Inr Some kb os' that
      by (auto simp: read_key_from_def fs_read_def quiet_def split: sum.splits io_error.splits if_splits option.splits)
    show ?thesis
    proof (cases b)
      case True
      obtain r where w: "write_key_to os k counter path key fs = (r, states)"
        using st True by (metis prod.collapse)
      from write_key_effect [OF w] same [of "final_fs fs states"] read_back_key [OF laws len os'(1)] len os'
      show ?thesis by auto
    next
      case False
      with st same [of fs] len show ?thesis by (simp add: final_fs_def)
    qed
  qed
qed

section \<open>A concrete run\<close>

text \<open>Library functions that satisfy the laws, with one TOML document, and a system on which no
  call fails.\<close>

definition plain_crates :: "persisted_settings \<Rightarrow> crates" where
  "plain_crates p0 = \<lparr>aes_encrypt = (\<lambda>_ _ p. Some p), aes_decrypt = (\<lambda>_ _ c. Some c),
     b64_encode = (\<lambda>b. b), b64_decode = Some, dpapi_protect = (\<lambda>_. None), dpapi_unprotect = (\<lambda>_. None),
     toml_settings_to = (\<lambda>p. if p = p0 then Inr ''doc'' else Inl ''unsupported''),
     toml_settings_from = (\<lambda>_. Inr p0), toml_cache_to = (\<lambda>_. Inl ''unsupported''),
     toml_cache_from = (\<lambda>_. Inl ''unsupported''), toml_legacy_cache = (\<lambda>_. None)\<rparr>"

definition calm_os :: os where
  "calm_os = \<lparr>os_windows = False, os_pid = 7, os_read = (\<lambda>_. None), os_mkdir = (\<lambda>_. None),
     os_create = (\<lambda>_. None), os_write = (\<lambda>_. None), os_sync = (\<lambda>_. None), os_rename = (\<lambda>_. None),
     os_remove = (\<lambda>_. True)\<rparr>"

definition default_persisted :: "u8 list \<Rightarrow> persisted_settings" where
  "default_persisted random8 = (let s = app_settings_default random8 in
     \<lparr>pe_migration_complete = True, pe_selected_adapter_mac = None, pe_primary_addresses = [],
      pe_pending_addresses = [], pe_stream = stream_cfg s, pe_restream_protocol = OutputRtsp,
      pe_rtsp_server = \<lparr>pr_enabled = False, pr_port = ucast (rs_port (rtsp_server s)), pr_token = rs_token (rtsp_server s),
        pr_bind_interface = [], pr_bind_interface_id = None\<rparr>,
      pe_srt_server = \<lparr>ps_port = ucast (ss_port (srt_server s)), ps_passphrase = [],
        ps_latency_ms = ucast (ss_latency_ms (srt_server s)), ps_stream_id = [], ps_bind_interface = [],
        ps_bind_interface_id = None\<rparr>,
      pe_credentials = \<lparr>username = [], password = []\<rparr>, pe_adopted_subnets = [], pe_adopted_meta = [],
      pe_zoom_positions = [], pe_network_mode = StaticAuto, pe_manual_nodes = []\<rparr>)"

definition fixed_nonces :: nonces where
  "fixed_nonces = \<lparr>nonce_srt = replicate 12 CHR ''a'', nonce_user = replicate 12 CHR ''b'',
     nonce_pass = replicate 12 CHR ''c''\<rparr>"

lemma same_map_refl [simp]: "same_map m m"
  by (simp add: same_map_def)

lemma same_persisted_refl [simp]: "same_persisted p p"
  by (simp add: same_persisted_def)

lemma plain_crates_laws [simp]: "crates_laws (plain_crates p)" "aes_total (plain_crates p)"
  by (auto simp: crates_laws_def aes_total_def plain_crates_def split: if_splits)

lemma calm_os_quiet [simp]: "quiet calm_os"
  by (simp add: quiet_def calm_os_def)

lemma encrypt_string_Nil [simp]: "encrypt_string k n [] key = []"
  by (simp add: encrypt_string_def encrypt_string_checked_def)

lemma default_persisted_written:
  assumes "length random8 = 8"
  shows "persisted_settings_with_srt_encryptor k ns (app_settings_default random8) key enc = Inr (default_persisted random8)"
proof -
  have "validate_prospective_settings (app_settings_default random8) = Inr (app_settings_default random8)"
    using default_settings_valid [OF assms] by (simp add: validate_prospective_iff)
  then show ?thesis
    by (simp add: persisted_settings_with_srt_encryptor_def default_persisted_def app_settings_default_def
        persisted_passphrase_def srt_server_default_def)
qed

section \<open>Properties\<close>

lemma read_key_cong: "fs path = fs' path \<Longrightarrow> read_key_from os k path fs = read_key_from os k path fs'"
  by (simp only: read_key_from_def fs_read_def)

lemma key_states_keep:
  assumes "get_or_create_key_at os k counter fresh key_path fs = (r, states)"
    and "last (last q) \<noteq> CHR ''p''" "q \<noteq> key_path"
  shows "\<forall>f\<in>set states. f q = fs q"
proof -
  have w: "\<forall>f\<in>set (snd (write_key_to os k counter key_path key fs)). f q = fs q" for key
    using atomic_write_other(1) [OF _ assms(2,3)]
    by (auto simp: write_key_to_def split: option.splits prod.splits sum.splits)
  from assms(1) w show ?thesis
    by (auto simp: get_or_create_key_at_def split: sum.splits option.splits prod.splits if_splits) (metis snd_conv)+
qed

lemma save_to_path_states:
  assumes "save_settings_to_path os k counter ns s path key fs = (r, states)"
  shows "(\<exists>e. r = Inl e) \<and> (\<forall>f\<in>set states. f path = fs path)
    \<or> r = Inr () \<and> (\<exists>c. serialize_settings_with_srt_encryptor k ns s key (encrypt_string_checked k (nonce_srt ns)) = Inr c
        \<and> final_fs fs states path = Some c \<and> (\<forall>f\<in>set states. f path = fs path \<or> f path = Some c))"
proof (cases "serialize_settings_with_srt_encryptor k ns s key (encrypt_string_checked k (nonce_srt ns))")
  case (Inl e)
  with assms show ?thesis by (auto simp: save_settings_to_path_def)
next
  case (Inr c)
  obtain r0 st where aw: "atomic_write os counter path c fs = (r0, st)" by (metis prod.collapse)
  with assms Inr have "states = st" "r = (case r0 of Inl e \<Rightarrow> Inl (Config (io_error_to_string e)) | Inr _ \<Rightarrow> Inr ())"
    by (auto simp: save_settings_to_path_def split: sum.splits)
  with atomic_write_states(1-3) [OF aw] Inr show ?thesis
    by (cases r0) auto
qed

text \<open>C21: a file write is crash-safe: in every state it passes through the target holds the
  complete old content or the complete new content, and afterwards it holds the new content
  if the write succeeded and the old one if it failed.\<close>

theorem atomic_write_crash_safe:
  "case atomic_write os counter path content fs of (r, states) \<Rightarrow>
     (\<lambda>f. f path) ` set states \<subseteq> {fs path, Some content}
     \<and> final_fs fs states path = (case r of Inl _ \<Rightarrow> fs path | Inr _ \<Rightarrow> Some content)"
proof -
  obtain r states where aw: "atomic_write os counter path content fs = (r, states)" by (metis prod.collapse)
  from atomic_write_states(1-3) [OF aw] show ?thesis
    by (cases r) (auto simp: aw final_fs_Inl)
qed

text \<open>a settings save that reports an error has left the settings file as it was, in every
  state it passed through, whichever of its steps failed.\<close>

theorem failed_save_keeps_settings:
  assumes "save_to_disk os k counter fresh ns s fs = (Inl e, states)"
  shows "\<forall>f\<in>set states. f config_path = fs config_path"
proof (cases "os_mkdir os config_dir")
  case (Some m)
  with assms show ?thesis by (simp add: save_to_disk_def)
next
  case None
  obtain r st where key: "get_or_create_key_at os k counter fresh key_path fs = (r, st)" by (metis prod.collapse)
  note kept = key_states_keep [OF key, of config_path, simplified]
  show ?thesis
  proof (cases r)
    case (Inl e')
    with assms None key kept show ?thesis by (simp add: save_to_disk_def)
  next
    case (Inr kb)
    obtain r' st' where sv: "save_settings_to_path os k (Suc counter) ns s config_path kb (final_fs fs st) = (r', st')"
      by (metis prod.collapse)
    from assms None key Inr sv have "states = st @ st'" "r' = Inl e" by (auto simp: save_to_disk_def)
    with save_to_path_states [OF sv] kept show ?thesis by (auto simp: final_fs_Inl)
  qed
qed

theorem failed_save_keeps_settings_witness:
  "let os = calm_os\<lparr>os_rename := (\<lambda>p. if p = config_path then Some ''locked'' else None)\<rparr>;
       k = plain_crates (default_persisted (replicate 8 0));
       run = save_to_disk os k 0 (replicate 32 CHR ''k'') fixed_nonces (app_settings_default (replicate 8 0)) (Map.empty(config_path \<mapsto> ''old''))
   in (\<exists>e. fst run = Inl e) \<and> snd run \<noteq> [] \<and> (\<forall>f\<in>set (snd run). f config_path = Some ''old'')"
proof -
  let ?os = "calm_os\<lparr>os_rename := (\<lambda>p. if p = config_path then Some ''locked'' else None)\<rparr>"
  let ?run = "save_to_disk ?os (plain_crates (default_persisted (replicate 8 0))) 0 (replicate 32 CHR ''k'') fixed_nonces
      (app_settings_default (replicate 8 0)) (Map.empty(config_path \<mapsto> ''old''))"
  have fails: "\<exists>e states. ?run = (Inl e, states) \<and> states \<noteq> []"
    by (simp add: save_to_disk_def get_or_create_key_at_def read_key_from_def fs_read_def write_key_to_def
        atomic_write_def path_parent_def path_file_name_def calm_os_def save_settings_to_path_def
        serialize_settings_with_srt_encryptor_def default_persisted_written map_config_error_def
        plain_crates_def Let_def)
      (simp add: config_path_def key_path_def config_dir_def)
  then obtain e states where run: "?run = (Inl e, states)" "states \<noteq> []" by blast
  from failed_save_keeps_settings [OF run(1)] run show ?thesis by simp
qed

text \<open>while the key file is present but unreadable, a save fails without touching any file;
  in particular no new key replaces the one the stored secrets are encrypted under.\<close>

theorem unreadable_key_is_not_replaced:
  assumes "os_read os key_path = Some e"
  shows "snd (save_to_disk os k counter fresh ns s fs) = [] \<and> (\<exists>m. fst (save_to_disk os k counter fresh ns s fs) = Inl (Config m))"
  using assms
  by (auto simp: save_to_disk_def get_or_create_key_at_def read_key_from_def fs_read_def split: option.splits)

theorem unreadable_key_is_not_replaced_witness:
  "snd (save_to_disk (calm_os\<lparr>os_read := (\<lambda>_. Some ''sharing violation'')\<rparr>) (plain_crates (default_persisted []))
     0 (replicate 32 CHR ''k'') fixed_nonces (app_settings_default []) (Map.empty(key_path \<mapsto> replicate 32 CHR ''z''))) = []"
  using unreadable_key_is_not_replaced [of "calm_os\<lparr>os_read := (\<lambda>_. Some ''sharing violation'')\<rparr>" "''sharing violation''"]
  by simp

text \<open>C23: settings that were saved come back: after a successful save, a start that can read the
  files loads the same settings (maps up to the order of their entries), secrets included, with
  no notice and no file moved. The hypotheses are the documented behaviour of the libraries,
  nonces and key of their fixed lengths, UTF-8 credentials, and that a passphrase the program
  holds as unavailable cannot be decrypted with the key in use.\<close>

theorem save_then_load:
  assumes laws: "crates_laws k" "aes_total k" and fresh: "length fresh = 32"
    and ns: "length (nonce_srt ns) = 12" "length (nonce_user ns) = 12" "length (nonce_pass ns) = 12"
    and cred: "is_utf8 (username (credentials_cfg s))" "is_utf8 (password (credentials_cfg s))"
    and un: "\<forall>c key. ss_passphrase (srt_server s) = Unavailable c
      \<longrightarrow> fst (get_or_create_key_at os k counter fresh key_path fs) = Inr key \<longrightarrow> decrypt_string k c key = None"
    and os': "quiet os'" "os_windows os' = os_windows os"
    and save: "save_to_disk os k counter fresh ns s fs = (Inr (), states)"
  shows "\<exists>s'. load_from_disk os' k (final_fs fs states) = (Some s', [], final_fs fs states) \<and> same_settings s s'"
proof -
  obtain r st where key0: "get_or_create_key_at os k counter fresh key_path fs = (r, st)" by (metis prod.collapse)
  with save obtain key st' where key: "get_or_create_key_at os k counter fresh key_path fs = (Inr key, st)"
    and sv: "save_settings_to_path os k (Suc counter) ns s config_path key (final_fs fs st) = (Inr (), st')"
    and states: "states = st @ st'"
    by (auto simp: save_to_disk_def split: option.splits sum.splits prod.splits)
  let ?fs = "final_fs fs states"
  from key_survives [OF laws(1) fresh os' key] obtain b
    where len: "length key = 32" and read: "read_key_from os' k key_path (final_fs fs st) = Inr (Some (key, b))"
    by blast
  from save_to_path_states [OF sv] obtain c
    where ser: "serialize_settings_with_srt_encryptor k ns s key (encrypt_string_checked k (nonce_srt ns)) = Inr c"
      and cfg: "?fs config_path = Some c"
    by (auto simp: states final_fs_append)
  have "?fs key_path = final_fs fs st key_path"
    using sv ser atomic_write_other(2) [of os "Suc counter" config_path c "final_fs fs st" _ _ key_path]
    by (auto simp: save_settings_to_path_def states final_fs_append split: prod.splits sum.splits)
  then have readkey: "read_key_from os' k key_path ?fs = Inr (Some (key, b))"
    using read read_key_cong by metis
  from ser obtain p where p: "persisted_settings_with_srt_encryptor k ns s key (encrypt_string_checked k (nonce_srt ns)) = Inr p"
    and "toml_settings_to k p = Inr c"
    by (auto simp: serialize_settings_with_srt_encryptor_def res_bind_Inr_iff)
  with crates_lawsD(6) [OF laws(1)] obtain q where q: "toml_settings_from k c = Inr q" "same_persisted p q" by blast
  have "\<forall>c. ss_passphrase (srt_server s) = Unavailable c \<longrightarrow> decrypt_string k c key = None"
    using un key by simp
  from runtime_of_persisted [OF laws len ns cred this p q(2)] obtain s'
    where "runtime_settings_from_persisted k q (Some key) = Inr s'" "same_settings s s'" by blast
  with q(1) cfg readkey os' show ?thesis
    by (simp add: load_from_disk_def fs_read_def quiet_def parse_settings_def)
qed

theorem save_then_load_witness:
  "let ns = \<lparr>nonce_srt = replicate 12 CHR ''a'', nonce_user = replicate 12 CHR ''b'', nonce_pass = replicate 12 CHR ''c''\<rparr>;
       k = plain_crates (default_persisted (replicate 8 0)); s = app_settings_default (replicate 8 0);
       run = save_to_disk calm_os k 0 (replicate 32 CHR ''k'') ns s Map.empty
   in fst run = Inr () \<and> (\<exists>s'. fst (load_from_disk calm_os k (final_fs Map.empty (snd run))) = Some s' \<and> same_settings s s')"
proof -
  let ?ns = "\<lparr>nonce_srt = replicate 12 CHR ''a'', nonce_user = replicate 12 CHR ''b'', nonce_pass = replicate 12 CHR ''c''\<rparr>"
  let ?s = "app_settings_default (replicate 8 0)"
  let ?k = "plain_crates (default_persisted (replicate 8 0))"
  let ?run = "save_to_disk calm_os ?k 0 (replicate 32 CHR ''k'') ?ns ?s Map.empty"
  have ok: "fst ?run = Inr ()"
    by (simp add: save_to_disk_def get_or_create_key_at_def read_key_from_def fs_read_def write_key_to_def
        atomic_write_def path_parent_def path_file_name_def calm_os_def save_settings_to_path_def
        serialize_settings_with_srt_encryptor_def default_persisted_written map_config_error_def
        plain_crates_def Let_def)
      (simp add: config_path_def key_path_def config_dir_def)
  then have "?run = (Inr (), snd ?run)" by (simp add: prod_eq_iff)
  from save_then_load [OF plain_crates_laws _ _ _ _ _ _ _ calm_os_quiet _ this] ok show ?thesis
    by (auto simp: Let_def app_settings_default_def srt_server_default_def)
qed

text \<open>a passphrase that could not be decrypted at load is written back as the same
  ciphertext by every later save, under whatever key, until the user replaces or clears it.\<close>

theorem undecryptable_passphrase_preserved:
  assumes "runtime_settings_from_persisted k p key = Inr s" "ss_passphrase (srt_server s) = Unavailable c"
    and "persisted_settings_with_srt_encryptor k ns s key' enc = Inr p'"
  shows "ps_passphrase (pe_srt_server p') = ps_passphrase (pe_srt_server p) \<and> c = ps_passphrase (pe_srt_server p)"
proof -
  have "ss_passphrase (srt_server s) = resolve_srt_passphrase k (ps_passphrase (pe_srt_server p)) key"
    using assms(1)
    by (auto simp: runtime_settings_from_persisted_def res_bind_Inr_iff normalize_restream_servers_def
        validate_prospective_iff Let_def split: prod.splits if_splits)
  with assms(2) have "c = ps_passphrase (pe_srt_server p)"
    by (auto simp: resolve_srt_passphrase_def split: if_splits option.splits)
  with assms(2,3) show ?thesis
    by (auto simp: persisted_settings_with_srt_encryptor_def res_bind_Inr_iff validate_prospective_iff
        persisted_passphrase_def split: if_splits)
qed

theorem undecryptable_passphrase_preserved_witness:
  "let k = plain_crates (default_persisted (replicate 8 0));
       p = (default_persisted (replicate 8 0))\<lparr>pe_srt_server := persisted_srt_default\<lparr>ps_passphrase := ''Zm9v''\<rparr>\<rparr>
   in \<exists>s p'. runtime_settings_from_persisted k p None = Inr s \<and> ss_passphrase (srt_server s) = Unavailable ''Zm9v''
        \<and> persisted_settings_with_srt_encryptor k fixed_nonces s (replicate 32 CHR ''k'') (\<lambda>_ _. Inr ''x'') = Inr p'
        \<and> ps_passphrase (pe_srt_server p') = ''Zm9v''"
proof -
  let ?k = "plain_crates (default_persisted (replicate 8 0))"
  let ?p = "(default_persisted (replicate 8 0))\<lparr>pe_srt_server := persisted_srt_default\<lparr>ps_passphrase := ''Zm9v''\<rparr>\<rparr>"
  let ?s = "(app_settings_default (replicate 8 0))\<lparr>srt_server := srt_server_default\<lparr>ss_passphrase := Unavailable ''Zm9v''\<rparr>\<rparr>"
  have valid: "settings_valid ?s"
    using default_settings_valid [of "replicate 8 0"]
    by (simp add: settings_valid_def Let_def app_settings_default_def srt_server_default_def passphrase_ok_def)
  have load: "runtime_settings_from_persisted ?k ?p None = Inr ?s"
    using normalize_of_valid [OF valid] valid
    by (simp add: runtime_settings_from_persisted_def resolve_credentials_def resolve_srt_passphrase_def
        default_persisted_def persisted_srt_default_def app_settings_default_def srt_server_default_def
        validate_prospective_iff)
  have "validate_prospective_settings ?s = Inr ?s"
    using valid by (simp add: validate_prospective_iff)
  then have "\<exists>p'. persisted_settings_with_srt_encryptor ?k fixed_nonces ?s (replicate 32 CHR ''k'') (\<lambda>_ _. Inr ''x'') = Inr p'"
    by (simp add: persisted_settings_with_srt_encryptor_def persisted_passphrase_def)
  then obtain p' where save: "persisted_settings_with_srt_encryptor ?k fixed_nonces ?s (replicate 32 CHR ''k'') (\<lambda>_ _. Inr ''x'') = Inr p'"
    by blast
  from undecryptable_passphrase_preserved [OF load _ save, of "''Zm9v''"] load save show ?thesis
    by (auto simp: Let_def)
qed

lemma align_row_get:
  "hm_get (align_row now (subnet, address) m) k =
     (if k = subnet then hm_get (align_row now (subnet, address) m) subnet else hm_get m k)"
  by (simp add: align_row_def Let_def hm_simps)

lemma align_row_address:
  "\<exists>row. hm_get (align_row now (subnet, address) m) subnet = Some row \<and> am_address row \<noteq> None"
  by (auto simp: align_row_def Let_def hm_simps split: option.splits)

lemma align_fold_address:
  assumes "k \<in> fst ` set rows \<or> (\<exists>row. hm_get m k = Some row \<and> am_address row \<noteq> None)"
  shows "\<exists>row. hm_get (fold (align_row now) rows m) k = Some row \<and> am_address row \<noteq> None"
  using assms
proof (induction rows arbitrary: m)
  case (Cons r rows)
  obtain subnet address where r: "r = (subnet, address)" by (cases r)
  have "k \<in> fst ` set rows \<or> (\<exists>row. hm_get (align_row now r m) k = Some row \<and> am_address row \<noteq> None)"
    using Cons.prems align_row_address [of now subnet address m] align_row_get [of now subnet address m k]
    by (auto simp: r)
  from Cons.IH [OF this] show ?case by simp
qed simp

text \<open>C31: whatever the files contain and whichever reads fail, the program starts with settings
  the validator accepts, and every adopted subnet has a lifecycle row that names its address.\<close>

theorem start_settings_sane:
  assumes "length random8 = 8" "load_or_default os k counter random8 now fs = (c, fs')"
  shows "validate_prospective_settings (cfg_settings c) = Inr (cfg_settings c)
    \<and> (\<forall>subnet. hm_contains subnet (adopted_subnets (cfg_settings c)) \<longrightarrow>
         (\<exists>row. hm_get (adopted_meta_map (cfg_settings c)) subnet = Some row \<and> am_address row \<noteq> None))"
proof -
  obtain loaded notices fs1 where load: "load_from_disk os k fs = (loaded, notices, fs1)" by (metis prod.collapse)
  define s0 where "s0 = (case loaded of Some s \<Rightarrow> s | None \<Rightarrow> app_settings_default random8)"
  have parsed: "settings_valid x" if "parse_settings os k content path key fs = (Some x, n, g)" for x n g content path key
    using that by (auto simp: parse_settings_def runtime_settings_from_persisted_def res_bind_Inr_iff
        validate_prospective_iff Let_def split: sum.splits prod.splits)
  have "settings_valid s0"
    using load default_settings_valid [OF assms(1)] parsed
    by (cases loaded) (auto simp: s0_def load_from_disk_def Let_def split: sum.splits)
  moreover have c: "cfg_settings c = s0\<lparr>adopted_meta_map := align_adopted_meta (adopted_subnets s0) (adopted_meta_map s0) now\<rparr>"
    using assms(2) by (auto simp: load_or_default_def load s0_def Let_def split: prod.splits option.splits)
  ultimately have "settings_valid (cfg_settings c)"
    by (auto intro: settings_valid_cong)
  moreover have "\<exists>row. hm_get (adopted_meta_map (cfg_settings c)) subnet = Some row \<and> am_address row \<noteq> None"
    if "hm_contains subnet (adopted_subnets (cfg_settings c))" for subnet
    using that align_fold_address [of subnet "adopted_subnets s0"]
    by (simp add: c align_adopted_meta_def hm_contains_set)
  ultimately show ?thesis
    by (simp only: validate_prospective_iff simp_thms) blast
qed

theorem start_settings_sane_witness:
  "settings_valid (cfg_settings (fst (load_or_default calm_os (plain_crates (default_persisted [])) 0 (replicate 8 1)
     ''2026-01-01T00:00:00Z'' (Map.empty(config_path \<mapsto> ''garbage'')))))"
  using start_settings_sane [of "replicate 8 1" calm_os "plain_crates (default_persisted [])" 0
      "''2026-01-01T00:00:00Z''" "Map.empty(config_path \<mapsto> ''garbage'')"]
  by (metis length_replicate prod.collapse validate_prospective_iff)

end
