(* ===== verification/Device_Registry.thy ===== *)
theory Device_Registry
  imports Config_Store "HOL-Library.Multiset"
begin

text \<open>
  \<open>DeviceRegistry\<close> of \<open>network/device_registry.rs\<close>: the device records by identity, the
  deadlines of their presence evidence, and the adapter whose proofs count. Every method
  takes the devices lock for its whole body, so each is one function on the registry.

  The wall-clock parser \<open>chrono::DateTime::parse_from_rfc3339\<close> is the argument \<open>rfc\<close>; the
  current wall time and the current monotonic instant are arguments too. An \<open>expect\<close> that
  fails is the value \<open>None\<close>.
\<close>

section \<open>Records\<close>

datatype device_status =
    Live | Verifying | Offline | CachedOnly | OfflineNonWiredSubnet | OfflineHostOwnedIp
  | OfflineDifferentDevice | OfflineAmbiguousRole

record device_record =
  dr_verified_by_mac :: "string option"
  dr_last_verified_at :: "string option"
  dr_mac :: string
  dr_ip :: string
  dr_subnet :: string
  dr_open_ports :: "u16 list"
  dr_alias :: string
  dr_status :: device_status
  dr_first_seen :: string
  dr_last_seen :: string

record arp_device =
  ad_mac :: string
  ad_ip :: string
  ad_subnet :: string
  ad_first_seen :: string
  ad_last_seen :: string

record merge_result =
  mr_changed :: bool
  mr_dropped_macs :: "string list"

definition merge_result_default :: merge_result where
  "merge_result_default = \<lparr>mr_changed = False, mr_dropped_macs = []\<rparr>"

type_synonym device_map = "(string, device_record) hashmap"

record device_registry =
  rg_devices :: device_map
  rg_evidence :: "(string, instant) hashmap"
  rg_scope :: "string option option"

definition FRESHNESS :: instant where
  "FRESHNESS = 15000"

definition device_registry_new :: device_registry where
  "device_registry_new = \<lparr>rg_devices = [], rg_evidence = [], rg_scope = None\<rparr>"

definition change_status :: "device_status \<Rightarrow> device_record \<Rightarrow> device_record" where
  "change_status to r = (if dr_status r \<noteq> to then r\<lparr>dr_status := to\<rparr> else r)"

definition record_key_for_mac :: "device_map \<Rightarrow> string \<Rightarrow> string option" where
  "record_key_for_mac m mac =
     (if hm_contains mac m then Some mac else List.find (\<lambda>key. same_mac key mac) (map fst m))"

definition subnet_for :: "string \<Rightarrow> string" where
  "subnet_for ip =
     (case parse_ipv4 ip of
        Some (Ipv4 a b c d) \<Rightarrow> show_u8 a @ ''.'' @ show_u8 b @ ''.'' @ show_u8 c @ ''.0/24''
      | None \<Rightarrow> ''0.0.0.0/24'')"

definition ROLE_ALIASES :: "string list" where
  "ROLE_ALIASES = [''CAM'', ''PTU'']"

definition is_role_alias :: "string \<Rightarrow> bool" where
  "is_role_alias alias \<longleftrightarrow> alias \<in> set ROLE_ALIASES"

section \<open>Removal\<close>

definition remove_by_mac :: "string \<Rightarrow> device_registry \<Rightarrow> bool \<times> device_registry" where
  "remove_by_mac mac g = (hm_contains mac (rg_devices g), g\<lparr>rg_devices := hm_remove mac (rg_devices g)\<rparr>)"

definition forget_device :: "string \<Rightarrow> device_registry \<Rightarrow> bool \<times> device_registry" where
  "forget_device mac g = (hm_contains mac (rg_devices g), g\<lparr>rg_devices := hm_remove mac (rg_devices g)\<rparr>)"

definition remove_manual_entries :: "device_registry \<Rightarrow> bool \<times> device_registry" where
  "remove_manual_entries g =
     (let kept = hm_retain (\<lambda>key _. \<not> starts_with ''manual:'' key) (rg_devices g)
      in (length (rg_devices g) \<noteq> length kept, g\<lparr>rg_devices := kept\<rparr>))"

section \<open>The ordered snapshot\<close>

definition compare_ips_le :: "string \<Rightarrow> string \<Rightarrow> bool" where
  "compare_ips_le a b =
     (case (parse_ipv4 a, parse_ipv4 b) of (Some x, Some y) \<Rightarrow> x \<le> y | _ \<Rightarrow> a \<le> b)"

definition compare_ips_eq :: "string \<Rightarrow> string \<Rightarrow> bool" where
  "compare_ips_eq a b =
     (case (parse_ipv4 a, parse_ipv4 b) of (Some x, Some y) \<Rightarrow> x = y | _ \<Rightarrow> a = b)"

definition record_le :: "device_record \<Rightarrow> device_record \<Rightarrow> bool" where
  "record_le a b =
     (if dr_subnet a \<noteq> dr_subnet b then dr_subnet a \<le> dr_subnet b
      else if \<not> compare_ips_eq (dr_ip a) (dr_ip b) then compare_ips_le (dr_ip a) (dr_ip b)
      else dr_mac a \<le> dr_mac b)"

text \<open>A stable sort by a comparison, as \<open>sort_by\<close>.\<close>

fun insert_by :: "('a \<Rightarrow> 'a \<Rightarrow> bool) \<Rightarrow> 'a \<Rightarrow> 'a list \<Rightarrow> 'a list" where
  "insert_by le x [] = [x]"
| "insert_by le x (y # ys) = (if le x y then x # y # ys else y # insert_by le x ys)"

definition sort_by :: "('a \<Rightarrow> 'a \<Rightarrow> bool) \<Rightarrow> 'a list \<Rightarrow> 'a list" where
  "sort_by le xs = foldr (insert_by le) xs []"

definition snapshot :: "device_registry \<Rightarrow> device_record list" where
  "snapshot g = sort_by record_le (hm_values (rg_devices g))"

section \<open>Hydration\<close>

definition hydrate_cached :: "cached_device \<Rightarrow> device_map \<Rightarrow> device_map" where
  "hydrate_cached entry m =
     (if cd_mac entry = [] \<or> parse_ipv4 (cd_ip entry) = None then m
      else
        let key = (case record_key_for_mac m (cd_mac entry) of Some k \<Rightarrow> k | None \<Rightarrow> cd_mac entry) in
        if (case hm_get m key of Some r \<Rightarrow> cd_last_seen entry \<le> dr_last_seen r | None \<Rightarrow> False) then m
        else hm_insert key
          \<lparr>dr_verified_by_mac = cd_verified_by_mac entry, dr_last_verified_at = cd_last_verified_at entry,
           dr_mac = key, dr_ip = cd_ip entry, dr_subnet = cd_subnet entry, dr_open_ports = cd_open_ports entry,
           dr_alias = cd_alias entry, dr_status = CachedOnly, dr_first_seen = cd_last_seen entry,
           dr_last_seen = cd_last_seen entry\<rparr> m)"

definition hydrate_from_cache :: "cached_device list \<Rightarrow> device_registry \<Rightarrow> merge_result \<times> device_registry" where
  "hydrate_from_cache cached g =
     (if rg_devices g \<noteq> [] then (merge_result_default, g)
      else let m = fold hydrate_cached cached (rg_devices g)
           in (\<lparr>mr_changed = (m \<noteq> []), mr_dropped_macs = []\<rparr>, g\<lparr>rg_devices := m\<rparr>))"

definition hydrate_manual :: "string \<Rightarrow> manual_node \<Rightarrow> bool \<times> device_map \<Rightarrow> bool \<times> device_map" where
  "hydrate_manual now node = (\<lambda>(changed, m).
     let key = (case Option.bind (mn_expected_mac node) (record_key_for_mac m) of
                  Some k \<Rightarrow> k | None \<Rightarrow> manual_node_key node)
     in case hm_get m key of
          Some existing \<Rightarrow>
            if dr_alias existing \<noteq> mn_alias node
            then (True, hm_insert key (existing\<lparr>dr_alias := mn_alias node\<rparr>) m)
            else (changed, m)
        | None \<Rightarrow>
            (True, hm_insert key
              \<lparr>dr_verified_by_mac = None, dr_last_verified_at = None, dr_mac = key, dr_ip = mn_ip node,
               dr_subnet = subnet_for (mn_ip node), dr_open_ports = [], dr_alias = mn_alias node,
               dr_status = Offline, dr_first_seen = now, dr_last_seen = now\<rparr> m))"

definition hydrate_manual_nodes :: "string \<Rightarrow> manual_node list \<Rightarrow> device_registry \<Rightarrow> bool \<times> device_registry" where
  "hydrate_manual_nodes now nodes g =
     (let (changed, m) = fold (hydrate_manual now) nodes (False, rg_devices g)
      in (changed, g\<lparr>rg_devices := m\<rparr>))"

section \<open>Observations and proofs\<close>

definition claims_address :: "string \<Rightarrow> string \<Rightarrow> device_record \<Rightarrow> bool" where
  "claims_address key ip r \<longleftrightarrow> dr_ip r = ip \<and> dr_mac r \<noteq> key \<and> dr_status r \<noteq> Offline"

definition refresh_existing :: "arp_device \<Rightarrow> bool \<Rightarrow> device_record \<Rightarrow> bool \<times> device_record" where
  "refresh_existing dev promote_legacy e0 =
     (let (c1, e1) = (if dr_ip e0 \<noteq> ad_ip dev
                      then (True, e0\<lparr>dr_ip := ad_ip dev, dr_verified_by_mac := None, dr_last_verified_at := None\<rparr>)
                      else (False, e0));
          (c2, e2) = (if dr_subnet e1 \<noteq> ad_subnet dev then (True, e1\<lparr>dr_subnet := ad_subnet dev\<rparr>) else (c1, e1));
          (c3, e3) = (if dr_last_seen e2 \<noteq> ad_last_seen dev then (True, e2\<lparr>dr_last_seen := ad_last_seen dev\<rparr>) else (c2, e2))
      in if promote_legacy \<and> dr_status e3 \<in> {CachedOnly, OfflineNonWiredSubnet, OfflineHostOwnedIp}
         then (True, change_status Live e3) else (c3, e3))"

definition merge_arp_locked :: "arp_device \<Rightarrow> bool \<Rightarrow> device_map \<Rightarrow> merge_result \<times> device_map" where
  "merge_arp_locked dev promote_legacy m =
     (let key = (case record_key_for_mac m (ad_mac dev) of Some k \<Rightarrow> k | None \<Rightarrow> ad_mac dev);
          retired = list_ex (claims_address key (ad_ip dev)) (hm_values m);
          m1 = hm_map (\<lambda>_ r. if claims_address key (ad_ip dev) r then change_status Offline r else r) m;
          (upsert, m2) =
            (case hm_get m1 key of
               Some existing \<Rightarrow>
                 (let (c, e) = refresh_existing dev promote_legacy existing in (c, hm_insert key e m1))
             | None \<Rightarrow>
                 (True, hm_insert key
                   \<lparr>dr_verified_by_mac = None, dr_last_verified_at = None, dr_mac = key, dr_ip = ad_ip dev,
                    dr_subnet = ad_subnet dev, dr_open_ports = [], dr_alias = [], dr_status = Live,
                    dr_first_seen = ad_first_seen dev, dr_last_seen = ad_last_seen dev\<rparr> m1))
      in (\<lparr>mr_changed = (upsert \<or> retired), mr_dropped_macs = []\<rparr>, m2))"

definition merge_arp :: "arp_device \<Rightarrow> device_registry \<Rightarrow> merge_result \<times> device_registry" where
  "merge_arp dev g =
     (if rg_scope g \<noteq> None then (merge_result_default, g)
      else let (r, m) = merge_arp_locked dev True (rg_devices g) in (r, g\<lparr>rg_devices := m\<rparr>))"

definition merge_arp_fenced :: "arp_device \<Rightarrow> sweep_fence \<Rightarrow> device_registry \<Rightarrow> merge_result \<times> device_registry" where
  "merge_arp_fenced dev fence g =
     (if is_stale fence \<or> rg_scope g \<noteq> None then (merge_result_default, g)
      else let (r, m) = merge_arp_locked dev True (rg_devices g) in (r, g\<lparr>rg_devices := m\<rparr>))"

definition verification_valid :: "(string \<Rightarrow> int option) \<Rightarrow> arp_device \<Rightarrow> string \<Rightarrow> string \<Rightarrow> bool" where
  "verification_valid rfc dev adapter verified_at \<longleftrightarrow>
     canonical_mac adapter \<noteq> None \<and> canonical_mac (ad_mac dev) \<noteq> None \<and> rfc verified_at \<noteq> None
     \<and> (case parse_ipv4 (ad_ip dev) of None \<Rightarrow> False | Some ip \<Rightarrow> \<not> prohibited_camera_ip ip)
     \<and> \<not> same_mac adapter (ad_mac dev)"

definition has_newer_proof :: "(string \<Rightarrow> int option) \<Rightarrow> device_map \<Rightarrow> arp_device \<Rightarrow> string \<Rightarrow> bool" where
  "has_newer_proof rfc m dev at =
     (case rfc at of
        None \<Rightarrow> True
      | Some incoming \<Rightarrow>
          list_ex (\<lambda>r. dr_status r = Live \<and> (same_mac (dr_mac r) (ad_mac dev) \<or> dr_ip r = ad_ip dev)
              \<and> (case Option.bind (dr_last_verified_at r) rfc of None \<Rightarrow> False | Some existing \<Rightarrow> incoming < existing))
            (hm_values m))"

definition proof_allowed :: "device_registry \<Rightarrow> string \<Rightarrow> bool" where
  "proof_allowed g adapter =
     (case rg_scope g of
        None \<Rightarrow> True
      | Some (Some expected) \<Rightarrow> canonical_mac adapter = Some expected
      | Some None \<Rightarrow> False)"

definition merge_verified_locked ::
    "instant \<Rightarrow> arp_device \<Rightarrow> string \<Rightarrow> string \<Rightarrow> device_registry \<Rightarrow> (merge_result \<times> device_registry) option" where
  "merge_verified_locked now dev adapter verified_at g =
     (let (r, m) = merge_arp_locked dev False (rg_devices g) in
      case record_key_for_mac m (ad_mac dev) of
        None \<Rightarrow> None
      | Some key \<Rightarrow>
          (case (hm_get m key, canonical_mac adapter) of
             (Some rec, Some ad) \<Rightarrow>
               Some (r\<lparr>mr_changed := mr_changed r \<or> dr_verified_by_mac rec \<noteq> Some ad
                        \<or> dr_last_verified_at rec \<noteq> Some verified_at \<or> dr_status rec \<noteq> Live\<rparr>,
                     g\<lparr>rg_devices := hm_insert key
                          (change_status Live (rec\<lparr>dr_verified_by_mac := Some ad, dr_last_verified_at := Some verified_at\<rparr>)) m,
                       rg_evidence := hm_insert (dr_mac rec) (now + FRESHNESS) (rg_evidence g)\<rparr>)
           | _ \<Rightarrow> None))"

definition merge_verified ::
    "(string \<Rightarrow> int option) \<Rightarrow> instant \<Rightarrow> arp_device \<Rightarrow> string \<Rightarrow> string \<Rightarrow> sweep_fence \<Rightarrow> device_registry
      \<Rightarrow> (merge_result \<times> device_registry) option" where
  "merge_verified rfc now dev adapter verified_at fence g =
     (if \<not> verification_valid rfc dev adapter verified_at then Some (merge_result_default, g)
      else if is_stale fence \<or> \<not> proof_allowed g adapter \<or> has_newer_proof rfc (rg_devices g) dev verified_at
      then Some (merge_result_default, g)
      else merge_verified_locked now dev adapter verified_at g)"

definition merge_manual_verified ::
    "(string \<Rightarrow> int option) \<Rightarrow> instant \<Rightarrow> manual_node \<Rightarrow> arp_device \<Rightarrow> string \<Rightarrow> string \<Rightarrow> sweep_fence
      \<Rightarrow> device_registry \<Rightarrow> (merge_result \<times> device_registry) option" where
  "merge_manual_verified rfc now node dev adapter verified_at fence g =
     (if mn_ip node \<noteq> ad_ip dev \<or> \<not> verification_valid rfc dev adapter verified_at
      then Some (merge_result_default, g)
      else if is_stale fence \<or> \<not> proof_allowed g adapter \<or> has_newer_proof rfc (rg_devices g) dev verified_at
      then Some (merge_result_default, g)
      else
        let expected = (case mn_expected_mac node of Some e \<Rightarrow> e | None \<Rightarrow> ad_mac dev);
            expected_key = (case record_key_for_mac (rg_devices g) expected of Some k \<Rightarrow> k | None \<Rightarrow> expected)
        in case merge_verified_locked now dev adapter verified_at g of
             None \<Rightarrow> None
           | Some (r, g1) \<Rightarrow>
               if \<not> same_mac expected (ad_mac dev) then
                 (case hm_get (rg_devices g1) expected_key of
                    None \<Rightarrow> Some (r, g1)
                  | Some old \<Rightarrow>
                      Some (r\<lparr>mr_changed := mr_changed r \<or> dr_status old \<noteq> OfflineDifferentDevice\<rparr>,
                            g1\<lparr>rg_devices := hm_insert expected_key (change_status OfflineDifferentDevice old) (rg_devices g1)\<rparr>))
               else
                 (let manual_key = ''manual:'' @ mn_ip node;
                      pin = hm_get (rg_devices g1) manual_key;
                      m = hm_remove manual_key (rg_devices g1)
                  in case record_key_for_mac m (ad_mac dev) of
                       None \<Rightarrow> None
                     | Some key \<Rightarrow>
                         (let alias = (case pin of
                                         Some p \<Rightarrow> if dr_alias p \<noteq> [] then dr_alias p else mn_alias node
                                       | None \<Rightarrow> mn_alias node);
                              (named, m') =
                                (case hm_get m key of
                                   Some rec \<Rightarrow> if alias \<noteq> [] \<and> dr_alias rec \<noteq> alias
                                               then (True, hm_insert key (rec\<lparr>dr_alias := alias\<rparr>) m) else (False, m)
                                 | None \<Rightarrow> (False, m))
                          in Some (r\<lparr>mr_changed := mr_changed r \<or> named \<or> pin \<noteq> None\<rparr>, g1\<lparr>rg_devices := m'\<rparr>))))"

section \<open>Other mutators\<close>

definition cache_record :: "string \<Rightarrow> device_registry \<Rightarrow> cached_device option" where
  "cache_record key g =
     (case hm_get (rg_devices g) key of
        None \<Rightarrow> None
      | Some r \<Rightarrow>
          if dr_open_ports r = [] \<and> (dr_verified_by_mac r = None \<or> dr_last_verified_at r = None) then None
          else Some \<lparr>cd_verified_by_mac = dr_verified_by_mac r, cd_last_verified_at = dr_last_verified_at r,
                     cd_mac = dr_mac r, cd_ip = dr_ip r, cd_subnet = dr_subnet r, cd_open_ports = dr_open_ports r,
                     cd_alias = dr_alias r, cd_last_seen = dr_last_seen r\<rparr>)"

definition merge_scan_result_fenced ::
    "string \<Rightarrow> u16 list \<Rightarrow> sweep_fence option \<Rightarrow> device_registry \<Rightarrow> bool \<times> device_registry" where
  "merge_scan_result_fenced key open_ports fence g =
     (if (case fence of None \<Rightarrow> False | Some f \<Rightarrow> is_stale f) then (False, g)
      else (case hm_get (rg_devices g) key of
              Some r \<Rightarrow>
                if dr_open_ports r \<noteq> open_ports
                then (True, g\<lparr>rg_devices := hm_insert key (r\<lparr>dr_open_ports := open_ports\<rparr>) (rg_devices g)\<rparr>)
                else (False, g)
            | None \<Rightarrow> (False, g)))"

definition holders :: "string \<Rightarrow> device_map \<Rightarrow> nat" where
  "holders role m = length (filter (\<lambda>r. dr_alias r = role) (hm_values m))"

definition assign_alias :: "string \<Rightarrow> string \<Rightarrow> device_record \<Rightarrow> device_record" where
  "assign_alias key alias r =
     (if dr_mac r = key then (if dr_alias r \<noteq> alias then r\<lparr>dr_alias := alias\<rparr> else r)
      else if is_role_alias alias \<and> dr_alias r = alias then r\<lparr>dr_alias := []\<rparr> else r)"

definition resolve_role :: "string list \<Rightarrow> device_record \<Rightarrow> device_record" where
  "resolve_role ambiguous r =
     (if dr_status r = OfflineAmbiguousRole \<and> dr_alias r \<notin> set ambiguous then change_status Offline r else r)"

definition set_alias :: "string \<Rightarrow> string \<Rightarrow> device_registry \<Rightarrow> string list \<times> device_registry" where
  "set_alias key alias g =
     (if \<not> hm_contains key (rg_devices g) then ([], g)
      else
        let m = rg_devices g;
            m1 = hm_map (\<lambda>_. assign_alias key alias) m;
            changed1 = map dr_mac (filter (\<lambda>r. assign_alias key alias r \<noteq> r) (hm_values m));
            ambiguous = filter (\<lambda>role. 1 < holders role m1) ROLE_ALIASES;
            m2 = hm_map (\<lambda>_. resolve_role ambiguous) m1;
            changed2 = map dr_mac (filter (\<lambda>r. resolve_role ambiguous r \<noteq> r) (hm_values m1))
        in (remdups_adj (sort (changed1 @ changed2)), g\<lparr>rg_devices := m2\<rparr>))"

definition mark_ambiguous :: "string \<Rightarrow> string list \<times> device_map \<Rightarrow> string list \<times> device_map" where
  "mark_ambiguous role = (\<lambda>(changed, m).
     if holders role m < 2 then (changed, m)
     else (changed @ map dr_mac (filter (\<lambda>r. dr_alias r = role \<and> dr_status r \<noteq> OfflineAmbiguousRole) (hm_values m)),
           hm_map (\<lambda>_ r. if dr_alias r = role then change_status OfflineAmbiguousRole r else r) m))"

definition normalize_role_duplicates :: "device_registry \<Rightarrow> string list \<times> device_registry" where
  "normalize_role_duplicates g =
     (let (changed, m) = fold mark_ambiguous ROLE_ALIASES ([], rg_devices g)
      in (sort changed, g\<lparr>rg_devices := m\<rparr>))"

definition set_status :: "string \<Rightarrow> device_status \<Rightarrow> device_registry \<Rightarrow> bool \<times> device_registry" where
  "set_status mac status g =
     (if status = Live then (False, g)
      else (case hm_get (rg_devices g) mac of
              Some r \<Rightarrow>
                if dr_status r \<noteq> status
                then (True, g\<lparr>rg_devices := hm_insert mac (change_status status r) (rg_devices g)\<rparr>)
                else (False, g)
            | None \<Rightarrow> (False, g)))"

definition set_verification_scope :: "string option \<Rightarrow> device_registry \<Rightarrow> device_registry" where
  "set_verification_scope adapter g = g\<lparr>rg_scope := Some (Option.bind adapter canonical_mac)\<rparr>"

definition remember_verified_at ::
    "string \<Rightarrow> string \<Rightarrow> instant \<Rightarrow> sweep_fence \<Rightarrow> device_registry \<Rightarrow> device_registry" where
  "remember_verified_at mac wall at fence g =
     (if is_stale fence then g
      else (case record_key_for_mac (rg_devices g) mac of
              Some key \<Rightarrow>
                (case hm_get (rg_devices g) key of
                   Some r \<Rightarrow>
                     if dr_last_verified_at r = Some wall
                     then g\<lparr>rg_evidence := hm_insert key (at + FRESHNESS) (rg_evidence g)\<rparr> else g
                 | None \<Rightarrow> g)
            | None \<Rightarrow> g))"

definition evidence_gone :: "instant \<Rightarrow> (string, instant) hashmap \<Rightarrow> device_record \<Rightarrow> bool" where
  "evidence_gone now deadlines r \<longleftrightarrow>
     dr_status r = Live \<and> (case hm_get deadlines (dr_mac r) of None \<Rightarrow> True | Some t \<Rightarrow> t \<le> now)"

definition expire_evidence :: "instant \<Rightarrow> device_registry \<Rightarrow> bool \<times> device_registry" where
  "expire_evidence now g =
     (let m = hm_map (\<lambda>_ r. if evidence_gone now (rg_evidence g) r then change_status Offline r else r) (rg_devices g)
      in (list_ex (evidence_gone now (rg_evidence g)) (hm_values (rg_devices g)),
          g\<lparr>rg_devices := m,
             rg_evidence := hm_retain (\<lambda>key time. hm_contains key m \<and> now < time) (rg_evidence g)\<rparr>))"

definition expire_all :: "device_registry \<Rightarrow> bool \<times> device_registry" where
  "expire_all g =
     (list_ex (\<lambda>r. dr_status r = Live) (hm_values (rg_devices g)),
      g\<lparr>rg_devices := hm_map (\<lambda>_ r. if dr_status r = Live then change_status Offline r else r) (rg_devices g),
         rg_evidence := []\<rparr>)"

end
