(* ===== verification/Registry_Invariants.thy ===== *)
theory Registry_Invariants
  imports Device_Registry
begin

unbundle bit_operations_syntax

text \<open>
  What the device registry keeps over any sequence of its mutators once the verification
  scope is installed (which setup does before any discovery starts): every record is stored
  under its own identity, no two records name one interface, a record is \<open>Live\<close> only on the
  strength of a proof whose deadline is recorded, and at most one record per address is
  \<open>Live\<close>.
\<close>

section \<open>Identities\<close>

definition reg_keys :: "device_map \<Rightarrow> bool" where
  "reg_keys m \<longleftrightarrow> hm_wf m \<and> (\<forall>k r. hm_get m k = Some r \<longrightarrow> dr_mac r = k)
     \<and> (\<forall>k k'. hm_contains k m \<longrightarrow> hm_contains k' m \<longrightarrow> same_mac k k' \<longrightarrow> k = k')"

lemma rk_Some: "record_key_for_mac m mac = Some k \<Longrightarrow> hm_contains k m \<and> same_mac k mac"
  by (auto simp: record_key_for_mac_def hm_contains_set find_Some_iff same_mac_refl split: if_splits)

lemma rk_None: "record_key_for_mac m mac = None \<Longrightarrow> hm_contains k m \<Longrightarrow> \<not> same_mac k mac"
  by (auto simp: record_key_for_mac_def hm_contains_set find_None_iff split: if_splits)

lemma rk_unique:
  assumes "reg_keys m" "hm_contains k m" "same_mac k mac"
  shows "record_key_for_mac m mac = Some k"
proof (cases "record_key_for_mac m mac")
  case None
  with rk_None assms show ?thesis by blast
next
  case (Some k')
  with rk_Some [OF Some] assms same_mac_trans same_mac_sym have "k' = k"
    unfolding reg_keys_def by metis
  with Some show ?thesis by simp
qed

lemma reg_keys_map:
  "reg_keys m \<Longrightarrow> (\<And>k r. hm_get m k = Some r \<Longrightarrow> dr_mac (f k r) = dr_mac r) \<Longrightarrow> reg_keys (hm_map f m)"
  by (auto simp: reg_keys_def wf_intros hm_simps hm_contains_def)

lemma reg_keys_insert_old:
  "reg_keys m \<Longrightarrow> hm_contains k m \<Longrightarrow> dr_mac r = k \<Longrightarrow> reg_keys (hm_insert k r m)"
  by (auto simp: reg_keys_def wf_intros hm_simps hm_contains_def split: if_splits)

lemma reg_keys_insert_new:
  assumes "reg_keys m" "\<And>k'. hm_contains k' m \<Longrightarrow> \<not> same_mac k' k" "dr_mac r = k"
  shows "reg_keys (hm_insert k r m)"
  using assms same_mac_sym
  by (auto simp: reg_keys_def wf_intros hm_simps hm_contains_def split: if_splits)

lemma reg_keys_remove: "reg_keys m \<Longrightarrow> reg_keys (hm_remove k m)"
  by (auto simp: reg_keys_def wf_intros hm_simps hm_contains_def split: if_splits)

lemma reg_keys_retain: "reg_keys m \<Longrightarrow> reg_keys (hm_retain p m)"
  by (auto simp: reg_keys_def wf_intros hm_simps hm_contains_def split: option.splits if_splits)

text \<open>The key a mutator picks for an identity either holds a record already or can be added.\<close>

definition pick_key :: "device_map \<Rightarrow> string \<Rightarrow> string" where
  "pick_key m mac = (case record_key_for_mac m mac of Some k \<Rightarrow> k | None \<Rightarrow> mac)"

lemma same_mac_pick: "same_mac (pick_key m mac) mac"
  using rk_Some by (auto simp: pick_key_def same_mac_refl split: option.splits)

lemma reg_keys_insert_picked:
  assumes "reg_keys m" "dr_mac r = pick_key m mac"
  shows "reg_keys (hm_insert (pick_key m mac) r m)"
proof (cases "record_key_for_mac m mac")
  case None
  with assms rk_None [OF None] show ?thesis
    by (auto simp: pick_key_def intro!: reg_keys_insert_new)
next
  case (Some k)
  with assms rk_Some [OF Some] show ?thesis
    by (auto simp: pick_key_def intro!: reg_keys_insert_old)
qed

lemma hm_contains_map [simp]: "hm_contains k (hm_map f m) = hm_contains k m"
  by (simp add: hm_contains_def hm_simps)

lemma record_key_map [simp]: "record_key_for_mac (hm_map f m) mac = record_key_for_mac m mac"
  by (simp add: record_key_for_mac_def)

lemma change_status_simps [simp]:
  "dr_mac (change_status st r) = dr_mac r" "dr_ip (change_status st r) = dr_ip r"
  "dr_status (change_status st r) = st" "dr_alias (change_status st r) = dr_alias r"
  "dr_verified_by_mac (change_status st r) = dr_verified_by_mac r"
  "dr_last_verified_at (change_status st r) = dr_last_verified_at r"
  by (simp_all add: change_status_def)

lemma change_status_neq [simp]: "dr_status r \<noteq> st \<Longrightarrow> change_status st r \<noteq> r"
  by (metis change_status_simps(3))

section \<open>Liveness rests on proof\<close>

definition is_live :: "device_map \<Rightarrow> string \<Rightarrow> string \<Rightarrow> bool" where
  "is_live m k ip \<longleftrightarrow> (\<exists>r. hm_get m k = Some r \<and> dr_status r = Live \<and> dr_ip r = ip)"

definition live_backed :: "device_registry \<Rightarrow> bool" where
  "live_backed g \<longleftrightarrow> (\<forall>k r. hm_get (rg_devices g) k = Some r \<longrightarrow> dr_status r = Live \<longrightarrow>
     hm_contains k (rg_evidence g) \<and> dr_verified_by_mac r \<noteq> None \<and> dr_last_verified_at r \<noteq> None)"

definition live_unique :: "device_map \<Rightarrow> bool" where
  "live_unique m \<longleftrightarrow> (\<forall>k k' ip. is_live m k ip \<longrightarrow> is_live m k' ip \<longrightarrow> k = k')"

definition device_inv :: "device_registry \<Rightarrow> bool" where
  "device_inv g \<longleftrightarrow> rg_scope g \<noteq> None \<and> hm_wf (rg_evidence g) \<and> reg_keys (rg_devices g) \<and> live_backed g
     \<and> live_unique (rg_devices g)"

text \<open>A change that makes nothing live and moves no live record keeps the two liveness rules.\<close>

definition no_new_live :: "device_map \<Rightarrow> device_map \<Rightarrow> bool" where
  "no_new_live m m' \<longleftrightarrow> (\<forall>k r'. hm_get m' k = Some r' \<longrightarrow> dr_status r' = Live \<longrightarrow>
     (\<exists>r. hm_get m k = Some r \<and> dr_status r = Live \<and> dr_ip r = dr_ip r'
        \<and> dr_verified_by_mac r = dr_verified_by_mac r' \<and> dr_last_verified_at r = dr_last_verified_at r'))"

lemma no_new_live_is_live: "no_new_live m m' \<Longrightarrow> is_live m' k ip \<Longrightarrow> is_live m k ip"
  unfolding no_new_live_def is_live_def by metis

lemma no_new_live_unique: "no_new_live m m' \<Longrightarrow> live_unique m \<Longrightarrow> live_unique m'"
  unfolding live_unique_def by (meson no_new_live_is_live)

lemma no_new_live_backed:
  assumes "no_new_live (rg_devices g) m'" "live_backed g"
  shows "live_backed (g\<lparr>rg_devices := m'\<rparr>)"
  unfolding live_backed_def
proof (intro allI impI)
  fix k r'
  assume "hm_get (rg_devices (g\<lparr>rg_devices := m'\<rparr>)) k = Some r'" "dr_status r' = Live"
  with assms(1) obtain r where "hm_get (rg_devices g) k = Some r" "dr_status r = Live"
    "dr_verified_by_mac r = dr_verified_by_mac r'" "dr_last_verified_at r = dr_last_verified_at r'"
    unfolding no_new_live_def by auto
  with assms(2) show "hm_contains k (rg_evidence (g\<lparr>rg_devices := m'\<rparr>))
      \<and> dr_verified_by_mac r' \<noteq> None \<and> dr_last_verified_at r' \<noteq> None"
    unfolding live_backed_def by (metis device_registry.select_convs(2) device_registry.surjective device_registry.update_convs(1))
qed

lemma device_inv_quiet:
  assumes "device_inv g" "reg_keys m'" "no_new_live (rg_devices g) m'"
  shows "device_inv (g\<lparr>rg_devices := m'\<rparr>)"
  using assms no_new_live_unique no_new_live_backed by (auto simp: device_inv_def)

lemma no_new_live_refl [simp]: "no_new_live m m"
  by (auto simp: no_new_live_def)

lemma no_new_live_trans: "no_new_live a b \<Longrightarrow> no_new_live b c \<Longrightarrow> no_new_live a c"
  unfolding no_new_live_def by metis

lemma no_new_live_map:
  assumes "\<And>k r. dr_status (f k r) = Live \<Longrightarrow> dr_status r = Live \<and> dr_ip (f k r) = dr_ip r
      \<and> dr_verified_by_mac (f k r) = dr_verified_by_mac r \<and> dr_last_verified_at (f k r) = dr_last_verified_at r"
  shows "no_new_live m (hm_map f m)"
  using assms by (auto simp: no_new_live_def hm_simps)

lemma no_new_live_insert:
  assumes "dr_status r' = Live \<Longrightarrow> (\<exists>r. hm_get m k = Some r \<and> dr_status r = Live \<and> dr_ip r = dr_ip r'
        \<and> dr_verified_by_mac r = dr_verified_by_mac r' \<and> dr_last_verified_at r = dr_last_verified_at r')"
  shows "no_new_live m (hm_insert k r' m)"
  using assms by (auto simp: no_new_live_def hm_simps)

lemma no_new_live_remove [simp]: "no_new_live m (hm_remove k m)"
  by (auto simp: no_new_live_def hm_simps split: if_splits)

lemma no_new_live_retain: "hm_wf m \<Longrightarrow> no_new_live m (hm_retain p m)"
  by (auto simp: no_new_live_def hm_simps split: option.splits if_splits)

section \<open>A verified merge\<close>

definition retire :: "string \<Rightarrow> string \<Rightarrow> device_record \<Rightarrow> device_record" where
  "retire key ip r = (if claims_address key ip r then change_status Offline r else r)"

lemma retire_simps [simp]:
  "dr_mac (retire key ip r) = dr_mac r" "dr_ip (retire key ip r) = dr_ip r"
  "dr_verified_by_mac (retire key ip r) = dr_verified_by_mac r"
  "dr_last_verified_at (retire key ip r) = dr_last_verified_at r" "dr_alias (retire key ip r) = dr_alias r"
  by (simp_all add: retire_def)

lemma retire_live: "dr_status (retire key ip r) = Live \<Longrightarrow> dr_status r = Live \<and> (dr_ip r = ip \<longrightarrow> dr_mac r = key)"
  by (auto simp: retire_def claims_address_def split: if_splits)

lemma refresh_existing_simps:
  "dr_mac (snd (refresh_existing dev b e)) = dr_mac e" "dr_ip (snd (refresh_existing dev b e)) = ad_ip dev"
  "dr_alias (snd (refresh_existing dev b e)) = dr_alias e"
  by (auto simp: refresh_existing_def Let_def)

text \<open>The map after an observation: the others at the address are retired, the observed identity
  has a record at the address.\<close>

lemma merge_arp_locked_shape:
  fixes dev :: arp_device
  assumes "reg_keys m"
  defines "key \<equiv> pick_key m (ad_mac dev)"
  shows "\<exists>r rec. merge_arp_locked dev b m = (r, hm_insert key rec (hm_map (\<lambda>_. retire key (ad_ip dev)) m))
    \<and> dr_mac rec = key \<and> dr_ip rec = ad_ip dev
    \<and> dr_alias rec = (case hm_get m key of Some e \<Rightarrow> dr_alias e | None \<Rightarrow> [])"
proof -
  let ?m1 = "hm_map (\<lambda>_ r. if claims_address key (ad_ip dev) r then change_status Offline r else r) m"
  have m1: "?m1 = hm_map (\<lambda>_. retire key (ad_ip dev)) m"
    by (simp add: retire_def [abs_def])
  have mac: "hm_get m key = Some e \<Longrightarrow> dr_mac e = key" for e
    using assms(1) by (simp add: reg_keys_def)
  show ?thesis
  proof (cases "hm_get m key")
    case None
    then show ?thesis
      by (simp add: merge_arp_locked_def Let_def pick_key_def [symmetric] key_def [symmetric] m1 hm_simps)
        (rule exI, rule conjI [OF refl], simp)
  next
    case (Some e)
    with mac have "dr_mac e = key" by simp
    with Some show ?thesis
      by (simp add: merge_arp_locked_def Let_def pick_key_def [symmetric] key_def [symmetric] m1 hm_simps
          case_prod_beta)
        (intro conjI impI; rule exI, rule conjI [OF refl], simp add: refresh_existing_simps)
  qed
qed

lemma merge_verified_locked_shape:
  fixes dev :: arp_device
  assumes keys: "reg_keys (rg_devices g)" and ad: "canonical_mac adapter = Some ad"
  defines "key \<equiv> pick_key (rg_devices g) (ad_mac dev)"
  shows "\<exists>r rec g'. merge_verified_locked now dev adapter at g = Some (r, g')
    \<and> reg_keys (rg_devices g') \<and> rg_scope g' = rg_scope g
    \<and> rg_evidence g' = hm_insert key (now + FRESHNESS) (rg_evidence g)
    \<and> (\<forall>k. hm_get (rg_devices g') k
          = (if k = key then Some rec else map_option (retire key (ad_ip dev)) (hm_get (rg_devices g) k)))
    \<and> dr_mac rec = key \<and> dr_ip rec = ad_ip dev \<and> dr_status rec = Live
    \<and> dr_verified_by_mac rec = Some ad \<and> dr_last_verified_at rec = Some at"
proof -
  from merge_arp_locked_shape [OF keys, of dev False] obtain r rec
    where m: "merge_arp_locked dev False (rg_devices g)
        = (r, hm_insert key rec (hm_map (\<lambda>_. retire key (ad_ip dev)) (rg_devices g)))"
      and rec: "dr_mac rec = key" "dr_ip rec = ad_ip dev"
    unfolding key_def by blast
  let ?m1 = "hm_map (\<lambda>_. retire key (ad_ip dev)) (rg_devices g)"
  let ?m2 = "hm_insert key rec ?m1"
  have k1: "reg_keys ?m1" using keys by (rule reg_keys_map) simp
  have pick: "pick_key ?m1 (ad_mac dev) = key" by (simp add: pick_key_def key_def)
  have k2: "reg_keys ?m2"
    using reg_keys_insert_picked [OF k1, of rec "ad_mac dev"] rec pick by simp
  have c2: "hm_contains key ?m2" by (simp add: hm_contains_def hm_simps)
  have "same_mac key (ad_mac dev)" unfolding key_def by (rule same_mac_pick)
  from rk_unique [OF k2 c2 this] have rk: "record_key_for_mac ?m2 (ad_mac dev) = Some key" .
  let ?rec = "change_status Live (rec\<lparr>dr_verified_by_mac := Some ad, dr_last_verified_at := Some at\<rparr>)"
  have "reg_keys (hm_insert key ?rec ?m2)"
    using k2 c2 rec by (auto intro: reg_keys_insert_old)
  then show ?thesis
    by (intro exI [of _ "r\<lparr>mr_changed := mr_changed r \<or> dr_verified_by_mac rec \<noteq> Some ad
                        \<or> dr_last_verified_at rec \<noteq> Some at \<or> dr_status rec \<noteq> Live\<rparr>"] exI [of _ ?rec]
        exI [of _ "g\<lparr>rg_devices := hm_insert key ?rec ?m2, rg_evidence := hm_insert key (now + FRESHNESS) (rg_evidence g)\<rparr>"])
      (simp add: merge_verified_locked_def m rk ad rec hm_simps)
qed

lemma device_inv_verified:
  assumes inv: "device_inv g" and ad: "canonical_mac adapter = Some ad"
    and run: "merge_verified_locked now dev adapter at g = Some (r, g')"
  shows "device_inv g'"
proof -
  define key where "key = pick_key (rg_devices g) (ad_mac dev)"
  have keys: "reg_keys (rg_devices g)" using inv by (simp add: device_inv_def)
  from merge_verified_locked_shape [OF keys ad, of now dev at] run obtain rec
    where g': "reg_keys (rg_devices g')" "rg_scope g' = rg_scope g"
      "rg_evidence g' = hm_insert key (now + FRESHNESS) (rg_evidence g)"
      and get: "\<And>k. hm_get (rg_devices g') k
          = (if k = key then Some rec else map_option (retire key (ad_ip dev)) (hm_get (rg_devices g) k))"
      and rec: "dr_mac rec = key" "dr_ip rec = ad_ip dev" "dr_verified_by_mac rec = Some ad"
        "dr_last_verified_at rec = Some at"
    unfolding key_def by auto
  have mac: "dr_mac x = k" if "hm_get (rg_devices g) k = Some x" for k x
    using keys that by (simp add: reg_keys_def)
  have old: "is_live (rg_devices g) k ip \<and> ip \<noteq> ad_ip dev" if "is_live (rg_devices g') k ip" "k \<noteq> key" for k ip
    using that mac by (auto simp: is_live_def get dest!: retire_live)
  have "live_unique (rg_devices g')"
    using inv old rec unfolding device_inv_def live_unique_def by (metis get is_live_def option.sel)
  moreover have "live_backed g'"
    using inv rec
    by (auto simp: device_inv_def live_backed_def get g'(3) hm_contains_def hm_simps dest!: retire_live split: if_splits)
  ultimately show ?thesis
    using inv g' by (simp add: device_inv_def wf_intros)
qed

section \<open>Every mutator keeps the invariant\<close>

datatype registry_event =
    RvRemove string
  | RvForget string
  | RvRemoveManual
  | RvHydrateCache "cached_device list"
  | RvHydrateManual string "manual_node list"
  | RvArp arp_device
  | RvArpFenced arp_device sweep_fence
  | RvVerified instant arp_device string string sweep_fence
  | RvManualVerified instant manual_node arp_device string string sweep_fence
  | RvScan string "u16 list" "sweep_fence option"
  | RvAlias string string
  | RvNormalize
  | RvStatus string device_status
  | RvScope "string option"
  | RvRemember string string instant sweep_fence
  | RvExpire instant
  | RvExpireAll

definition after_merge :: "device_registry \<Rightarrow> (merge_result \<times> device_registry) option \<Rightarrow> device_registry" where
  "after_merge g r = (case r of None \<Rightarrow> g | Some (_, g') \<Rightarrow> g')"

fun registry_step :: "(string \<Rightarrow> int option) \<Rightarrow> registry_event \<Rightarrow> device_registry \<Rightarrow> device_registry" where
  "registry_step rfc (RvRemove mac) g = snd (remove_by_mac mac g)"
| "registry_step rfc (RvForget mac) g = snd (forget_device mac g)"
| "registry_step rfc RvRemoveManual g = snd (remove_manual_entries g)"
| "registry_step rfc (RvHydrateCache cached) g = snd (hydrate_from_cache cached g)"
| "registry_step rfc (RvHydrateManual now nodes) g = snd (hydrate_manual_nodes now nodes g)"
| "registry_step rfc (RvArp dev) g = snd (merge_arp dev g)"
| "registry_step rfc (RvArpFenced dev fence) g = snd (merge_arp_fenced dev fence g)"
| "registry_step rfc (RvVerified now dev adapter at fence) g =
     after_merge g (merge_verified rfc now dev adapter at fence g)"
| "registry_step rfc (RvManualVerified now node dev adapter at fence) g =
     after_merge g (merge_manual_verified rfc now node dev adapter at fence g)"
| "registry_step rfc (RvScan key ports fence) g = snd (merge_scan_result_fenced key ports fence g)"
| "registry_step rfc (RvAlias key alias) g = snd (set_alias key alias g)"
| "registry_step rfc RvNormalize g = snd (normalize_role_duplicates g)"
| "registry_step rfc (RvStatus mac st) g = snd (set_status mac st g)"
| "registry_step rfc (RvScope adapter) g = set_verification_scope adapter g"
| "registry_step rfc (RvRemember mac wall at fence) g = remember_verified_at mac wall at fence g"
| "registry_step rfc (RvExpire now) g = snd (expire_evidence now g)"
| "registry_step rfc RvExpireAll g = snd (expire_all g)"

lemma device_inv_keys [simp]: "device_inv g \<Longrightarrow> reg_keys (rg_devices g)"
  by (simp add: device_inv_def)

lemma reg_keys_wf: "reg_keys m \<Longrightarrow> hm_wf m"
  by (simp add: reg_keys_def)

lemma reg_keys_mac: "reg_keys m \<Longrightarrow> hm_get m k = Some r \<Longrightarrow> dr_mac r = k"
  by (simp add: reg_keys_def)

text \<open>A synthetic key of a manual pin is no MAC address.\<close>

lemma manual_key_not_mac: "canonical_mac (''manual:'' @ ip) = None"
proof -
  have radix: "from_str_radix 16 255 ''manual'' = None"
    by (simp add: from_str_radix_def to_digit_def)
  have "split_on (\<lambda>c. c = CHR '':'' \<or> c = CHR ''-'') (''manual:'' @ ip)
      = ''manual'' # split_on (\<lambda>c. c = CHR '':'' \<or> c = CHR ''-'') ip"
    by simp
  then show ?thesis
    by (simp add: canonical_mac_def parse_mac_bytes_def Let_def radix del: split_on.simps)
qed

lemma hydrate_cached_keeps:
  assumes "reg_keys m"
  shows "reg_keys (hydrate_cached entry m) \<and> no_new_live m (hydrate_cached entry m)"
  using reg_keys_insert_picked [OF assms] assms
  by (auto simp: hydrate_cached_def pick_key_def [symmetric] Let_def intro!: no_new_live_insert)

lemma hydrate_cached_fold:
  "reg_keys m \<Longrightarrow> reg_keys (fold hydrate_cached es m) \<and> no_new_live m (fold hydrate_cached es m)"
proof (induction es arbitrary: m)
  case (Cons e es)
  from hydrate_cached_keeps [OF Cons.prems, of e] Cons.IH [of "hydrate_cached e m"] show ?case
    by (auto intro: no_new_live_trans)
qed simp

lemma manual_key_new:
  assumes keys: "reg_keys m"
    and none: "hm_get m (case Option.bind (mn_expected_mac node) (record_key_for_mac m) of
                  Some k \<Rightarrow> k | None \<Rightarrow> manual_node_key node) = None"
    and c: "hm_contains k m"
  shows "\<not> same_mac k (case Option.bind (mn_expected_mac node) (record_key_for_mac m) of
                  Some k \<Rightarrow> k | None \<Rightarrow> manual_node_key node)"
proof (cases "mn_expected_mac node")
  case None
  with none c manual_key_not_mac [of "mn_ip node"] show ?thesis
    by (auto simp: manual_node_key_def same_mac_def hm_contains_def split: option.splits)
next
  case (Some e)
  show ?thesis
  proof (cases "record_key_for_mac m e")
    case None
    with Some rk_None [OF None c] show ?thesis by (simp add: manual_node_key_def)
  next
    case (Some k')
    with \<open>mn_expected_mac node = Some e\<close> none rk_Some [OF Some] show ?thesis
      by (simp add: hm_contains_def)
  qed
qed

lemma hydrate_manual_keeps:
  assumes keys: "reg_keys m" and run: "hydrate_manual now node (c, m) = (c', m')"
  shows "reg_keys m' \<and> no_new_live m m'"
proof -
  define key where "key = (case Option.bind (mn_expected_mac node) (record_key_for_mac m) of
                  Some k \<Rightarrow> k | None \<Rightarrow> manual_node_key node)"
  show ?thesis
  proof (cases "hm_get m key")
    case None
    with manual_key_new [OF keys, of node] run show ?thesis
      unfolding key_def
      by (auto simp: hydrate_manual_def Let_def intro!: reg_keys_insert_new [OF keys] no_new_live_insert)
  next
    case (Some e)
    with run reg_keys_mac [OF keys Some] keys show ?thesis
      by (auto simp: hydrate_manual_def Let_def key_def [symmetric] hm_contains_def
          intro!: reg_keys_insert_old no_new_live_insert split: if_splits)
  qed
qed

lemma hydrate_manual_fold:
  "reg_keys m \<Longrightarrow> fold (hydrate_manual now) ns (c, m) = (c', m') \<Longrightarrow> reg_keys m' \<and> no_new_live m m'"
proof (induction ns arbitrary: c m)
  case (Cons n ns)
  obtain c1 m1 where s: "hydrate_manual now n (c, m) = (c1, m1)" by (metis prod.collapse)
  from hydrate_manual_keeps [OF Cons.prems(1) s] Cons.IH [of m1 c1] Cons.prems(2) s show ?case
    by (auto intro: no_new_live_trans)
qed simp

lemma assign_alias_simps [simp]:
  "dr_mac (assign_alias k a r) = dr_mac r" "dr_status (assign_alias k a r) = dr_status r"
  "dr_ip (assign_alias k a r) = dr_ip r" "dr_verified_by_mac (assign_alias k a r) = dr_verified_by_mac r"
  "dr_last_verified_at (assign_alias k a r) = dr_last_verified_at r"
  by (simp_all add: assign_alias_def)

lemma resolve_role_simps [simp]:
  "dr_mac (resolve_role l r) = dr_mac r" "dr_ip (resolve_role l r) = dr_ip r" "dr_alias (resolve_role l r) = dr_alias r"
  "dr_verified_by_mac (resolve_role l r) = dr_verified_by_mac r"
  "dr_last_verified_at (resolve_role l r) = dr_last_verified_at r"
  "dr_status (resolve_role l r) = Live \<longleftrightarrow> dr_status r = Live"
  by (simp_all add: resolve_role_def)

lemma set_alias_keeps:
  assumes "device_inv g"
  shows "device_inv (snd (set_alias key alias g))"
proof -
  have "device_inv (g\<lparr>rg_devices := hm_map (\<lambda>_. resolve_role l) (hm_map (\<lambda>_. assign_alias key alias) (rg_devices g))\<rparr>)" for l
    using assms
    by (intro device_inv_quiet reg_keys_map no_new_live_trans [OF no_new_live_map no_new_live_map]) simp_all
  with assms show ?thesis by (simp add: set_alias_def Let_def)
qed

lemma mark_ambiguous_keeps:
  "reg_keys m \<Longrightarrow> mark_ambiguous role (c, m) = (c', m') \<Longrightarrow> reg_keys m' \<and> no_new_live m m'"
  by (auto simp: mark_ambiguous_def split: if_splits intro!: reg_keys_map no_new_live_map)

lemma normalize_keeps:
  assumes "device_inv g"
  shows "device_inv (snd (normalize_role_duplicates g))"
proof -
  obtain c1 m1 where s1: "mark_ambiguous ''CAM'' ([], rg_devices g) = (c1, m1)" by (metis prod.collapse)
  obtain c2 m2 where s2: "mark_ambiguous ''PTU'' (c1, m1) = (c2, m2)" by (metis prod.collapse)
  have "reg_keys m1 \<and> no_new_live (rg_devices g) m1" using mark_ambiguous_keeps [OF _ s1] assms by simp
  moreover from this have "reg_keys m2 \<and> no_new_live m1 m2" using mark_ambiguous_keeps [OF _ s2] by simp
  ultimately have "device_inv (g\<lparr>rg_devices := m2\<rparr>)"
    using assms by (auto intro: device_inv_quiet no_new_live_trans)
  then show ?thesis by (simp add: normalize_role_duplicates_def ROLE_ALIASES_def s1 s2)
qed

lemma merge_verified_keeps:
  assumes inv: "device_inv g"
  shows "device_inv (after_merge g (merge_verified rfc now dev adapter at fence g))"
proof (cases "verification_valid rfc dev adapter at")
  case True
  then obtain ad where ad: "canonical_mac adapter = Some ad" by (auto simp: verification_valid_def)
  from device_inv_verified [OF inv ad] inv show ?thesis
    by (auto simp: merge_verified_def after_merge_def split: option.splits)
qed (use inv in \<open>simp add: merge_verified_def after_merge_def\<close>)

lemma bound_pin_keeps:
  assumes inv: "device_inv g1" and key: "hm_get (hm_remove mk (rg_devices g1)) key = Some rec"
  shows "device_inv (g1\<lparr>rg_devices := hm_insert key (rec\<lparr>dr_alias := a\<rparr>) (hm_remove mk (rg_devices g1))\<rparr>)"
proof -
  have keys: "reg_keys (hm_remove mk (rg_devices g1))" using inv by (simp add: reg_keys_remove)
  show ?thesis
    using inv reg_keys_mac [OF keys key] key
    by (intro device_inv_quiet reg_keys_insert_old [OF keys]
        no_new_live_trans [OF no_new_live_remove no_new_live_insert]) (auto simp: hm_contains_def)
qed

lemma manual_mismatch_keeps:
  assumes inv: "device_inv g1" and old: "hm_get (rg_devices g1) key = Some old" and st: "st \<noteq> Live"
  shows "device_inv (g1\<lparr>rg_devices := hm_insert key (change_status st old) (rg_devices g1)\<rparr>)"
  using inv reg_keys_mac [OF device_inv_keys [OF inv] old] old st
  by (intro device_inv_quiet reg_keys_insert_old no_new_live_insert) (auto simp: hm_contains_def)

lemma merge_manual_verified_keeps:
  assumes inv: "device_inv g"
  shows "device_inv (after_merge g (merge_manual_verified rfc now node dev adapter at fence g))"
proof (cases "merge_verified_locked now dev adapter at g")
  case None
  with inv show ?thesis by (simp add: merge_manual_verified_def after_merge_def Let_def)
next
  case (Some rg1)
  obtain r g1 where rg1: "rg1 = (r, g1)" by (cases rg1)
  show ?thesis
  proof (cases "verification_valid rfc dev adapter at")
    case False
    with inv show ?thesis by (simp add: merge_manual_verified_def after_merge_def)
  next
    case True
    then obtain ad where "canonical_mac adapter = Some ad" by (auto simp: verification_valid_def)
    from device_inv_verified [OF inv this Some [unfolded rg1]] have inv1: "device_inv g1" .
    have "device_inv (g1\<lparr>rg_devices := hm_remove mk (rg_devices g1)\<rparr>)" for mk
      using inv1 by (intro device_inv_quiet) (simp_all add: reg_keys_remove)
    with inv inv1 bound_pin_keeps [OF inv1] manual_mismatch_keeps [OF inv1] show ?thesis
      by (auto simp: merge_manual_verified_def after_merge_def Let_def Some rg1 split: option.splits)
  qed
qed

lemma expire_evidence_keeps:
  assumes inv: "device_inv g"
  shows "device_inv (snd (expire_evidence now g))"
proof -
  let ?f = "\<lambda>_ r. if evidence_gone now (rg_evidence g) r then change_status Offline r else r"
  have ev: "hm_wf (rg_evidence g)" and keys: "reg_keys (rg_devices g)" using inv by (simp_all add: device_inv_def)
  have "device_inv (g\<lparr>rg_devices := hm_map ?f (rg_devices g)\<rparr>)"
    using inv by (intro device_inv_quiet reg_keys_map no_new_live_map) (auto split: if_splits)
  moreover have "hm_contains k (hm_retain (\<lambda>key time. hm_contains key (hm_map ?f (rg_devices g)) \<and> now < time) (rg_evidence g))"
    if "hm_get (rg_devices g) k = Some r" "dr_status (?f k r) = Live" for k r
    using that reg_keys_mac [OF keys] ev
    by (auto simp: hm_contains_def hm_simps evidence_gone_def split: if_splits option.splits)
  ultimately show ?thesis
    by (auto simp: expire_evidence_def Let_def device_inv_def live_backed_def hm_simps wf_intros)
qed

lemma device_inv_none_live:
  assumes "reg_keys m" "\<And>k r. hm_get m k = Some r \<Longrightarrow> dr_status r \<noteq> Live" "rg_scope g \<noteq> None" "hm_wf ev"
  shows "device_inv (g\<lparr>rg_devices := m, rg_evidence := ev\<rparr>)"
  using assms by (auto simp: device_inv_def live_backed_def live_unique_def is_live_def)

lemma expire_all_keeps:
  assumes inv: "device_inv g"
  shows "device_inv (snd (expire_all g))"
proof -
  let ?f = "\<lambda>_ r. if dr_status r = Live then change_status Offline r else r"
  have keys: "reg_keys (hm_map ?f (rg_devices g))"
    using inv by (intro reg_keys_map) simp_all
  have none: "hm_get (hm_map ?f (rg_devices g)) k = Some r \<Longrightarrow> dr_status r \<noteq> Live" for k r
    by (auto simp: hm_simps split: if_splits)
  have "rg_scope g \<noteq> None" using inv by (simp add: device_inv_def)
  from device_inv_none_live [OF keys none this hm_wf_empty] show ?thesis
    by (simp add: expire_all_def)
qed

lemma registry_step_keeps:
  assumes inv: "device_inv g"
  shows "device_inv (registry_step rfc e g)"
proof (cases e)
  case (RvHydrateManual now nodes)
  obtain c m where s: "fold (hydrate_manual now) nodes (False, rg_devices g) = (c, m)" by (metis prod.collapse)
  with hydrate_manual_fold [OF _ s] inv RvHydrateManual show ?thesis
    by (auto simp: hydrate_manual_nodes_def intro!: device_inv_quiet)
next
  case (RvHydrateCache cached)
  with hydrate_cached_fold [of "rg_devices g" cached] inv show ?thesis
    by (auto simp: hydrate_from_cache_def Let_def intro!: device_inv_quiet)
next
  case (RvScan key ports fence)
  with inv reg_keys_mac [OF device_inv_keys [OF inv]] show ?thesis
    by (auto simp: merge_scan_result_fenced_def hm_contains_def split: option.splits
        intro!: device_inv_quiet reg_keys_insert_old no_new_live_insert)
next
  case (RvStatus mac st)
  with inv manual_mismatch_keeps [OF inv] show ?thesis
    by (auto simp: set_status_def split: option.splits)
next
  case (RvRemember mac wall at fence)
  have "device_inv (g\<lparr>rg_evidence := hm_insert k t (rg_evidence g)\<rparr>)" for k t
    using inv by (auto simp: device_inv_def live_backed_def hm_contains_def hm_simps wf_intros)
  with RvRemember inv show ?thesis
    by (auto simp: remember_verified_at_def split: option.splits)
next
  case (RvArp dev)
  with inv show ?thesis by (simp add: merge_arp_def device_inv_def)
next
  case (RvArpFenced dev fence)
  with inv show ?thesis by (simp add: merge_arp_fenced_def device_inv_def)
next
  case (RvScope a)
  with inv show ?thesis by (simp add: set_verification_scope_def device_inv_def live_backed_def)
qed (use inv in \<open>simp_all add: remove_by_mac_def forget_device_def remove_manual_entries_def Let_def
      merge_verified_keeps merge_manual_verified_keeps set_alias_keeps
      normalize_keeps expire_evidence_keeps expire_all_keeps device_inv_quiet reg_keys_remove reg_keys_retain no_new_live_retain
      reg_keys_wf\<close>)

lemma device_inv_new: "device_inv (set_verification_scope adapter device_registry_new)"
  by (simp add: set_verification_scope_def device_registry_new_def device_inv_def reg_keys_def
      live_backed_def live_unique_def is_live_def hm_contains_def)

interpretation devices: guarded_machine
  "\<lambda>g. \<exists>adapter. g = set_verification_scope adapter device_registry_new" "registry_step rfc" device_inv for rfc
  by unfold_locales (auto simp: registry_step_keeps device_inv_new)

section \<open>Deadlines\<close>

text \<open>The latest instant at which an event of a run supplied presence evidence.\<close>

fun event_time :: "registry_event \<Rightarrow> instant" where
  "event_time (RvVerified now _ _ _ _) = now"
| "event_time (RvManualVerified now _ _ _ _ _) = now"
| "event_time (RvRemember _ _ at _) = at"
| "event_time _ = 0"

definition deadlines_below :: "instant \<Rightarrow> device_registry \<Rightarrow> bool" where
  "deadlines_below t g \<longleftrightarrow> (\<forall>k d. hm_get (rg_evidence g) k = Some d \<longrightarrow> d \<le> t + FRESHNESS)"

lemma merge_verified_locked_evidence:
  assumes "merge_verified_locked now dev adapter at g = Some (r, g')"
  shows "\<exists>k. rg_evidence g' = hm_insert k (now + FRESHNESS) (rg_evidence g)"
  using assms by (auto simp: merge_verified_locked_def split: prod.splits option.splits)

lemma deadlines_insert:
  "deadlines_below t g \<Longrightarrow> now \<le> t \<Longrightarrow> rg_evidence g' = hm_insert k (now + FRESHNESS) (rg_evidence g)
    \<Longrightarrow> deadlines_below t g'"
  by (auto simp: deadlines_below_def hm_simps)

lemma deadlines_cong: "deadlines_below t g \<Longrightarrow> rg_evidence g' = rg_evidence g \<Longrightarrow> deadlines_below t g'"
  by (simp add: deadlines_below_def)

lemma manual_verified_evidence:
  "merge_manual_verified rfc now node dev adapter at fence g = Some (r, g') \<Longrightarrow>
     rg_evidence g' = rg_evidence g
     \<or> (\<exists>r1 g1. merge_verified_locked now dev adapter at g = Some (r1, g1) \<and> rg_evidence g' = rg_evidence g1)"
  by (auto simp: merge_manual_verified_def Let_def split: if_splits option.splits prod.splits)

lemma registry_step_deadlines:
  assumes "deadlines_below t g" "event_time e \<le> t" "hm_wf (rg_evidence g)"
  shows "deadlines_below t (registry_step rfc e g)"
proof (cases e)
  case (RvVerified now dev adapter at fence)
  with assms merge_verified_locked_evidence deadlines_insert [OF assms(1), of now] show ?thesis
    by (auto simp: after_merge_def merge_verified_def split: option.splits) blast
next
  case (RvManualVerified now node dev adapter at fence)
  show ?thesis
  proof (cases "merge_manual_verified rfc now node dev adapter at fence g")
    case None
    with RvManualVerified assms show ?thesis by (simp add: after_merge_def)
  next
    case (Some rg)
    obtain r g' where rg: "rg = (r, g')" by (cases rg)
    from manual_verified_evidence [OF Some [unfolded rg]] merge_verified_locked_evidence
      deadlines_insert [OF assms(1), of now g'] deadlines_cong [OF assms(1), of g'] assms(2) RvManualVerified
    have "deadlines_below t g'" by (metis event_time.simps(2))
    with RvManualVerified Some rg show ?thesis by (simp add: after_merge_def)
  qed
next
  case (RvRemember mac wall at fence)
  with assms deadlines_insert [OF assms(1), of at] show ?thesis
    by (auto simp: remember_verified_at_def split: option.splits)
next
  case (RvExpire now)
  with assms show ?thesis
    by (auto simp: expire_evidence_def Let_def deadlines_below_def hm_simps split: option.splits if_splits)
next
  case RvExpireAll
  then show ?thesis by (simp add: expire_all_def deadlines_below_def)
qed (use assms in \<open>auto simp: remove_by_mac_def forget_device_def remove_manual_entries_def hydrate_from_cache_def
      hydrate_manual_nodes_def merge_arp_def merge_arp_fenced_def merge_scan_result_fenced_def set_alias_def
      normalize_role_duplicates_def set_status_def set_verification_scope_def Let_def deadlines_below_def
      split: prod.splits option.splits\<close>)

lemma run_deadlines:
  "device_inv g \<Longrightarrow> deadlines_below t g \<Longrightarrow> list_all (\<lambda>e. event_time e \<le> t) es
    \<Longrightarrow> deadlines_below t (fold (registry_step rfc) es g)"
proof (induction es arbitrary: g)
  case (Cons e es)
  then have "hm_wf (rg_evidence g)" by (simp add: device_inv_def)
  with Cons registry_step_deadlines [of t g e rfc] registry_step_keeps [of g rfc e] show ?case by simp
qed simp

lemma expire_live_deadline:
  assumes "hm_get (rg_devices (snd (expire_evidence now g))) k = Some r" "dr_status r = Live" "reg_keys (rg_devices g)"
  shows "\<exists>d. hm_get (rg_evidence g) k = Some d \<and> now < d"
  using assms reg_keys_mac [OF assms(3)]
  by (auto simp: expire_evidence_def Let_def hm_simps evidence_gone_def not_le split: if_splits option.splits)

section \<open>A concrete proof\<close>

text \<open>A concrete device, adapter and fence.\<close>

definition sample_dev :: arp_device where
  "sample_dev = \<lparr>ad_mac = format_mac [2, 0, 0, 0, 0, 1], ad_ip = show_ipv4 (Ipv4 192 168 1 20),
     ad_subnet = ''192.168.1.0/24'', ad_first_seen = ''t0'', ad_last_seen = ''t1''\<rparr>"

definition sample_adapter :: string where
  "sample_adapter = format_mac [2, 0, 0, 0, 0, 9]"

definition fresh_fence :: sweep_fence where
  "fresh_fence = \<lparr>sf_generation = 1, sf_current = 1, sf_active = True\<rparr>"

lemma canonical_format:
  "length bs = 6 \<Longrightarrow> bs \<noteq> replicate 6 0 \<Longrightarrow> hd bs AND 1 = 0 \<Longrightarrow> canonical_mac (format_mac bs) = Some (format_mac bs)"
  by (simp add: canonical_mac_def format_mac_def [symmetric])

lemma sample_macs:
  "canonical_mac (ad_mac sample_dev) = Some (format_mac [2, 0, 0, 0, 0, 1])"
  "canonical_mac sample_adapter = Some sample_adapter"
  unfolding sample_dev_def sample_adapter_def arp_device.simps
  by (rule canonical_format; simp add: list_eq_iff_nth_eq All_less_Suc numeral_eq_Suc)+

lemma sample_distinct: "sample_adapter \<noteq> format_mac [2, 0, 0, 0, 0, 1]"
proof
  assume "sample_adapter = format_mac [2, 0, 0, 0, 0, 1]"
  then have "parse_mac_bytes sample_adapter = parse_mac_bytes (format_mac [2, 0, 0, 0, 0, 1])" by simp
  then show False by (simp add: sample_adapter_def)
qed

lemma sample_proof:
  "verification_valid (\<lambda>_. Some 0) sample_dev sample_adapter ''t2''"
  "\<not> is_stale fresh_fence"
  "proof_allowed (set_verification_scope (Some sample_adapter) device_registry_new) sample_adapter"
  "\<not> has_newer_proof (\<lambda>_. Some 0) (rg_devices (set_verification_scope (Some sample_adapter) device_registry_new)) sample_dev ''t2''"
  using sample_distinct
  by (simp_all add: verification_valid_def sample_macs same_mac_def is_stale_def fresh_fence_def proof_allowed_def
      set_verification_scope_def has_newer_proof_def device_registry_new_def)
    (simp add: sample_dev_def prohibited_camera_ip_def is_loopback_def is_link_local_def is_broadcast_def
      is_unspecified_def is_multicast_def)

section \<open>Properties\<close>

text \<open>C27: once setup has chosen the verification scope, every sequence of registry mutators keeps
  the registry rules: records are stored under their own identity, no two records name one
  interface, every Live record rests on a verified proof with a recorded deadline, and no
  address has two Live records.\<close>

theorem registry_invariant:
  "device_inv (fold (registry_step rfc) es (set_verification_scope adapter device_registry_new))"
  by (rule devices.reach_inv) blast

text \<open>C28: presence needs renewal: when no proof is newer than the instant \<open>t\<close>, an expiry tick at
  \<open>t\<close> plus the freshness window (15 seconds) or later leaves no record Live, whatever happened
  before.\<close>

theorem presence_expires:
  assumes "list_all (\<lambda>e. event_time e \<le> t) es" "t + FRESHNESS \<le> now"
    and "g = fold (registry_step rfc) es (set_verification_scope adapter device_registry_new)"
    and "hm_get (rg_devices (snd (expire_evidence now g))) k = Some r"
  shows "dr_status r \<noteq> Live"
proof
  assume live: "dr_status r = Live"
  have inv: "device_inv g" unfolding assms(3) by (rule devices.reach_inv) blast
  have "deadlines_below t (set_verification_scope adapter device_registry_new)"
    by (simp add: deadlines_below_def set_verification_scope_def device_registry_new_def)
  from run_deadlines [OF device_inv_new this assms(1)] have "deadlines_below t g" by (simp add: assms(3))
  moreover from expire_live_deadline [OF assms(4) live] inv
  obtain d where "hm_get (rg_evidence g) k = Some d" "now < d" by auto
  ultimately show False using assms(2) by (auto simp: deadlines_below_def) (metis leD le_trans)
qed

theorem presence_expires_witness:
  "let g = fold (registry_step (\<lambda>_. Some 0)) [RvVerified 5 sample_dev sample_adapter ''t2'' fresh_fence]
             (set_verification_scope (Some sample_adapter) device_registry_new)
   in rg_devices g \<noteq> []
      \<and> (\<forall>(k, r)\<in>set (rg_devices (snd (expire_evidence 15005 g))). dr_status r \<noteq> Live)"
proof -
  let ?g0 = "set_verification_scope (Some sample_adapter) device_registry_new"
  let ?es = "[RvVerified 5 sample_dev sample_adapter ''t2'' fresh_fence]"
  define g where "g = fold (registry_step (\<lambda>_. Some 0)) ?es ?g0"
  have inv: "device_inv g" unfolding g_def by (rule devices.reach_inv) blast
  then have inv': "device_inv (snd (expire_evidence 15005 g))" by (rule expire_evidence_keeps)
  have "dr_status r \<noteq> Live" if "(k, r) \<in> set (rg_devices (snd (expire_evidence 15005 g)))" for k r
    using presence_expires [of 5 ?es 15005 g "\<lambda>_. Some 0" "Some sample_adapter" k r] that
      hm_in_set_iff [OF reg_keys_wf [OF device_inv_keys [OF inv']]]
    by (simp add: g_def [symmetric] FRESHNESS_def) (simp add: g_def)
  moreover have "rg_devices g \<noteq> []"
    using sample_proof
    by (simp add: g_def merge_verified_def merge_verified_locked_def merge_arp_locked_def after_merge_def Let_def
        record_key_for_mac_def hm_contains_def hm_simps set_verification_scope_def device_registry_new_def sample_macs)
      (simp add: hm_insert_def)
  ultimately show ?thesis unfolding Let_def g_def [symmetric] by auto
qed

text \<open>a proof is never lost to an internal panic, and a verified merge does what it promises:
  on a valid, current, newest proof from the scoped adapter the identity has a Live record at the
  proved address with this proof, every other record at that address is not Live, and every
  record that existed still exists.\<close>

theorem verified_merge_effect:
  assumes "device_inv g" "verification_valid rfc dev adapter at" "\<not> is_stale fence" "proof_allowed g adapter"
    "\<not> has_newer_proof rfc (rg_devices g) dev at"
  shows "\<exists>res g' k r. merge_verified rfc now dev adapter at fence g = Some (res, g')
    \<and> same_mac k (ad_mac dev) \<and> hm_get (rg_devices g') k = Some r
    \<and> dr_status r = Live \<and> dr_ip r = ad_ip dev \<and> dr_last_verified_at r = Some at
    \<and> dr_verified_by_mac r = canonical_mac adapter
    \<and> (\<forall>k' r'. hm_get (rg_devices g') k' = Some r' \<longrightarrow> dr_ip r' = ad_ip dev \<longrightarrow> dr_status r' = Live \<longrightarrow> k' = k)
    \<and> (\<forall>k'. hm_contains k' (rg_devices g) \<longrightarrow> hm_contains k' (rg_devices g'))"
proof -
  obtain ad where ad: "canonical_mac adapter = Some ad" using assms(2) by (auto simp: verification_valid_def)
  let ?key = "pick_key (rg_devices g) (ad_mac dev)"
  from merge_verified_locked_shape [OF device_inv_keys [OF assms(1)] ad, of now dev at]
  obtain res rec g' where run: "merge_verified_locked now dev adapter at g = Some (res, g')"
    and get: "\<And>k. hm_get (rg_devices g') k
          = (if k = ?key then Some rec else map_option (retire ?key (ad_ip dev)) (hm_get (rg_devices g) k))"
    and rec: "dr_ip rec = ad_ip dev" "dr_status rec = Live" "dr_verified_by_mac rec = Some ad"
      "dr_last_verified_at rec = Some at"
    by auto
  have merged: "merge_verified rfc now dev adapter at fence g = Some (res, g')"
    using assms run by (simp add: merge_verified_def)
  have only: "k' = ?key" if "hm_get (rg_devices g') k' = Some r'" "dr_ip r' = ad_ip dev" "dr_status r' = Live" for k' r'
    using that get [of k'] reg_keys_mac [OF device_inv_keys [OF assms(1)], of k']
    by (auto split: if_splits dest!: retire_live)
  have kept: "hm_contains k' (rg_devices g')" if "hm_contains k' (rg_devices g)" for k'
    using that by (auto simp: hm_contains_def get)
  have here: "hm_get (rg_devices g') ?key = Some rec" by (simp add: get)
  show ?thesis
    by (intro exI [of _ res] exI [of _ g'] exI [of _ ?key] exI [of _ rec] conjI allI impI)
      (fact merged same_mac_pick here rec(1,2,4) | simp only: rec(3) ad | erule (2) only | erule kept)+
qed

theorem verified_merge_effect_witness:
  "\<exists>res g' k r. merge_verified (\<lambda>_. Some 0) 7 sample_dev sample_adapter ''t2'' fresh_fence
       (set_verification_scope (Some sample_adapter) device_registry_new) = Some (res, g')
     \<and> hm_get (rg_devices g') k = Some r \<and> dr_status r = Live \<and> dr_ip r = ad_ip sample_dev"
  using verified_merge_effect [OF device_inv_new sample_proof, of 7] by blast

text \<open>assigning a role to a known device leaves exactly one holder of that role, that device.\<close>

theorem role_has_one_holder:
  assumes "device_inv g" "hm_contains key (rg_devices g)" "is_role_alias role"
  shows "hm_get (rg_devices (snd (set_alias key role g))) k = Some r \<Longrightarrow> (dr_alias r = role \<longleftrightarrow> k = key)"
proof -
  assume get: "hm_get (rg_devices (snd (set_alias key role g))) k = Some r"
  have ne: "role \<noteq> []" using assms(3) by (auto simp: is_role_alias_def ROLE_ALIASES_def)
  from get assms(2) obtain r0 where r0: "hm_get (rg_devices g) k = Some r0" "dr_alias r = dr_alias (assign_alias key role r0)"
    by (auto simp: set_alias_def Let_def hm_simps)
  from reg_keys_mac [OF device_inv_keys [OF assms(1)] r0(1)] assms(3) ne show ?thesis
    by (simp add: r0(2) assign_alias_def)
qed

theorem role_has_one_holder_witness:
  "let g = snd (hydrate_manual_nodes ''now'' [\<lparr>mn_expected_mac = None, mn_ip = ''10.0.0.2'', mn_alias = ''CAM''\<rparr>,
             \<lparr>mn_expected_mac = None, mn_ip = ''10.0.0.3'', mn_alias = ''x''\<rparr>]
             (set_verification_scope None device_registry_new))
   in hm_contains ''manual:10.0.0.3'' (rg_devices g)
      \<and> (\<forall>(k, r)\<in>set (rg_devices (snd (set_alias ''manual:10.0.0.3'' ''CAM'' g))).
           dr_alias r = ''CAM'' \<longleftrightarrow> k = ''manual:10.0.0.3'')"
proof -
  let ?ns = "[\<lparr>mn_expected_mac = None, mn_ip = ''10.0.0.2'', mn_alias = ''CAM''\<rparr>,
             \<lparr>mn_expected_mac = None, mn_ip = ''10.0.0.3'', mn_alias = ''x''\<rparr>]"
  define g where "g = snd (hydrate_manual_nodes ''now'' ?ns (set_verification_scope None device_registry_new))"
  have inv: "device_inv g"
    using registry_step_keeps [OF device_inv_new, of "\<lambda>_. None" "RvHydrateManual ''now'' ?ns" None] by (simp add: g_def)
  have inv': "device_inv (snd (set_alias ''manual:10.0.0.3'' ''CAM'' g))" using inv by (rule set_alias_keeps)
  have has: "hm_contains ''manual:10.0.0.3'' (rg_devices g)"
    by (simp add: g_def hydrate_manual_nodes_def hydrate_manual_def manual_node_key_def Let_def hm_contains_def hm_simps
        set_verification_scope_def device_registry_new_def)
  have "dr_alias r = ''CAM'' \<longleftrightarrow> k = ''manual:10.0.0.3''"
    if "(k, r) \<in> set (rg_devices (snd (set_alias ''manual:10.0.0.3'' ''CAM'' g)))" for k r
    using role_has_one_holder [OF inv has, of "''CAM''" k r] that
      hm_in_set_iff [OF reg_keys_wf [OF device_inv_keys [OF inv']]]
    by (simp add: is_role_alias_def ROLE_ALIASES_def)
  with has show ?thesis unfolding Let_def g_def [symmetric] by auto
qed

text \<open>Work that was superseded changes nothing: with a stale fence every fenced mutator
  returns the registry as it was and reports no change.\<close>

lemma stale_work_is_inert:
  assumes "is_stale fence"
  shows "merge_arp_fenced dev fence g = (merge_result_default, g)
    \<and> merge_verified rfc now dev adapter at fence g = Some (merge_result_default, g)
    \<and> merge_manual_verified rfc now node dev adapter at fence g = Some (merge_result_default, g)
    \<and> merge_scan_result_fenced key ports (Some fence) g = (False, g)
    \<and> remember_verified_at mac wall t fence g = g"
  using assms
  by (simp add: merge_arp_fenced_def merge_verified_def merge_manual_verified_def merge_scan_result_fenced_def
      remember_verified_at_def)

end
