(* ===== verification/Device_Snapshot.thy ===== *)
theory Device_Snapshot
  imports Registry_Invariants
begin

text \<open>
  What leaves the device registry: the ordered snapshot, which must not depend on the order
  in which the hash map is iterated, and \<open>DeviceListEmitter\<close>, which coalesces notifications
  and must not lose the last one.
\<close>

section \<open>The snapshot\<close>

definition ips_parse :: "device_map \<Rightarrow> bool" where
  "ips_parse m \<longleftrightarrow> (\<forall>r\<in>set (hm_values m). parse_ipv4 (dr_ip r) \<noteq> None)"

definition snapshot_key :: "device_record \<Rightarrow> string \<times> ipv4 \<times> string" where
  "snapshot_key r = (dr_subnet r, the (parse_ipv4 (dr_ip r)), dr_mac r)"

lemma record_le_key:
  "parse_ipv4 (dr_ip a) \<noteq> None \<Longrightarrow> parse_ipv4 (dr_ip b) \<noteq> None
    \<Longrightarrow> record_le a b \<longleftrightarrow> snapshot_key a \<le> snapshot_key b"
  by (auto simp: record_le_def compare_ips_le_def compare_ips_eq_def snapshot_key_def less_eq_prod_def
      order.strict_iff_order split: option.splits)

lemma insert_by_key:
  "(\<And>y. y \<in> set ys \<Longrightarrow> le x y \<longleftrightarrow> f x \<le> f y) \<Longrightarrow> insert_by le x ys = insort_key f x ys"
  by (induction ys) auto

lemma sort_by_key:
  "(\<And>x y. x \<in> set xs \<Longrightarrow> y \<in> set xs \<Longrightarrow> le x y \<longleftrightarrow> f x \<le> f y) \<Longrightarrow> sort_by le xs = sort_key f xs"
proof (induction xs)
  case (Cons x xs)
  have "sort_by le xs = sort_key f xs" using Cons by simp
  moreover have "insert_by le x (sort_key f xs) = insort_key f x (sort_key f xs)"
    by (rule insert_by_key) (use Cons.prems in simp)
  ultimately show ?case by (simp add: sort_by_def)
qed (simp add: sort_by_def)

lemma snapshot_sort_key:
  "ips_parse (rg_devices g) \<Longrightarrow> snapshot g = sort_key snapshot_key (hm_values (rg_devices g))"
  unfolding snapshot_def ips_parse_def by (rule sort_by_key, rule record_le_key) blast+

lemma values_inj:
  assumes "reg_keys m"
  shows "inj_on snapshot_key (set (hm_values m))"
proof (rule inj_onI)
  fix a b
  assume "a \<in> set (hm_values m)" "b \<in> set (hm_values m)" "snapshot_key a = snapshot_key b"
  then obtain k k' where "hm_get m k = Some a" "hm_get m k' = Some b"
    using hm_in_set_iff [OF reg_keys_wf [OF assms]] by fastforce
  with reg_keys_mac [OF assms] \<open>snapshot_key a = snapshot_key b\<close> show "a = b"
    by (auto simp: snapshot_key_def)
qed

lemma same_entries_mset:
  assumes "hm_wf m" "hm_wf m'" "map_of m = map_of m'"
  shows "mset (hm_values m) = mset (hm_values m')"
proof -
  have "set m = set m'" using hm_in_set_iff [OF assms(1)] hm_in_set_iff [OF assms(2)] assms(3) by auto
  moreover have "distinct m" "distinct m'"
    using assms(1,2) by (auto simp: hm_wf_def distinct_map)
  ultimately have "mset m = mset m'" by (simp add: set_eq_iff_mset_eq_distinct)
  then show ?thesis by simp
qed

section \<open>The emitter\<close>

text \<open>\<open>em_version\<close> counts registry mutations, \<open>em_poked\<close> is the version at the last poke,
  \<open>em_sleeping\<close> the spawned tasks still in their window, \<open>em_cleared\<close> those that have cleared
  the flag and not yet taken their snapshot, \<open>em_emitted\<close> the version of the last snapshot
  that was emitted.\<close>

record emitter =
  em_dirty :: bool
  em_version :: nat
  em_poked :: nat
  em_sleeping :: nat
  em_cleared :: nat
  em_emitted :: nat

definition emitter_new :: emitter where
  "emitter_new = \<lparr>em_dirty = False, em_version = 0, em_poked = 0, em_sleeping = 0, em_cleared = 0, em_emitted = 0\<rparr>"

definition poke :: "emitter \<Rightarrow> emitter" where
  "poke s = (let s = s\<lparr>em_poked := em_version s\<rparr> in
     if \<not> em_dirty s then s\<lparr>em_dirty := True, em_sleeping := em_sleeping s + 1\<rparr> else s)"

datatype emitter_event = EmMutate | EmPoke | EmWake | EmEmit

fun emitter_step :: "emitter_event \<Rightarrow> emitter \<Rightarrow> emitter" where
  "emitter_step EmMutate s = s\<lparr>em_version := em_version s + 1\<rparr>"
| "emitter_step EmPoke s = poke s"
| "emitter_step EmWake s =
     (if 0 < em_sleeping s
      then s\<lparr>em_sleeping := em_sleeping s - 1, em_dirty := False, em_cleared := em_cleared s + 1\<rparr> else s)"
| "emitter_step EmEmit s =
     (if 0 < em_cleared s then s\<lparr>em_cleared := em_cleared s - 1, em_emitted := em_version s\<rparr> else s)"

definition emitter_inv :: "emitter \<Rightarrow> bool" where
  "emitter_inv s \<longleftrightarrow> em_sleeping s = (if em_dirty s then 1 else 0) \<and> em_poked s \<le> em_version s
     \<and> em_emitted s \<le> em_version s
     \<and> (em_poked s \<le> em_emitted s \<or> 0 < em_sleeping s \<or> 0 < em_cleared s)"

interpretation emitter: guarded_machine "\<lambda>s. s = emitter_new" emitter_step emitter_inv
proof
  fix e s assume "emitter_inv s"
  then show "emitter_inv (emitter_step e s)"
    by (cases e) (auto simp: emitter_inv_def poke_def Let_def)
qed (simp add: emitter_inv_def emitter_new_def)

section \<open>Properties\<close>




end
