(* ===== verification/Auto_Adopt.thy ===== *)
theory Auto_Adopt
  imports Config_Invariants
begin

text \<open>
  Automatic adoption of a foreign subnet, \<open>network/auto_adopt.rs\<close>: the dwell gate, the
  choice of addresses, the in-memory breadcrumbs (\<open>PendingIps\<close>), the durable breadcrumbs
  (\<open>PendingAdoptOps\<close>) and the adoption itself.

  The trait \<open>AdoptOps\<close> is the record \<open>adopt_ops\<close> of functions over a world \<open>'w\<close>: what the
  operating system does is arbitrary. An adoption is a future that its caller may drop at any
  await, so each step also appends what it did to a trace; a dropped future is a prefix of
  the trace.
\<close>

section \<open>Adapters\<close>

record ip_info =
  ip_address :: string
  ip_prefix :: u8
  ip_subnet :: string

record interface_info =
  if_name :: string
  if_display_name :: string
  if_description :: string
  if_ips :: "ip_info list"
  if_mac :: string
  if_is_up :: bool
  if_is_ethernet :: bool
  if_is_wifi :: bool
  if_is_vpn :: bool
  if_is_virtual :: bool

definition is_wired_physical :: "interface_info \<Rightarrow> bool" where
  "is_wired_physical i \<longleftrightarrow> if_is_ethernet i \<and> \<not> if_is_vpn i \<and> \<not> if_is_virtual i"

definition is_wired_ethernet :: "interface_info \<Rightarrow> bool" where
  "is_wired_ethernet i \<longleftrightarrow> if_is_up i \<and> is_wired_physical i"

section \<open>The dwell gate\<close>

definition DWELL_MIN :: instant where
  "DWELL_MIN = 2000"

definition DWELL_CANDIDATE_TTL :: instant where
  "DWELL_CANDIDATE_TTL = 600000"

datatype dwell_verdict = Started | Waiting | Mature

record dwell_candidate =
  dc_token :: string
  dc_first_qualifying :: instant
  dc_last_checked :: instant
  dc_probe_started :: bool

type_synonym dwell_tracker = "(string \<times> string, dwell_candidate) hashmap"

definition dwell_check ::
    "string \<Rightarrow> string \<Rightarrow> string \<Rightarrow> instant \<Rightarrow> dwell_tracker \<Rightarrow> dwell_verdict \<times> dwell_tracker" where
  "dwell_check subnet mac token now t0 =
     (let t1 = hm_retain (\<lambda>_ c. now - dc_last_checked c < DWELL_CANDIDATE_TTL) t0;
          t2 = hm_retain (\<lambda>(s, m) _. \<not> (m = mac \<and> s \<noteq> subnet)) t1
      in case hm_get t2 (subnet, mac) of
           None \<Rightarrow>
             (Started, hm_insert (subnet, mac)
               \<lparr>dc_token = token, dc_first_qualifying = now, dc_last_checked = now, dc_probe_started = False\<rparr> t2)
         | Some c \<Rightarrow>
             (if dc_token c \<noteq> token \<and> DWELL_MIN \<le> now - dc_first_qualifying c then Mature else Waiting,
              hm_insert (subnet, mac) (c\<lparr>dc_last_checked := now\<rparr>) t2))"

definition take_probe_due :: "string \<Rightarrow> string \<Rightarrow> instant \<Rightarrow> dwell_tracker \<Rightarrow> bool \<times> dwell_tracker" where
  "take_probe_due subnet mac now t =
     (case hm_get t (subnet, mac) of
        None \<Rightarrow> (False, t)
      | Some c \<Rightarrow>
          if dc_probe_started c \<or> now - dc_first_qualifying c < DWELL_MIN then (False, t)
          else (True, hm_insert (subnet, mac) (c\<lparr>dc_probe_started := True\<rparr>) t))"

definition dwell_priority :: "string \<Rightarrow> string \<Rightarrow> string \<Rightarrow> instant \<Rightarrow> dwell_tracker \<Rightarrow> bool \<times> instant" where
  "dwell_priority subnet mac token now t =
     (case hm_get t (subnet, mac) of
        Some c \<Rightarrow> (\<not> (dc_token c \<noteq> token \<and> DWELL_MIN \<le> now - dc_first_qualifying c), dc_first_qualifying c)
      | None \<Rightarrow> (True, now))"

definition prune_subnet :: "string \<Rightarrow> dwell_tracker \<Rightarrow> dwell_tracker" where
  "prune_subnet subnet t = hm_retain (\<lambda>(s, _) _. s \<noteq> subnet) t"

section \<open>Choice of addresses\<close>

definition same24 :: "ipv4 \<Rightarrow> ipv4 \<Rightarrow> bool" where
  "same24 a b \<longleftrightarrow> oct0 a = oct0 b \<and> oct1 a = oct1 b \<and> oct2 a = oct2 b"

definition already_on_subnet :: "ipv4 \<Rightarrow> ipv4 list \<Rightarrow> bool" where
  "already_on_subnet device_ip current_ips = list_ex (\<lambda>ip. same24 ip device_ip) current_ips"

definition pick_candidate_ip :: "ipv4 \<Rightarrow> ipv4 list \<Rightarrow> ipv4 list" where
  "pick_candidate_ip device_ip used_ips =
     filter (\<lambda>c. c \<notin> set used_ips)
       (map (\<lambda>l. Ipv4 (oct0 device_ip) (oct1 device_ip) (oct2 device_ip) l)
         (filter (\<lambda>l. l \<noteq> oct3 device_ip \<and> l \<noteq> 0 \<and> l \<noteq> 255 \<and> l \<noteq> 1)
           [100, 101, 99, 102, 98, 103, 97, 104, 96, 105, 95]))"

definition pick_scratch :: "ipv4 \<Rightarrow> ipv4 list \<Rightarrow> ipv4" where
  "pick_scratch device_ip candidates =
     (let free = (\<lambda>l. l \<noteq> oct3 device_ip \<and> l \<notin> oct3 ` set candidates);
          at = (\<lambda>l. Ipv4 (oct0 device_ip) (oct1 device_ip) (oct2 device_ip) l)
      in case List.find free [254, 253, 252, 251, 250, 2, 3, 4, 5, 6] of
           Some l \<Rightarrow> at l
         | None \<Rightarrow> at 254)"

section \<open>Breadcrumbs and operations\<close>

record pending_ip =
  pi_iface :: string
  pi_ip :: ipv4
  pi_adoption_id :: u64

datatype probe_source_state = ProbeReady | ProbePending | ProbeTentative | RoutePending u32 u32

datatype shutdown_wait = Slept | Changed | Closed

record 'w adopt_ops =
  op_add :: "string \<Rightarrow> ipv4 \<Rightarrow> string \<Rightarrow> 'w \<Rightarrow> unit result \<times> 'w"
  op_remove :: "string \<Rightarrow> ipv4 \<Rightarrow> 'w \<Rightarrow> unit result \<times> 'w"
  op_probe_state :: "string \<Rightarrow> ipv4 \<Rightarrow> ipv4 \<Rightarrow> 'w \<Rightarrow> probe_source_state result \<times> 'w"
  op_probe :: "ipv4 \<Rightarrow> ipv4 option \<Rightarrow> 'w \<Rightarrow> bool \<times> 'w"
  op_shutdown :: "'w \<Rightarrow> bool"
  op_wait :: "'w \<Rightarrow> shutdown_wait \<times> 'w"

text \<open>What an adoption does to the breadcrumbs and to the adapter. An add is recorded when it is
  issued (its outcome is open), a removal when it has completed, with its outcome.\<close>

datatype adopt_effect =
    PendInsert pending_ip
  | OsAdd string ipv4
  | OsRemove string ipv4 bool
  | PendRemove pending_ip

record 'w adopt_state =
  as_world :: 'w
  as_pending :: "pending_ip list"
  as_trace :: "adopt_effect list"

definition pending_insert :: "string \<Rightarrow> ipv4 \<Rightarrow> u64 \<Rightarrow> 'w adopt_state \<Rightarrow> 'w adopt_state" where
  "pending_insert iface ip aid s =
     (let e = \<lparr>pi_iface = iface, pi_ip = ip, pi_adoption_id = aid\<rparr>
      in s\<lparr>as_pending := as_pending s @ [e], as_trace := as_trace s @ [PendInsert e]\<rparr>)"

definition pending_remove :: "string \<Rightarrow> ipv4 \<Rightarrow> u64 \<Rightarrow> 'w adopt_state \<Rightarrow> 'w adopt_state" where
  "pending_remove iface ip aid s =
     (let e = \<lparr>pi_iface = iface, pi_ip = ip, pi_adoption_id = aid\<rparr>
      in s\<lparr>as_pending := filter (\<lambda>p. p \<noteq> e) (as_pending s), as_trace := as_trace s @ [PendRemove e]\<rparr>)"

definition os_add :: "'w adopt_ops \<Rightarrow> string \<Rightarrow> ipv4 \<Rightarrow> string \<Rightarrow> 'w adopt_state \<Rightarrow> unit result \<times> 'w adopt_state" where
  "os_add ops iface ip netm s =
     (let (r, w) = op_add ops iface ip netm (as_world s)
      in (r, s\<lparr>as_world := w, as_trace := as_trace s @ [OsAdd iface ip]\<rparr>))"

definition is_ok :: "'a result \<Rightarrow> bool" where
  "is_ok r = (case r of Inl _ \<Rightarrow> False | Inr _ \<Rightarrow> True)"

definition os_remove :: "'w adopt_ops \<Rightarrow> string \<Rightarrow> ipv4 \<Rightarrow> 'w adopt_state \<Rightarrow> unit result \<times> 'w adopt_state" where
  "os_remove ops iface ip s =
     (let (r, w) = op_remove ops iface ip (as_world s)
      in (r, s\<lparr>as_world := w, as_trace := as_trace s @ [OsRemove iface ip (is_ok r)]\<rparr>))"

definition release_scratch :: "'w adopt_ops \<Rightarrow> string \<Rightarrow> ipv4 \<Rightarrow> u64 \<Rightarrow> 'w adopt_state \<Rightarrow> 'w adopt_state" where
  "release_scratch ops iface scratch aid s =
     (case os_remove ops iface scratch s of
        (Inr _, s') \<Rightarrow> pending_remove iface scratch aid s'
      | (Inl _, s') \<Rightarrow> s')"

definition bind_scratch ::
    "'w adopt_ops \<Rightarrow> string \<Rightarrow> ipv4 \<Rightarrow> u64 \<Rightarrow> 'w adopt_state \<Rightarrow> unit result \<times> 'w adopt_state" where
  "bind_scratch ops iface scratch aid s =
     (case os_add ops iface scratch ''255.255.255.0'' (pending_insert iface scratch aid s) of
        (Inr _, s') \<Rightarrow> (Inr (), s')
      | (Inl e, s') \<Rightarrow> (Inl e, release_scratch ops iface scratch aid s'))"

definition reconcile_entry :: "'w adopt_ops \<Rightarrow> pending_ip \<Rightarrow> 'w adopt_state \<Rightarrow> 'w adopt_state" where
  "reconcile_entry ops e s =
     (case os_remove ops (pi_iface e) (pi_ip e) s of
        (Inr _, s') \<Rightarrow> pending_remove (pi_iface e) (pi_ip e) (pi_adoption_id e) s'
      | (Inl _, s') \<Rightarrow> s')"

definition reconcile_pending :: "'w adopt_ops \<Rightarrow> u64 option \<Rightarrow> 'w adopt_state \<Rightarrow> 'w adopt_state" where
  "reconcile_pending ops flt s =
     fold (reconcile_entry ops)
       (filter (\<lambda>e. case flt of None \<Rightarrow> True | Some aid \<Rightarrow> pi_adoption_id e = aid) (as_pending s)) s"

fun show_state :: "probe_source_state option \<Rightarrow> string" where
  "show_state None = ''None''"
| "show_state (Some ProbeReady) = ''Some(Ready)''"
| "show_state (Some ProbePending) = ''Some(Pending)''"
| "show_state (Some ProbeTentative) = ''Some(Tentative)''"
| "show_state (Some (RoutePending e o')) =
     ''Some(RoutePending { expected: '' @ show_nat (unat e) @ '', observed: '' @ show_nat (unat o') @ '' })''"

definition PROBE_SOURCE_READY_TIMEOUT :: instant where
  "PROBE_SOURCE_READY_TIMEOUT = 12000"

text \<open>\<open>polls\<close> is the number of polls the timeout lets through; nothing is assumed about it.\<close>

fun wait_for_probe_source ::
    "'w adopt_ops \<Rightarrow> string \<Rightarrow> ipv4 \<Rightarrow> ipv4 \<Rightarrow> nat \<Rightarrow> probe_source_state option \<Rightarrow> 'w \<Rightarrow> bool result \<times> 'w" where
  "wait_for_probe_source ops iface source target 0 last_state w =
     (Inl (AddressNotReady (''Adoption address '' @ show_ipv4 source @ '' did not become usable on '' @ iface
        @ '' within '' @ show_nat (PROBE_SOURCE_READY_TIMEOUT div 1000) @ ''s (last state: '' @ show_state last_state @ '')'')), w)"
| "wait_for_probe_source ops iface source target (Suc polls) last_state w =
     (if op_shutdown ops w then (Inr False, w)
      else
        (case op_probe_state ops iface source target w of
           (Inl e, w1) \<Rightarrow> (Inl e, w1)
         | (Inr st, w1) \<Rightarrow>
             if st = ProbeReady then (Inr True, w1)
             else (case op_wait ops w1 of
                     (Slept, w2) \<Rightarrow> wait_for_probe_source ops iface source target polls (Some st) w2
                   | (Closed, w2) \<Rightarrow> (Inr False, w2)
                   | (Changed, w2) \<Rightarrow>
                       if op_shutdown ops w2 then (Inr False, w2)
                       else wait_for_probe_source ops iface source target polls (Some st) w2)))"

definition wait_in ::
    "'w adopt_ops \<Rightarrow> string \<Rightarrow> ipv4 \<Rightarrow> ipv4 \<Rightarrow> nat \<Rightarrow> 'w adopt_state \<Rightarrow> bool result \<times> 'w adopt_state" where
  "wait_in ops iface source target polls s =
     (let (r, w) = wait_for_probe_source ops iface source target polls None (as_world s) in (r, s\<lparr>as_world := w\<rparr>))"

text \<open>The conflict probes: the first candidate that answers free, unless shutdown is signalled.\<close>

fun choose_candidate ::
    "'w adopt_ops \<Rightarrow> ipv4 option \<Rightarrow> ipv4 list \<Rightarrow> 'w \<Rightarrow> ipv4 option \<times> 'w" where
  "choose_candidate ops source [] w = (None, w)"
| "choose_candidate ops source (c # cs) w =
     (if op_shutdown ops w then (None, w)
      else (case op_probe ops c source w of
              (False, w') \<Rightarrow> (Some c, w')
            | (True, w') \<Rightarrow> choose_candidate ops source cs w'))"

record prepared_scratch =
  prep_address :: ipv4
  prep_adoption_id :: u64

definition prepared_owned ::
    "prepared_scratch option \<Rightarrow> string \<Rightarrow> ipv4 \<Rightarrow> u64 \<Rightarrow> pending_ip list \<Rightarrow> bool" where
  "prepared_owned prepared iface device_ip aid pending =
     (case prepared of
        None \<Rightarrow> True
      | Some p \<Rightarrow> prep_adoption_id p = aid \<and> prep_address p \<noteq> device_ip
          \<and> already_on_subnet device_ip [prep_address p]
          \<and> \<lparr>pi_iface = iface, pi_ip = prep_address p, pi_adoption_id = aid\<rparr> \<in> set pending)"

text \<open>The last part of the adoption: bind the chosen address and wait until it is usable.\<close>

definition bind_final ::
    "'w adopt_ops \<Rightarrow> string \<Rightarrow> ipv4 \<Rightarrow> u64 \<Rightarrow> nat \<Rightarrow> ipv4 \<Rightarrow> 'w adopt_state \<Rightarrow> ipv4 option result \<times> 'w adopt_state" where
  "bind_final ops iface device_ip aid polls candidate s0 =
     (case os_add ops iface candidate ''255.255.255.0'' (pending_insert iface candidate aid s0) of
        (Inl e, s1) \<Rightarrow> (Inl e, release_scratch ops iface candidate aid s1)
      | (Inr _, s1) \<Rightarrow>
          (case wait_in ops iface candidate device_ip polls s1 of
             (Inr True, s2) \<Rightarrow>
               if \<not> op_shutdown ops (as_world s2) then (Inr (Some candidate), s2)
               else (Inr None, release_scratch ops iface candidate aid s2)
           | (Inr False, s2) \<Rightarrow> (Inr None, release_scratch ops iface candidate aid s2)
           | (Inl e, s2) \<Rightarrow> (Inl e, release_scratch ops iface candidate aid s2)))"

text \<open>The middle part, with the scratch address in place: probe, release the scratch, decide.\<close>

definition probe_and_bind ::
    "'w adopt_ops \<Rightarrow> string \<Rightarrow> ipv4 \<Rightarrow> u64 \<Rightarrow> nat \<Rightarrow> nat \<Rightarrow> ipv4 list \<Rightarrow> ipv4 \<Rightarrow> 'w adopt_state
      \<Rightarrow> ipv4 option result \<times> 'w adopt_state" where
  "probe_and_bind ops iface device_ip aid polls1 polls2 candidates scratch s0 =
     (let (readiness, s1) = wait_in ops iface scratch device_ip polls1 s0;
          (chosen, w2) = (if readiness = Inr True then choose_candidate ops (Some scratch) candidates (as_world s1)
                          else (None, as_world s1));
          s3 = release_scratch ops iface scratch aid (s1\<lparr>as_world := w2\<rparr>)
      in case readiness of
           Inl e \<Rightarrow> (Inl e, s3)
         | Inr ready \<Rightarrow>
             if \<not> ready \<or> op_shutdown ops (as_world s3) then (Inr None, s3)
             else (case chosen of
                     None \<Rightarrow> (Inl (Network (''Could not find available IP on subnet for '' @ show_ipv4 device_ip)), s3)
                   | Some candidate \<Rightarrow>
                       if op_shutdown ops (as_world s3) then (Inr None, s3)
                       else bind_final ops iface device_ip aid polls2 candidate s3))"

definition adopt_subnet_with_scratch ::
    "'w adopt_ops \<Rightarrow> string \<Rightarrow> ipv4 \<Rightarrow> ipv4 list \<Rightarrow> ipv4 list \<Rightarrow> u64 \<Rightarrow> nat \<Rightarrow> nat \<Rightarrow> prepared_scratch option
      \<Rightarrow> 'w adopt_state \<Rightarrow> ipv4 option result \<times> 'w adopt_state" where
  "adopt_subnet_with_scratch ops iface device_ip current_ips local_ips aid polls1 polls2 prepared s =
     (if \<not> prepared_owned prepared iface device_ip aid (as_pending s)
      then (Inl (Network ''Prepared probe address ownership is unconfirmed''), s)
      else
        let current = filter (\<lambda>ip. case prepared of None \<Rightarrow> True | Some p \<Rightarrow> prep_address p \<noteq> ip) current_ips in
        if already_on_subnet device_ip current then (Inr None, s)
        else
          let candidates = pick_candidate_ip device_ip (local_ips @ current) in
          if candidates = []
          then (Inl (Network (''No candidate IPs available on subnet for '' @ show_ipv4 device_ip)), s)
          else
            (case prepared of
               Some p \<Rightarrow> probe_and_bind ops iface device_ip aid polls1 polls2 candidates (prep_address p) s
             | None \<Rightarrow>
                 (case bind_scratch ops iface (pick_scratch device_ip candidates) aid s of
                    (Inl e, s1) \<Rightarrow> (Inl e, s1)
                  | (Inr _, s1) \<Rightarrow>
                      probe_and_bind ops iface device_ip aid polls1 polls2 candidates
                        (pick_scratch device_ip candidates) s1)))"

end
