(* ===== verification/Adopt_Laws.thy ===== *)
theory Adopt_Laws
  imports Auto_Adopt
begin

text \<open>
  An adoption can be dropped at any await. \<open>replay\<close> reads a trace of effects as the
  breadcrumbs and the set of temporary addresses that may be on an adapter; the adoption
  keeps, at every point of its trace, a breadcrumb for each of them.
\<close>

section \<open>Traces\<close>

type_synonym ledger = "pending_ip list \<times> (string \<times> ipv4) set"

fun replay :: "adopt_effect \<Rightarrow> ledger \<Rightarrow> ledger" where
  "replay (PendInsert e) (ps, b) = (ps @ [e], b)"
| "replay (OsAdd i ip) (ps, b) = (ps, insert (i, ip) b)"
| "replay (OsRemove i ip ok) (ps, b) = (ps, if ok then b - {(i, ip)} else b)"
| "replay (PendRemove e) (ps, b) = (filter (\<lambda>p. p \<noteq> e) ps, b)"

definition breadcrumbed :: "ledger \<Rightarrow> bool" where
  "breadcrumbed l \<longleftrightarrow> (\<forall>(i, ip)\<in>snd l. \<exists>e\<in>set (fst l). pi_iface e = i \<and> pi_ip e = ip)"

fun safe :: "adopt_effect list \<Rightarrow> ledger \<Rightarrow> bool" where
  "safe [] l = breadcrumbed l"
| "safe (e # t) l = (breadcrumbed l \<and> safe t (replay e l))"

lemma safe_append: "safe (a @ b) l \<longleftrightarrow> safe a l \<and> safe b (fold replay a l)"
proof (induction a arbitrary: l)
  case Nil
  show ?case by (cases b) auto
qed auto

lemma safe_start: "safe t l \<Longrightarrow> breadcrumbed l"
  by (cases t) auto

lemma safe_prefix: "safe t l \<Longrightarrow> breadcrumbed (fold replay (take n t) l)"
proof (induction t arbitrary: l n)
  case (Cons e t)
  then show ?case by (cases n) auto
qed simp

lemma safe_end: "safe t l \<Longrightarrow> breadcrumbed (fold replay t l)"
  using safe_prefix [of t l "length t"] by simp

text \<open>A step of the program extends the trace by a safe piece and leaves the breadcrumbs the
  piece says.\<close>

definition safe_step :: "'w adopt_state \<Rightarrow> 'w adopt_state \<Rightarrow> bool" where
  "safe_step s s' \<longleftrightarrow> (\<exists>t. as_trace s' = as_trace s @ t
     \<and> (\<forall>b. breadcrumbed (as_pending s, b) \<longrightarrow>
          safe t (as_pending s, b) \<and> fst (fold replay t (as_pending s, b)) = as_pending s'))"

lemma safe_step_refl: "as_trace s' = as_trace s \<Longrightarrow> as_pending s' = as_pending s \<Longrightarrow> safe_step s s'"
  by (auto simp: safe_step_def)

lemma safe_step_trans:
  assumes "safe_step a b" "safe_step b c"
  shows "safe_step a c"
proof -
  from assms(1) obtain t where t: "as_trace b = as_trace a @ t"
    and st: "\<And>x. breadcrumbed (as_pending a, x) \<Longrightarrow> safe t (as_pending a, x) \<and> fst (fold replay t (as_pending a, x)) = as_pending b"
    unfolding safe_step_def by blast
  from assms(2) obtain u where u: "as_trace c = as_trace b @ u"
    and su: "\<And>x. breadcrumbed (as_pending b, x) \<Longrightarrow> safe u (as_pending b, x) \<and> fst (fold replay u (as_pending b, x)) = as_pending c"
    unfolding safe_step_def by blast
  have "safe (t @ u) (as_pending a, x) \<and> fst (fold replay (t @ u) (as_pending a, x)) = as_pending c"
    if x: "breadcrumbed (as_pending a, x)" for x
  proof -
    obtain y where y: "fold replay t (as_pending a, x) = (as_pending b, y)"
      using st [OF x] by (metis prod.collapse)
    with safe_end st [OF x] have "breadcrumbed (as_pending b, y)" by metis
    with su st [OF x] y show ?thesis by (simp add: safe_append)
  qed
  with t u show ?thesis unfolding safe_step_def by (intro exI [of _ "t @ u"]) simp
qed

section \<open>The pieces of an adoption\<close>

lemma safe_add:
  "safe_step s (snd (os_add ops iface ip netm (pending_insert iface ip aid s)))"
  by (auto simp: safe_step_def os_add_def pending_insert_def Let_def breadcrumbed_def split: prod.splits
      intro!: exI [of _ "[PendInsert \<lparr>pi_iface = iface, pi_ip = ip, pi_adoption_id = aid\<rparr>, OsAdd iface ip]"])

lemma breadcrumbed_removed:
  assumes "breadcrumbed (ps, b)"
  shows "breadcrumbed (ps, b - x)"
    and "breadcrumbed (filter (\<lambda>p. p \<noteq> e) ps, b - {(pi_iface e, pi_ip e)})"
  using assms by (fastforce simp: breadcrumbed_def)+

lemma safe_release: "safe_step s (release_scratch ops iface ip aid s)"
proof -
  obtain r w where rem: "op_remove ops iface ip (as_world s) = (r, w)" by (metis prod.collapse)
  show ?thesis
  proof (cases r)
    case (Inl e)
    with rem show ?thesis
      by (auto simp: safe_step_def release_scratch_def os_remove_def is_ok_def
          intro!: exI [of _ "[OsRemove iface ip False]"])
  next
    case (Inr u)
    with rem show ?thesis
      by (auto simp: safe_step_def release_scratch_def os_remove_def is_ok_def pending_remove_def Let_def
          breadcrumbed_removed(1) dest: breadcrumbed_removed(2) [where e = "\<lparr>pi_iface = iface, pi_ip = ip, pi_adoption_id = aid\<rparr>"]
          intro!: exI [of _ "[OsRemove iface ip True, PendRemove \<lparr>pi_iface = iface, pi_ip = ip, pi_adoption_id = aid\<rparr>]"])
  qed
qed

lemma safe_world [simp]: "safe_step s (s\<lparr>as_world := w\<rparr>)"
  by (rule safe_step_refl) simp_all

lemma safe_wait: "wait_in ops iface source target polls s = (r, s') \<Longrightarrow> safe_step s s'"
  by (auto simp: wait_in_def split: prod.splits)

lemma safe_bind_scratch: "safe_step s (snd (bind_scratch ops iface ip aid s))"
  using safe_add [of s ops iface ip "''255.255.255.0''" aid] safe_step_trans safe_release
  by (fastforce simp: bind_scratch_def split: prod.splits sum.splits)

lemma safe_bind_final: "safe_step s (snd (bind_final ops iface device_ip aid polls candidate s))"
proof -
  obtain r1 s1 where add: "os_add ops iface candidate ''255.255.255.0'' (pending_insert iface candidate aid s) = (r1, s1)"
    by (metis prod.collapse)
  obtain r2 s2 where wt: "wait_in ops iface candidate device_ip polls s1 = (r2, s2)" by (metis prod.collapse)
  have a: "safe_step s s1" using safe_add [of s ops iface candidate "''255.255.255.0''" aid] add by simp
  have b: "safe_step s s2" using a safe_wait [OF wt] by (rule safe_step_trans)
  note rel = safe_step_trans [OF a safe_release] safe_step_trans [OF b safe_release]
  show ?thesis
    using a b rel by (auto simp: bind_final_def add wt split: sum.splits bool.splits)
qed

lemma safe_probe_and_bind:
  "safe_step s (snd (probe_and_bind ops iface device_ip aid p1 p2 candidates scratch s))"
proof -
  obtain rd s1 where wt: "wait_in ops iface scratch device_ip p1 s = (rd, s1)" by (metis prod.collapse)
  obtain ch w2 where cw: "(if rd = Inr True then choose_candidate ops (Some scratch) candidates (as_world s1)
                          else (None, as_world s1)) = (ch, w2)" by (metis prod.collapse)
  define s3 where "s3 = release_scratch ops iface scratch aid (s1\<lparr>as_world := w2\<rparr>)"
  have s3: "safe_step s s3"
    unfolding s3_def by (rule safe_step_trans [OF safe_step_trans [OF safe_wait [OF wt] safe_world] safe_release])
  show ?thesis
    using s3 safe_step_trans [OF s3 safe_bind_final]
    by (auto simp: probe_and_bind_def wt cw s3_def [symmetric] Let_def split: sum.splits option.splits)
qed

lemma safe_adopt:
  "safe_step s (snd (adopt_subnet_with_scratch ops iface device_ip current local aid p1 p2 prepared s))"
proof -
  have bind: "safe_step s (snd (bind_scratch ops iface sc aid s))" for sc by (rule safe_bind_scratch)
  have "safe_step s (snd (case bind_scratch ops iface sc aid s of (Inl e, s1) \<Rightarrow> (Inl e, s1)
      | (Inr _, s1) \<Rightarrow> probe_and_bind ops iface device_ip aid p1 p2 cs sc s1))" for sc cs
    using bind [of sc] safe_step_trans [OF bind [of sc] safe_probe_and_bind]
    by (auto split: prod.splits sum.splits)
  note found = this
  show ?thesis
  proof (cases prepared)
    case None
    then show ?thesis using found safe_step_refl [of s s]
      by (simp add: adopt_subnet_with_scratch_def Let_def)
  next
    case (Some p)
    then show ?thesis using safe_probe_and_bind safe_step_refl [of s s]
      by (auto simp: adopt_subnet_with_scratch_def Let_def)
  qed
qed

section \<open>What an adoption returns\<close>

lemma pick_candidate_sound:
  "c \<in> set (pick_candidate_ip device_ip used) \<Longrightarrow>
     same24 c device_ip \<and> c \<noteq> device_ip \<and> c \<notin> set used \<and> oct3 c \<notin> {0, 1, 255}"
  by (cases device_ip) (auto simp: pick_candidate_ip_def same24_def simp del: filter.simps)

lemma choose_candidate_sound:
  "choose_candidate ops source cs w = (Some c, w') \<Longrightarrow>
     c \<in> set cs \<and> (\<exists>v. \<not> op_shutdown ops v \<and> op_probe ops c source v = (False, w'))"
  by (induction cs arbitrary: w) (auto split: if_splits prod.splits bool.splits)

definition crumb :: "string \<Rightarrow> ipv4 \<Rightarrow> u64 \<Rightarrow> pending_ip" where
  "crumb iface ip aid = \<lparr>pi_iface = iface, pi_ip = ip, pi_adoption_id = aid\<rparr>"

definition removals_succeed :: "'w adopt_ops \<Rightarrow> bool" where
  "removals_succeed ops \<longleftrightarrow> (\<forall>i ip w. fst (op_remove ops i ip w) = Inr ())"

lemma os_add_pending [simp]: "as_pending (snd (os_add ops iface ip netm s)) = as_pending s"
  by (simp add: os_add_def split: prod.splits)

lemma pending_insert_pending [simp]: "as_pending (pending_insert iface ip aid s) = as_pending s @ [crumb iface ip aid]"
  by (simp add: pending_insert_def crumb_def Let_def)

lemma wait_in_pending [simp]: "as_pending (snd (wait_in ops iface source target polls s)) = as_pending s"
  by (simp add: wait_in_def split: prod.splits)

lemma release_pending [simp]:
  "removals_succeed ops \<Longrightarrow>
     as_pending (release_scratch ops iface ip aid s) = filter (\<lambda>p. p \<noteq> crumb iface ip aid) (as_pending s)"
  using surjective_pairing [of "op_remove ops iface ip (as_world s)"]
  by (auto simp: removals_succeed_def release_scratch_def os_remove_def pending_remove_def crumb_def Let_def
      split: prod.splits sum.splits)

lemma filter_fresh: "e \<notin> set ps \<Longrightarrow> filter (\<lambda>p. p \<noteq> e) ps = ps"
  by (metis (mono_tags, lifting) filter_True)

text \<open>The breadcrumbs after a piece that started from \<open>ps\<close>, with every removal successful: those
  of \<open>ps\<close>, and one more exactly when an address is returned.\<close>

fun outcome :: "string \<Rightarrow> u64 \<Rightarrow> pending_ip list \<Rightarrow> ipv4 option result \<Rightarrow> pending_ip list" where
  "outcome iface aid ps (Inr (Some c)) = ps @ [crumb iface c aid]"
| "outcome iface aid ps _ = ps"

lemma bind_final_parts:
  obtains r1 s1 r2 s2
  where "os_add ops iface candidate ''255.255.255.0'' (pending_insert iface candidate aid s) = (r1, s1)"
    and "wait_in ops iface candidate device_ip polls s1 = (r2, s2)"
    and "as_pending s1 = as_pending s @ [crumb iface candidate aid]" "as_pending s2 = as_pending s1"
proof -
  obtain r1 s1 where add: "os_add ops iface candidate ''255.255.255.0'' (pending_insert iface candidate aid s) = (r1, s1)"
    by (metis prod.collapse)
  obtain r2 s2 where wt: "wait_in ops iface candidate device_ip polls s1 = (r2, s2)" by (metis prod.collapse)
  show ?thesis
    using os_add_pending [of ops iface candidate "''255.255.255.0''" "pending_insert iface candidate aid s"]
      wait_in_pending [of ops iface candidate device_ip polls s1]
    by (intro that [OF add wt]) (simp_all add: add wt)
qed

lemma bind_final_outcome:
  assumes "removals_succeed ops" "crumb iface candidate aid \<notin> set (as_pending s)"
    and "bind_final ops iface device_ip aid polls candidate s = (r, s')"
  shows "as_pending s' = outcome iface aid (as_pending s) r"
  using bind_final_parts [of ops iface candidate aid s device_ip polls]
proof cases
  case (1 r1 s1 r2 s2)
  then show ?thesis
    using assms by (auto simp: bind_final_def filter_fresh split: sum.splits bool.splits if_splits)
qed

lemma bind_final_returns:
  assumes "bind_final ops iface device_ip aid polls candidate s = (Inr (Some c), s')"
  shows "c = candidate \<and> as_pending s' = as_pending s @ [crumb iface c aid] \<and> \<not> op_shutdown ops (as_world s')"
  using bind_final_parts [of ops iface candidate aid s device_ip polls]
proof cases
  case (1 r1 s1 r2 s2)
  then show ?thesis
    using assms by (auto simp: bind_final_def split: sum.splits bool.splits if_splits)
qed

lemma probe_and_bind_parts:
  obtains rd s1 ch w2
  where "wait_in ops iface scratch device_ip p1 s = (rd, s1)" "as_pending s1 = as_pending s"
    and "(if rd = Inr True then choose_candidate ops (Some scratch) candidates (as_world s1)
          else (None, as_world s1)) = (ch, w2)"
proof -
  obtain rd s1 where wt: "wait_in ops iface scratch device_ip p1 s = (rd, s1)" by (metis prod.collapse)
  obtain ch w2 where cw: "(if rd = Inr True then choose_candidate ops (Some scratch) candidates (as_world s1)
                          else (None, as_world s1)) = (ch, w2)" by (metis prod.collapse)
  show ?thesis
    using wait_in_pending [of ops iface scratch device_ip p1 s] by (intro that [OF wt _ cw]) (simp add: wt)
qed

lemma probe_and_bind_outcome:
  assumes ok: "removals_succeed ops"
    and fresh: "\<forall>ip\<in>set candidates. crumb iface ip aid \<notin> set (as_pending s)"
    and run: "probe_and_bind ops iface device_ip aid p1 p2 candidates scratch s = (r, s')"
  shows "as_pending s' = outcome iface aid (filter (\<lambda>p. p \<noteq> crumb iface scratch aid) (as_pending s)) r"
  using probe_and_bind_parts [of ops iface scratch device_ip p1 s candidates]
proof cases
  case (1 rd s1 ch w2)
  note parts = this
  define s3 where "s3 = release_scratch ops iface scratch aid (s1\<lparr>as_world := w2\<rparr>)"
  have s3: "as_pending s3 = filter (\<lambda>p. p \<noteq> crumb iface scratch aid) (as_pending s)"
    unfolding s3_def using ok parts(2) by simp
  have final: "as_pending s' = outcome iface aid (as_pending s3) r"
    if "ch = Some c" "bind_final ops iface device_ip aid p2 c s3 = (r, s')" for c
  proof -
    have "c \<in> set candidates"
      using parts(3) that(1) choose_candidate_sound [of ops "Some scratch" candidates "as_world s1" c w2]
      by (auto split: if_splits)
    with fresh s3 bind_final_outcome [OF ok _ that(2)] show ?thesis by simp
  qed
  show ?thesis
    using run final s3
    by (auto simp: probe_and_bind_def parts(1,3) s3_def [symmetric] Let_def split: sum.splits option.splits if_splits)
qed

lemma probe_and_bind_returns:
  assumes "probe_and_bind ops iface device_ip aid p1 p2 candidates scratch s = (Inr (Some c), s')"
  shows "c \<in> set candidates \<and> (\<exists>v. \<not> fst (op_probe ops c (Some scratch) v))
    \<and> crumb iface c aid \<in> set (as_pending s') \<and> \<not> op_shutdown ops (as_world s')"
  using probe_and_bind_parts [of ops iface scratch device_ip p1 s candidates]
proof cases
  case (1 rd s1 ch w2)
  note parts = this
  define s3 where "s3 = release_scratch ops iface scratch aid (s1\<lparr>as_world := w2\<rparr>)"
  from assms have "rd = Inr True" "ch \<noteq> None" and run: "bind_final ops iface device_ip aid p2 (the ch) s3 = (Inr (Some c), s')"
    by (auto simp: probe_and_bind_def parts(1,3) s3_def [symmetric] Let_def split: sum.splits option.splits if_splits)
  moreover from bind_final_returns [OF run] have "the ch = c" by simp
  ultimately have "choose_candidate ops (Some scratch) candidates (as_world s1) = (Some c, w2)"
    using parts(3) by auto
  from choose_candidate_sound [OF this]
  have "c \<in> set candidates" "\<exists>v. \<not> fst (op_probe ops c (Some scratch) v)"
    by (metis fst_conv)+
  with bind_final_returns [OF run] show ?thesis by auto
qed

lemma bind_scratch_outcome:
  assumes "removals_succeed ops" "crumb iface scratch aid \<notin> set (as_pending s)"
  shows "as_pending (snd (bind_scratch ops iface scratch aid s)) =
    (case fst (bind_scratch ops iface scratch aid s) of
       Inl _ \<Rightarrow> as_pending s | Inr _ \<Rightarrow> as_pending s @ [crumb iface scratch aid])"
proof -
  obtain r1 s1 where add: "os_add ops iface scratch ''255.255.255.0'' (pending_insert iface scratch aid s) = (r1, s1)"
    by (metis prod.collapse)
  have "as_pending s1 = as_pending s @ [crumb iface scratch aid]"
    using os_add_pending [of ops iface scratch "''255.255.255.0''" "pending_insert iface scratch aid s"] add by simp
  with assms show ?thesis
    by (cases r1) (auto simp: bind_scratch_def add filter_fresh)
qed

text \<open>The scratch address is never one of the candidates, so freeing it frees no candidate.\<close>

lemma pick_candidate_last: "l \<in> oct3 ` set (pick_candidate_ip device_ip used) \<Longrightarrow>
    l \<in> {100, 101, 99, 102, 98, 103, 97, 104, 96, 105, 95}"
  by (auto simp: pick_candidate_ip_def simp del: filter.simps)

lemma find_some_if: "List.find p xs = None \<longleftrightarrow> (\<forall>x\<in>set xs. \<not> p x)"
  by (auto simp: find_None_iff)

lemma pick_scratch_sound:
  assumes "c = pick_scratch device_ip (pick_candidate_ip device_ip used)"
  shows "same24 c device_ip \<and> c \<noteq> device_ip \<and> c \<notin> set (pick_candidate_ip device_ip used)"
proof -
  let ?free = "\<lambda>l. l \<noteq> oct3 device_ip \<and> l \<notin> oct3 ` set (pick_candidate_ip device_ip used)"
  have far: "l \<notin> oct3 ` set (pick_candidate_ip device_ip used)" if "l \<in> {254, 253}" for l
  proof
    assume "l \<in> oct3 ` set (pick_candidate_ip device_ip used)"
    from pick_candidate_last [OF this] that show False by auto
  qed
  have "\<exists>l\<in>{254, 253}. ?free l"
    using far [of 254] far [of 253] by (cases "oct3 device_ip = 254") auto
  then have "List.find ?free [254, 253, 252, 251, 250, 2, 3, 4, 5, 6] \<noteq> None"
    unfolding find_some_if by auto
  then obtain l where l: "List.find ?free [254, 253, 252, 251, 250, 2, 3, 4, 5, 6] = Some l" by blast
  then have "?free l" unfolding find_Some_iff by metis
  with assms l show ?thesis
    by (cases device_ip) (auto simp: pick_scratch_def Let_def same24_def image_iff)
qed

section \<open>Reconciliation\<close>

definition concerns :: "u64 option \<Rightarrow> pending_ip \<Rightarrow> bool" where
  "concerns flt e = (case flt of None \<Rightarrow> True | Some aid \<Rightarrow> pi_adoption_id e = aid)"

lemma reconcile_entry_release:
  "reconcile_entry ops e = release_scratch ops (pi_iface e) (pi_ip e) (pi_adoption_id e)"
  by (simp add: reconcile_entry_def release_scratch_def fun_eq_iff)

lemma crumb_self [simp]: "crumb (pi_iface e) (pi_ip e) (pi_adoption_id e) = e"
  by (simp add: crumb_def)

lemma release_pending_cases:
  "as_pending (release_scratch ops iface ip aid s) \<in>
     {as_pending s, filter (\<lambda>p. p \<noteq> crumb iface ip aid) (as_pending s)}"
  by (simp add: release_scratch_def os_remove_def pending_remove_def crumb_def Let_def split: prod.splits sum.splits)

lemma safe_reconcile_entry: "safe_step s (reconcile_entry ops e s)"
  by (simp add: reconcile_entry_release safe_release)

lemma safe_reconcile: "safe_step s (reconcile_pending ops flt s)"
proof -
  have "safe_step s (fold (reconcile_entry ops) es s)" for es
    by (induction es arbitrary: s)
      (auto intro: safe_step_refl safe_step_trans [OF safe_reconcile_entry])
  then show ?thesis unfolding reconcile_pending_def .
qed

lemma reconcile_fold_pending:
  "set (as_pending s) - set es \<subseteq> set (as_pending (fold (reconcile_entry ops) es s))
     \<and> set (as_pending (fold (reconcile_entry ops) es s)) \<subseteq> set (as_pending s)"
proof (induction es arbitrary: s)
  case (Cons e es)
  have "set (as_pending s) - {e} \<subseteq> set (as_pending (reconcile_entry ops e s))"
    "set (as_pending (reconcile_entry ops e s)) \<subseteq> set (as_pending s)"
    using release_pending_cases [of ops "pi_iface e" "pi_ip e" "pi_adoption_id e" s]
    by (auto simp: reconcile_entry_release)
  with Cons.IH [of "reconcile_entry ops e s"] show ?case by fastforce
qed simp

lemma reconcile_fold_ok:
  "removals_succeed ops \<Longrightarrow>
     as_pending (fold (reconcile_entry ops) es s) = filter (\<lambda>p. p \<notin> set es) (as_pending s)"
  by (induction es arbitrary: s) (auto simp: reconcile_entry_release intro: filter_cong)

section \<open>Dwell histories\<close>

text \<open>A run of the tracker, with the checks that were made.\<close>

datatype dwell_op = DwCheck string string string instant | DwProbe string string instant | DwPrune string

type_synonym dwell_run = "dwell_tracker \<times> (string \<times> string \<times> string \<times> instant) list"

fun dwell_step :: "dwell_op \<Rightarrow> dwell_run \<Rightarrow> dwell_run" where
  "dwell_step (DwCheck subnet mac token now) (t, h) =
     (snd (dwell_check subnet mac token now t), h @ [(subnet, mac, token, now)])"
| "dwell_step (DwProbe subnet mac now) (t, h) = (snd (take_probe_due subnet mac now t), h)"
| "dwell_step (DwPrune subnet) (t, h) = (prune_subnet subnet t, h)"

definition witnessed :: "(string \<times> string \<times> string \<times> instant) list \<Rightarrow> string \<Rightarrow> string \<Rightarrow> string \<Rightarrow> instant \<Rightarrow> bool" where
  "witnessed h subnet mac token since \<longleftrightarrow>
     (\<exists>h1 h2. h = h1 @ (subnet, mac, token, since) # h2 \<and> (\<forall>(s, m, _, _)\<in>set h2. m = mac \<longrightarrow> s = subnet))"

definition dwell_inv :: "dwell_run \<Rightarrow> bool" where
  "dwell_inv r \<longleftrightarrow> hm_wf (fst r)
     \<and> (\<forall>s m c. hm_get (fst r) (s, m) = Some c \<longrightarrow> witnessed (snd r) s m (dc_token c) (dc_first_qualifying c))"

lemma witnessed_snoc:
  "witnessed h s m token since \<Longrightarrow> (m' = m \<longrightarrow> s' = s) \<Longrightarrow> witnessed (h @ [(s', m', token', now)]) s m token since"
  by (fastforce simp: witnessed_def)

lemma witnessed_last: "witnessed (h @ [(s, m, token, now)]) s m token now"
  by (fastforce simp: witnessed_def)

lemma dwell_check_get:
  "hm_wf t \<Longrightarrow> hm_get (snd (dwell_check subnet mac token now t)) (s, m) = Some c \<Longrightarrow>
     (s, m, dc_token c, dc_first_qualifying c) = (subnet, mac, token, now)
     \<or> ((m = mac \<longrightarrow> s = subnet) \<and> (\<exists>c'. hm_get t (s, m) = Some c' \<and> dc_token c' = dc_token c
          \<and> dc_first_qualifying c' = dc_first_qualifying c))"
  by (auto simp: dwell_check_def Let_def hm_simps wf_intros split: option.splits if_splits)

lemma dwell_check_wf: "hm_wf t \<Longrightarrow> hm_wf (snd (dwell_check subnet mac token now t))"
  by (auto simp: dwell_check_def Let_def wf_intros split: option.splits)

lemma take_probe_get:
  "hm_get (snd (take_probe_due subnet mac now t)) (s, m) = Some c \<Longrightarrow>
     \<exists>c'. hm_get t (s, m) = Some c' \<and> dc_token c' = dc_token c \<and> dc_first_qualifying c' = dc_first_qualifying c"
  by (auto simp: take_probe_due_def hm_simps split: option.splits if_splits)

lemma take_probe_wf: "hm_wf t \<Longrightarrow> hm_wf (snd (take_probe_due subnet mac now t))"
  by (auto simp: take_probe_due_def wf_intros split: option.splits)

interpretation dwell: guarded_machine "\<lambda>r. r = ([], [])" dwell_step dwell_inv
proof
  fix e and r :: dwell_run
  assume inv: "dwell_inv r"
  obtain t h where r: "r = (t, h)" by (cases r)
  from inv have wf: "hm_wf t" by (simp add: dwell_inv_def r)
  show "dwell_inv (dwell_step e r)"
  proof (cases e)
    case (DwCheck subnet mac token now)
    with inv wf show ?thesis
      by (auto simp: dwell_inv_def r dwell_check_wf dest!: dwell_check_get [OF wf] intro: witnessed_last witnessed_snoc)
        (metis witnessed_snoc)+
  next
    case (DwProbe subnet mac now)
    with inv wf show ?thesis
      by (auto simp: dwell_inv_def r take_probe_wf dest!: take_probe_get) metis
  next
    case (DwPrune subnet)
    with inv wf show ?thesis
      by (auto simp: dwell_inv_def r prune_subnet_def wf_intros hm_simps split: option.splits if_splits)
  qed
qed (simp add: dwell_inv_def)

text \<open>An operating system in which every call succeeds and no address is taken, for the examples.\<close>

definition honest :: "unit adopt_ops" where
  "honest = \<lparr>op_add = (\<lambda>_ _ _ w. (Inr (), w)), op_remove = (\<lambda>_ _ w. (Inr (), w)),
     op_probe_state = (\<lambda>_ _ _ w. (Inr ProbeReady, w)), op_probe = (\<lambda>_ _ w. (False, w)),
     op_shutdown = (\<lambda>_. False), op_wait = (\<lambda>w. (Slept, w))\<rparr>"

lemma honest_adopts:
  "adopt_subnet_with_scratch honest ''eth'' (Ipv4 10 0 0 5) [] [Ipv4 192 168 0 2] 7 1 1 None
       \<lparr>as_world = (), as_pending = [], as_trace = []\<rparr> =
     (Inr (Some (Ipv4 10 0 0 100)),
      \<lparr>as_world = (), as_pending = [crumb ''eth'' (Ipv4 10 0 0 100) 7],
       as_trace = [PendInsert (crumb ''eth'' (Ipv4 10 0 0 254) 7), OsAdd ''eth'' (Ipv4 10 0 0 254),
         OsRemove ''eth'' (Ipv4 10 0 0 254) True, PendRemove (crumb ''eth'' (Ipv4 10 0 0 254) 7),
         PendInsert (crumb ''eth'' (Ipv4 10 0 0 100) 7), OsAdd ''eth'' (Ipv4 10 0 0 100)]\<rparr>)"
  by (simp add: honest_def adopt_subnet_with_scratch_def prepared_owned_def already_on_subnet_def
      pick_candidate_ip_def pick_scratch_def bind_scratch_def os_add_def pending_insert_def probe_and_bind_def
      wait_in_def release_scratch_def os_remove_def pending_remove_def is_ok_def bind_final_def crumb_def
      Let_def)

section \<open>Properties\<close>

text \<open>C20: an adoption that is dropped at any point leaves a breadcrumb for every temporary address
  it may have put on an adapter: every prefix of its trace keeps each possibly bound address in the
  list of pending addresses, and the list at the end is the one the trace leaves.\<close>

theorem dropped_adoption_is_recoverable:
  fixes ops :: "'w adopt_ops"
  assumes "adopt_subnet_with_scratch ops iface device_ip current local aid p1 p2 prepared
      \<lparr>as_world = w, as_pending = ps, as_trace = []\<rparr> = (r, s')"
    and "breadcrumbed (ps, bound)"
  shows "breadcrumbed (fold replay (take n (as_trace s')) (ps, bound))
    \<and> fst (fold replay (as_trace s') (ps, bound)) = as_pending s'"
  using assms safe_adopt [of "\<lparr>as_world = w, as_pending = ps, as_trace = []\<rparr>" ops iface device_ip current local aid p1 p2 prepared]
  by (auto simp: safe_step_def intro: safe_prefix)

theorem dropped_adoption_is_recoverable_witness:
  "breadcrumbed (fold replay (take 2 (as_trace (snd (adopt_subnet_with_scratch honest ''eth'' (Ipv4 10 0 0 5) [] [Ipv4 192 168 0 2] 7 1 1 None
       \<lparr>as_world = (), as_pending = [], as_trace = []\<rparr>)))) ([], {}))"
  using dropped_adoption_is_recoverable [OF honest_adopts, of "{}" 2] honest_adopts
  by (simp add: breadcrumbed_def)

text \<open>an address returned by an adoption is on the device's /24, is not the device's own, nor
  one of this machine's, nor a network, gateway or broadcast address of it; a conflict probe found
  it free, no shutdown was signalled, and its breadcrumb is held for the commit.\<close>

theorem adopted_address_sound:
  assumes "adopt_subnet_with_scratch ops iface device_ip current local aid p1 p2 prepared s = (Inr (Some c), s')"
  shows "same24 c device_ip \<and> c \<noteq> device_ip \<and> c \<notin> set local \<and> oct3 c \<notin> {0, 1, 255}
    \<and> (\<exists>source v. \<not> fst (op_probe ops c (Some source) v))
    \<and> crumb iface c aid \<in> set (as_pending s') \<and> \<not> op_shutdown ops (as_world s')"
proof -
  obtain cur sc s1 where
    "probe_and_bind ops iface device_ip aid p1 p2 (pick_candidate_ip device_ip (local @ cur)) sc s1 = (Inr (Some c), s')"
    using assms by (auto simp: adopt_subnet_with_scratch_def Let_def split: if_splits option.splits prod.splits sum.splits)
  from probe_and_bind_returns [OF this] pick_candidate_sound [of c device_ip "local @ cur"] show ?thesis
    by auto
qed

theorem adopted_address_sound_witness:
  "fst (adopt_subnet_with_scratch honest ''eth'' (Ipv4 10 0 0 5) [] [Ipv4 192 168 0 2] 7 1 1 None
       \<lparr>as_world = (), as_pending = [], as_trace = []\<rparr>) = Inr (Some (Ipv4 10 0 0 100))
   \<and> same24 (Ipv4 10 0 0 100) (Ipv4 10 0 0 5)"
  using adopted_address_sound [OF honest_adopts] honest_adopts by simp

text \<open>C24: when the operating system honours every removal, an adoption under a fresh id leaves
  exactly the breadcrumbs it found, and one more exactly when it returns an address: errors,
  conflicts, timeouts and shutdown all clean up.\<close>

theorem adoption_cleans_up:
  assumes "adopt_subnet_with_scratch ops iface device_ip current local aid p1 p2 None s = (r, s')"
    and ok: "removals_succeed ops" and fresh: "\<forall>e\<in>set (as_pending s). pi_adoption_id e \<noteq> aid"
  shows "as_pending s' = outcome iface aid (as_pending s) r"
proof -
  let ?cs = "pick_candidate_ip device_ip (local @ current)"
  let ?sc = "pick_scratch device_ip ?cs"
  have new: "crumb iface ip aid \<notin> set (as_pending s)" for ip
    using fresh by (auto simp: crumb_def)
  obtain r1 s1 where b: "bind_scratch ops iface ?sc aid s = (r1, s1)" by (metis prod.collapse)
  have s1: "as_pending s1 = (case r1 of Inl _ \<Rightarrow> as_pending s | Inr _ \<Rightarrow> as_pending s @ [crumb iface ?sc aid])"
    using bind_scratch_outcome [OF ok new, of ?sc] b by simp
  have "?sc \<notin> set ?cs" using pick_scratch_sound by blast
  then have cand: "\<forall>ip\<in>set ?cs. crumb iface ip aid \<notin> set (as_pending s1)"
    using s1 new by (auto simp: crumb_def split: sum.splits)
  have "as_pending s' = outcome iface aid (as_pending s) r"
    if "r1 = Inr u" "probe_and_bind ops iface device_ip aid p1 p2 ?cs ?sc s1 = (r, s')" for u
    using probe_and_bind_outcome [OF ok cand that(2)] s1 that(1) new by (simp add: filter_fresh)
  with assms(1) b s1 show ?thesis
    by (auto simp: adopt_subnet_with_scratch_def prepared_owned_def Let_def split: if_splits sum.splits)
qed

theorem adoption_cleans_up_witness:
  "as_pending (snd (adopt_subnet_with_scratch (honest\<lparr>op_probe := (\<lambda>_ _ w. (True, w))\<rparr>) ''eth'' (Ipv4 10 0 0 5) [] [] 7 1 1 None
       \<lparr>as_world = (), as_pending = [], as_trace = []\<rparr>)) = []"
proof -
  let ?run = "adopt_subnet_with_scratch (honest\<lparr>op_probe := (\<lambda>_ _ w. (True, w))\<rparr>) ''eth'' (Ipv4 10 0 0 5) [] [] 7 1 1 None
       \<lparr>as_world = (), as_pending = [], as_trace = []\<rparr>"
  have "fst ?run = Inl (Network (''Could not find available IP on subnet for '' @ show_ipv4 (Ipv4 10 0 0 5)))"
    by (simp add: honest_def adopt_subnet_with_scratch_def prepared_owned_def already_on_subnet_def
      pick_candidate_ip_def pick_scratch_def bind_scratch_def os_add_def pending_insert_def probe_and_bind_def
      wait_in_def release_scratch_def os_remove_def pending_remove_def is_ok_def Let_def)
  moreover have "as_pending (snd ?run) = outcome ''eth'' 7 [] (fst ?run)"
    using adoption_cleans_up [OF surjective_pairing, of "honest\<lparr>op_probe := (\<lambda>_ _ w. (True, w))\<rparr>"
        "\<lparr>as_world = (), as_pending = [], as_trace = []\<rparr>" 7 "''eth''" "Ipv4 10 0 0 5" "[]" "[]" 1 1]
    by (simp add: honest_def removals_succeed_def)
  ultimately show ?thesis by simp
qed

text \<open>reconciliation only removes breadcrumbs of the adoption it was asked to clean up, drops
  one only after the operating system confirmed the removal (every prefix of the trace stays
  recoverable), and drops all of them when every removal succeeds.\<close>

theorem reconcile_pending_exact:
  "set (filter (\<lambda>e. \<not> concerns flt e) (as_pending s)) \<subseteq> set (as_pending (reconcile_pending ops flt s))
    \<and> set (as_pending (reconcile_pending ops flt s)) \<subseteq> set (as_pending s)
    \<and> safe_step s (reconcile_pending ops flt s)
    \<and> (removals_succeed ops \<longrightarrow>
        as_pending (reconcile_pending ops flt s) = filter (\<lambda>e. \<not> concerns flt e) (as_pending s))"
proof -
  let ?es = "filter (concerns flt) (as_pending s)"
  have r: "reconcile_pending ops flt s = fold (reconcile_entry ops) ?es s"
    by (simp add: reconcile_pending_def concerns_def [abs_def])
  have "as_pending (reconcile_pending ops flt s) = filter (\<lambda>e. \<not> concerns flt e) (as_pending s)" if "removals_succeed ops"
    unfolding r reconcile_fold_ok [OF that] by (rule filter_cong) auto
  with reconcile_fold_pending [of s ?es ops] safe_reconcile [of s ops flt] r show ?thesis by auto
qed

theorem reconcile_pending_exact_witness:
  "as_pending (reconcile_pending honest (Some 7) \<lparr>as_world = (), as_pending = [crumb ''eth'' (Ipv4 10 0 0 100) 7,
       crumb ''eth'' (Ipv4 10 0 1 100) 8], as_trace = []\<rparr>) = [crumb ''eth'' (Ipv4 10 0 1 100) 8]"
  using reconcile_pending_exact [of "Some 7" "\<lparr>as_world = (), as_pending = [crumb ''eth'' (Ipv4 10 0 0 100) 7,
       crumb ''eth'' (Ipv4 10 0 1 100) 8], as_trace = []\<rparr>" honest]
  by (simp add: honest_def removals_succeed_def concerns_def crumb_def)

text \<open>a subnet is adopted only after two distinct frames: in every run of the tracker, a check
  is mature only if an earlier check of the same device on the same subnet carried another token at
  least the dwell time before, and the device was not checked on another subnet in between.\<close>

theorem mature_needs_two_frames:
  assumes "fold dwell_step es ([], []) = (t, h)"
    and "fst (dwell_check subnet mac token now t) = Mature"
  shows "\<exists>first since. first \<noteq> token \<and> since + DWELL_MIN \<le> now \<and> witnessed h subnet mac first since"
proof -
  have inv: "dwell_inv (t, h)" using dwell.reach_inv [of "([], [])" es] assms(1) by simp
  then have wf: "hm_wf t" by (simp add: dwell_inv_def)
  from assms(2) wf obtain c where "hm_get t (subnet, mac) = Some c"
    "dc_token c \<noteq> token" "DWELL_MIN \<le> now - dc_first_qualifying c"
    by (auto simp: dwell_check_def Let_def hm_simps wf_intros split: option.splits if_splits)
  with inv show ?thesis
    by (intro exI [of _ "dc_token c"] exI [of _ "dc_first_qualifying c"]) (auto simp: dwell_inv_def DWELL_MIN_def)
qed

theorem mature_needs_two_frames_witness:
  "let t = fst (fold dwell_step [DwCheck ''10.0.0'' ''aa'' ''t1'' 1000] ([], [])) in
     fst (dwell_check ''10.0.0'' ''aa'' ''t2'' 3000 t) = Mature
     \<and> (\<exists>first since. first \<noteq> ''t2'' \<and> since + DWELL_MIN \<le> 3000
          \<and> witnessed [(''10.0.0'', ''aa'', ''t1'', 1000)] ''10.0.0'' ''aa'' first since)"
proof -
  let ?t = "fst (fold dwell_step [DwCheck ''10.0.0'' ''aa'' ''t1'' 1000] ([], []))"
  have "fst (dwell_check ''10.0.0'' ''aa'' ''t2'' 3000 ?t) = Mature"
    by (simp add: dwell_check_def hm_retain_def hm_insert_def DWELL_CANDIDATE_TTL_def DWELL_MIN_def)
  moreover from this have "\<exists>first since. first \<noteq> ''t2'' \<and> since + DWELL_MIN \<le> 3000
          \<and> witnessed [(''10.0.0'', ''aa'', ''t1'', 1000)] ''10.0.0'' ''aa'' first since"
    by (intro mature_needs_two_frames [of "[DwCheck ''10.0.0'' ''aa'' ''t1'' 1000]"]) simp_all
  ultimately show ?thesis by (simp add: Let_def)
qed

end
