(* ===== verification/Temporary_Claims.thy ===== *)
theory Temporary_Claims
  imports Adopt_Laws
begin

text \<open>
  The durable side of an adoption: \<open>PendingAdoptOps\<close> of \<open>network/auto_adopt.rs\<close>, which
  records a temporary address in the saved settings before the operating system is asked for
  it and forgets it after its removal was observed, and \<open>commit_pending_address\<close> of
  \<open>network/mod.rs\<close>, which hands an adopted address over.

  The wrapped operations (\<open>native_ops\<close>) are functions over the whole state, configuration
  and disk included: what other tasks do while a call is awaited is part of the call.
\<close>

section \<open>Model\<close>

type_synonym ('d, 'w) host = "(app_config \<times> 'd) \<times> 'w"

record 'v native_ops =
  no_check :: "'v \<Rightarrow> unit result"
  no_observe :: "string \<Rightarrow> (interface_info, 'v) io"
  no_add :: "string \<Rightarrow> ipv4 \<Rightarrow> string \<Rightarrow> (unit, 'v) io"
  no_remove :: "string \<Rightarrow> ipv4 \<Rightarrow> (unit, 'v) io"

abbreviation host_settings :: "('d, 'w) host \<Rightarrow> app_settings" where
  "host_settings v \<equiv> cfg_settings (fst (fst v))"

abbreviation host_disk :: "('d, 'w) host \<Rightarrow> 'd" where
  "host_disk v \<equiv> snd (fst v)"

definition on_config :: "(app_config \<times> 'd \<Rightarrow> 'a result \<times> (app_config \<times> 'd)) \<Rightarrow> ('a, ('d, 'w) host) io" where
  "on_config f v = (let (r, cd) = f (fst v) in (r, (cd, snd v)))"

definition observe_owned :: "'v native_ops \<Rightarrow> string \<Rightarrow> string \<Rightarrow> (interface_info, 'v) io" where
  "observe_owned ops owner_mac iface =
     io_bind (no_observe ops iface) (\<lambda>current.
       if canonical_mac (if_mac current) \<noteq> canonical_mac owner_mac \<or> canonical_mac owner_mac = None
       then io_lift (Inl (Network ''Temporary address adapter changed''))
       else io_lift (Inr current))"

definition shows_address :: "string \<Rightarrow> interface_info \<Rightarrow> bool" where
  "shows_address a i = list_ex (\<lambda>x. ip_address x = a) (if_ips i)"

text \<open>The second half of the add, with the claim to be recorded.\<close>

definition claim_then_add ::
    "('d, 'w) host native_ops \<Rightarrow> 'd persist \<Rightarrow> string \<Rightarrow> string \<Rightarrow> ipv4 \<Rightarrow> string \<Rightarrow> pending_address
      \<Rightarrow> (unit, ('d, 'w) host) io" where
  "claim_then_add ops persist owner_mac iface ip netm row =
     io_bind (\<lambda>v. if row \<in> set (pending_addresses (host_settings v))
                  then on_config (forget_temporary_with row persist) v else (Inr (), v)) (\<lambda>_.
     io_bind (on_config (reserve_temporary_with row persist)) (\<lambda>_.
     io_bind (observe_owned ops owner_mac iface) (\<lambda>again.
     if shows_address (pa_address row) again
     then io_bind (on_config (forget_temporary_with row persist)) (\<lambda>_.
            io_lift (Inl (Network ''Address appeared before temporary add; no OS change made'')))
     else no_add ops iface ip netm)))"

definition pending_ops_add ::
    "('d, 'w) host native_ops \<Rightarrow> 'd persist \<Rightarrow> string \<Rightarrow> string \<Rightarrow> ipv4 \<Rightarrow> string \<Rightarrow> (unit, ('d, 'w) host) io" where
  "pending_ops_add ops persist owner_mac iface ip netm =
     io_bind (io_get (no_check ops)) (\<lambda>_.
     io_bind (io_lift (mask_to_prefix netm)) (\<lambda>prefix.
     io_bind (io_lift (ok_or (Network ''Invalid temporary adapter owner'') (canonical_mac owner_mac))) (\<lambda>owner.
     let row = \<lparr>pa_adapter_mac = owner, pa_address = show_ipv4 ip, pa_prefix = prefix\<rparr> in
     io_bind (observe_owned ops owner_mac iface) (\<lambda>current.
     if shows_address (pa_address row) current
     then io_lift (Inl (Network ''Address already exists; temporary ownership not claimed''))
     else claim_then_add ops persist owner_mac iface ip netm row))))"

definition pending_claim :: "string \<Rightarrow> ipv4 \<Rightarrow> app_settings \<Rightarrow> pending_address option" where
  "pending_claim owner_mac ip s =
     List.find (\<lambda>p. pa_address p = show_ipv4 ip \<and> Some (pa_adapter_mac p) = canonical_mac owner_mac)
       (pending_addresses s)"

definition claim_committed :: "pending_address \<Rightarrow> app_settings \<Rightarrow> bool" where
  "claim_committed row s =
     list_ex (\<lambda>m. am_address m = Some (pa_address row) \<and> am_adapter_mac m = Some (pa_adapter_mac row))
       (hm_values (adopted_meta_map s))"

definition remove_observed ::
    "('d, 'w) host native_ops \<Rightarrow> string \<Rightarrow> string \<Rightarrow> ipv4 \<Rightarrow> pending_address \<Rightarrow> (unit, ('d, 'w) host) io" where
  "remove_observed ops owner_mac iface ip row =
     io_bind (observe_owned ops owner_mac iface) (\<lambda>current.
     case List.find (\<lambda>a. ip_address a = pa_address row) (if_ips current) of
       None \<Rightarrow> io_lift (Inr ())
     | Some observed \<Rightarrow>
         if ip_prefix observed \<noteq> pa_prefix row
         then io_lift (Inl (Network ''Temporary address prefix changed; no removal made''))
         else
           io_bind (no_remove ops iface ip) (\<lambda>_.
           io_bind (observe_owned ops owner_mac iface) (\<lambda>again.
           if shows_address (pa_address row) again
           then io_lift (Inl (Network ''Temporary address remains after removal''))
           else io_lift (Inr ()))))"

definition pending_ops_remove ::
    "('d, 'w) host native_ops \<Rightarrow> 'd persist \<Rightarrow> string \<Rightarrow> string \<Rightarrow> ipv4 \<Rightarrow> (unit, ('d, 'w) host) io" where
  "pending_ops_remove ops persist owner_mac iface ip =
     io_bind (io_get (no_check ops)) (\<lambda>_ v.
     case pending_claim owner_mac ip (host_settings v) of
       None \<Rightarrow> (Inr (), v)
     | Some row \<Rightarrow>
         if claim_committed row (host_settings v) then on_config (forget_temporary_with row persist) v
         else
           io_bind (remove_observed ops owner_mac iface ip row) (\<lambda>_.
             on_config (forget_temporary_with row persist)) v)"

definition commit_pending_address ::
    "string \<Rightarrow> ipv4 \<Rightarrow> u64 \<Rightarrow> ('v \<Rightarrow> unit result \<times> 'v) \<Rightarrow> (unit, pending_ip list \<times> 'v) io" where
  "commit_pending_address iface ip aid commit = (\<lambda>(pending, v).
     case commit v of
       (Inl e, v') \<Rightarrow> (Inl e, (pending, v'))
     | (Inr _, v') \<Rightarrow>
         (Inr (), (filter (\<lambda>e. \<not> (pi_iface e = iface \<and> pi_ip e = ip \<and> pi_adoption_id e = aid)) pending, v')))"

text \<open>The commit of the adoption loop (\<open>network/adopt_loop.rs\<close>): the binding row is written only
  while the work is current and its adapter is still the selected one.\<close>

definition adopted_row :: "string \<Rightarrow> string option \<Rightarrow> ipv4 \<Rightarrow> adopted_meta" where
  "adopted_row now owner ip = adopted_meta_default\<lparr>am_adopted_at := Some now, am_last_device_seen := Some now,
     am_adapter_mac := owner, am_address := Some (show_ipv4 ip), am_prefix := Some 24, am_applied := True\<rparr>"

definition adoption_commit ::
    "sweep_fence \<Rightarrow> sweep_fence \<Rightarrow> string \<Rightarrow> string \<Rightarrow> adopted_meta \<Rightarrow> (unit, 'd) writer" where
  "adoption_commit fence address_fence mac subnet row persist = (\<lambda>(c, d).
     if is_stale fence \<or> is_stale address_fence
        \<or> Option.bind (selected_adapter_mac (cfg_settings c)) adapter_mac \<noteq> adapter_mac mac
     then (Inl (Network ''Adapter or address work changed before commit''), (c, d))
     else set_binding_with subnet row persist (c, d))"

section \<open>Laws\<close>

lemma on_config_iff: "on_config f v = (r, v') \<longleftrightarrow> f (fst v) = (r, fst v') \<and> snd v' = snd v"
  by (cases v'; auto simp: on_config_def split: prod.splits)

definition claimed :: "('d \<Rightarrow> app_settings) \<Rightarrow> pending_address \<Rightarrow> ('d, 'w) host \<Rightarrow> bool" where
  "claimed img row v \<longleftrightarrow> row \<in> set (pending_addresses (img (host_disk v)))"

text \<open>Observing an adapter does not take a claim away (what else runs while it is awaited
  included).\<close>

definition observe_keeps :: "('d \<Rightarrow> app_settings) \<Rightarrow> ('d, 'w) host native_ops \<Rightarrow> bool" where
  "observe_keeps img ops \<longleftrightarrow>
     (\<forall>iface row v. claimed img row v \<longrightarrow> claimed img row (snd (no_observe ops iface v)))"

lemma reserve_claims:
  assumes "atomic_persist img p" "on_config (reserve_temporary_with row p) v = (Inr (), v')"
  shows "claimed img row v'"
proof -
  obtain c d c' d' where "fst v = (c, d)" "fst v' = (c', d')" by (metis prod.collapse)
  with assms show ?thesis
    by (auto simp: on_config_iff claimed_def reserve_temporary_with_def change_settings_with_def
        change_settings_if_with_def dest: atomic_persistD(1) split: if_splits)
qed

lemma forget_unclaims:
  assumes "atomic_persist img p" "on_config (forget_temporary_with row p) v = (Inr (), v')"
  shows "\<not> claimed img row v' \<and> row \<notin> set (pending_addresses (host_settings v'))
    \<and> adopted_meta_map (host_settings v') = adopted_meta_map (host_settings v)"
proof -
  obtain c d c' d' where "fst v = (c, d)" "fst v' = (c', d')" by (metis prod.collapse)
  with assms show ?thesis
    by (auto simp: on_config_iff claimed_def forget_temporary_with_def change_settings_with_def
        change_settings_if_with_def dest: atomic_persistD(1))
qed

lemma observe_owned_Inr:
  "observe_owned ops owner_mac iface v = (Inr i, v') \<Longrightarrow>
     no_observe ops iface v = (Inr i, v') \<and> canonical_mac (if_mac i) = canonical_mac owner_mac"
  by (auto simp: observe_owned_def io_bind_Inr_iff split: if_splits)

lemma observe_owned_claimed:
  "observe_keeps img ops \<Longrightarrow> observe_owned ops owner_mac iface v = (Inr i, v') \<Longrightarrow> claimed img row v \<Longrightarrow> claimed img row v'"
  by (drule observe_owned_Inr) (metis observe_keeps_def snd_conv)

lemma observe_owned_update [simp]:
  "observe_owned (ops\<lparr>no_add := f\<rparr>) = observe_owned ops"
  "observe_owned (ops\<lparr>no_remove := g\<rparr>) = observe_owned ops"
  by (simp_all add: observe_owned_def fun_eq_iff)

text \<open>The operating system is asked for an address only in a state where its claim is saved: any
  other add that agrees with the given one on those states gives the same run.\<close>

lemma claim_then_add_claimed:
  assumes "atomic_persist img p" "observe_keeps img ops"
    and "\<And>u. claimed img row u \<Longrightarrow> add' iface ip netm u = no_add ops iface ip netm u"
  shows "claim_then_add (ops\<lparr>no_add := add'\<rparr>) p owner_mac iface ip netm row =
         claim_then_add ops p owner_mac iface ip netm row"
  unfolding claim_then_add_def observe_owned_update
proof (rule ext, rule io_bind_cong [OF refl], rule io_bind_cong [OF refl], rule io_bind_cong [OF refl])
  fix v x u x' u' again w
  assume "on_config (reserve_temporary_with row p) u = (Inr x', u')"
    and "observe_owned ops owner_mac iface u' = (Inr again, w)"
  then have "claimed img row w"
    using reserve_claims [OF assms(1)] observe_owned_claimed [OF assms(2)] by (metis unit_eq)
  with assms(3) show "(if shows_address (pa_address row) again
      then io_bind (on_config (forget_temporary_with row p))
        (\<lambda>_. io_lift (Inl (Network ''Address appeared before temporary add; no OS change made'')))
      else no_add (ops\<lparr>no_add := add'\<rparr>) iface ip netm) w =
     (if shows_address (pa_address row) again
      then io_bind (on_config (forget_temporary_with row p))
        (\<lambda>_. io_lift (Inl (Network ''Address appeared before temporary add; no OS change made'')))
      else no_add ops iface ip netm) w" by simp
qed

text \<open>A removal forgets the claim it found, and only the claim.\<close>

lemma pending_claim_matches:
  "pending_claim owner_mac ip s = Some row \<Longrightarrow>
     row \<in> set (pending_addresses s) \<and> pa_address row = show_ipv4 ip \<and> Some (pa_adapter_mac row) = canonical_mac owner_mac"
  unfolding pending_claim_def by (auto simp: find_Some_iff)

lemma pending_ops_remove_unfold:
  assumes "pending_claim owner_mac ip (host_settings v) = Some row"
    and "pending_ops_remove ops p owner_mac iface ip v = (Inr (), v')"
  obtains "claim_committed row (host_settings v)" "on_config (forget_temporary_with row p) v = (Inr (), v')"
  | u where "remove_observed ops owner_mac iface ip row v = (Inr (), u)"
      "on_config (forget_temporary_with row p) u = (Inr (), v')"
  using assms by (auto simp: pending_ops_remove_def io_bind_Inr_iff split: if_splits)

lemma remove_observed_absent:
  assumes "remove_observed ops owner_mac iface ip row v = (Inr (), v')"
  shows "\<exists>i u w. no_observe ops iface u = (Inr i, w) \<and> canonical_mac (if_mac i) = canonical_mac owner_mac
    \<and> \<not> shows_address (pa_address row) i"
proof -
  let ?found = "\<lambda>i. List.find (\<lambda>a. ip_address a = pa_address row) (if_ips i)"
  have none: "?found i = None \<longleftrightarrow> \<not> shows_address (pa_address row) i" for i
    by (auto simp: find_None_iff shows_address_def list_ex_iff)
  from assms obtain i u where obs: "observe_owned ops owner_mac iface v = (Inr i, u)"
    and rest: "?found i \<noteq> None \<Longrightarrow> \<exists>again w w'. observe_owned ops owner_mac iface w = (Inr again, w')
        \<and> \<not> shows_address (pa_address row) again"
    by (fastforce simp: remove_observed_def io_bind_Inr_iff split: option.splits if_splits)
  then show ?thesis
    using none [of i] by (cases "?found i") (blast dest: observe_owned_Inr)+
qed

lemma commit_pending_address_iff:
  "commit_pending_address iface ip aid commit (ps, v) = (Inl e, (ps', v')) \<longleftrightarrow> commit v = (Inl e, v') \<and> ps' = ps"
  "commit_pending_address iface ip aid commit (ps, v) = (Inr (), (ps', v')) \<longleftrightarrow>
     commit v = (Inr (), v') \<and> ps' = filter (\<lambda>e. e \<noteq> crumb iface ip aid) ps"
proof -
  have "(\<not> (pi_iface e = iface \<and> pi_ip e = ip \<and> pi_adoption_id e = aid)) \<longleftrightarrow> e \<noteq> crumb iface ip aid" for e
    by (cases e) (auto simp: crumb_def)
  then show
    "commit_pending_address iface ip aid commit (ps, v) = (Inl e, (ps', v')) \<longleftrightarrow> commit v = (Inl e, v') \<and> ps' = ps"
    "commit_pending_address iface ip aid commit (ps, v) = (Inr (), (ps', v')) \<longleftrightarrow>
       commit v = (Inr (), v') \<and> ps' = filter (\<lambda>e. e \<noteq> crumb iface ip aid) ps"
    by (auto simp: commit_pending_address_def split: prod.splits sum.splits)
qed

lemma committed_binding_stored:
  assumes "set_binding_with subnet row p (c, d) = (Inr (), (c', d'))" "committed_row row"
  shows "hm_get (adopted_meta_map (cfg_settings c')) subnet = Some row
    \<and> (\<forall>q\<in>set (pending_addresses (cfg_settings c')). \<not> pending_matches row q)"
  using assms
  by (auto simp: set_binding_with_def set_binding_for_operation_with_def change_settings_if_with_def
      set_binding_change_def Let_def hm_simps list_ex_iff split: if_splits)

lemma adopted_row_committed [simp]: "committed_row (adopted_row now owner ip)"
  by (simp add: committed_row_def adopted_row_def adopted_meta_default_def)

section \<open>Example\<close>

text \<open>One adapter, in static mode, on a disk that is the saved settings.\<close>

definition demo_mac :: string where "demo_mac = ''aa:bb:cc:dd:ee:ff''"

definition demo_ops :: "(app_settings, unit) host native_ops" where
  "demo_ops = \<lparr>no_check = (\<lambda>_. Inr ()),
     no_observe = (\<lambda>_ v. (Inr \<lparr>if_name = ''eth'', if_display_name = [], if_description = [], if_ips = [], if_mac = demo_mac,
        if_is_up = True, if_is_ethernet = True, if_is_wifi = False, if_is_vpn = False, if_is_virtual = False\<rparr>, v)),
     no_add = (\<lambda>_ _ _ v. (Inr (), v)), no_remove = (\<lambda>_ _ v. (Inr (), v))\<rparr>"

definition demo_settings :: app_settings where
  "demo_settings = (app_settings_default [])\<lparr>selected_adapter_mac := Some demo_mac, network_mode_sel := StaticAuto\<rparr>"

definition demo_host :: "app_settings \<Rightarrow> (app_settings, unit) host" where
  "demo_host s = ((\<lparr>cfg_settings = s, cfg_cache = [], cfg_notices = []\<rparr>, s), ())"

definition demo_claim :: pending_address where
  "demo_claim = \<lparr>pa_adapter_mac = demo_mac, pa_address = ''10.0.0.100'', pa_prefix = 24\<rparr>"

definition demo_save :: "app_settings persist" where
  "demo_save s d = (Inr (), s)"

lemma demo_atomic: "atomic_persist (\<lambda>d. d) demo_save"
  by (simp add: atomic_persist_def demo_save_def)

lemma demo_mac_canonical: "canonical_mac demo_mac = Some demo_mac"
  by code_simp

lemma demo_mask: "mask_to_prefix ''255.255.255.0'' = Inr 24"
  by code_simp

section \<open>Properties\<close>

text \<open>C19: a temporary address is asked of the operating system only after its claim is saved, so a
  crash at any moment leaves a record of it: the run is the same for every add that agrees with the
  real one on states whose disk holds the claim; and only addresses on the selected adapter whose
  claim could be saved are asked for.\<close>

theorem add_only_with_durable_claim:
  assumes "atomic_persist img p" "observe_keeps img ops"
    and "mask_to_prefix netm = Inr prefix" "canonical_mac owner_mac = Some owner"
    and "\<And>u. claimed img \<lparr>pa_adapter_mac = owner, pa_address = show_ipv4 ip, pa_prefix = prefix\<rparr> u \<Longrightarrow>
       add' iface ip netm u = no_add ops iface ip netm u"
  shows "pending_ops_add (ops\<lparr>no_add := add'\<rparr>) p owner_mac iface ip netm v =
         pending_ops_add ops p owner_mac iface ip netm v"
proof -
  let ?row = "\<lparr>pa_adapter_mac = owner, pa_address = show_ipv4 ip, pa_prefix = prefix\<rparr>"
  have "claim_then_add (ops\<lparr>no_add := add'\<rparr>) p owner_mac iface ip netm ?row =
      claim_then_add ops p owner_mac iface ip netm ?row"
    by (rule claim_then_add_claimed [OF assms(1,2)]) (rule assms(5))
  then show ?thesis by (simp add: pending_ops_add_def assms(3,4) Let_def cong: if_cong)
qed

theorem add_only_with_durable_claim_witness:
  "pending_ops_add (demo_ops\<lparr>no_add := (\<lambda>_ _ _ u. if claimed (\<lambda>d. d) demo_claim u then (Inr (), u) else (Inl (Network []), u))\<rparr>)
     demo_save demo_mac ''eth'' (Ipv4 10 0 0 100) ''255.255.255.0'' (demo_host demo_settings)
   = (Inr (), demo_host (demo_settings\<lparr>pending_addresses := [demo_claim]\<rparr>))"
proof -
  let ?add = "\<lambda>_ _ _ u. if claimed (\<lambda>d. d) demo_claim u then (Inr (), u) else (Inl (Network []), u)"
  have row: "\<lparr>pa_adapter_mac = demo_mac, pa_address = show_ipv4 (Ipv4 10 0 0 100), pa_prefix = 24\<rparr> = demo_claim"
    by (simp add: demo_claim_def) code_simp
  have "pending_ops_add (demo_ops\<lparr>no_add := ?add\<rparr>) demo_save demo_mac ''eth'' (Ipv4 10 0 0 100) ''255.255.255.0'' (demo_host demo_settings)
      = pending_ops_add demo_ops demo_save demo_mac ''eth'' (Ipv4 10 0 0 100) ''255.255.255.0'' (demo_host demo_settings)"
    by (rule add_only_with_durable_claim [OF demo_atomic _ demo_mask demo_mac_canonical])
      (simp_all add: row, simp_all add: demo_ops_def observe_keeps_def)
  also have "\<dots> = (Inr (), demo_host (demo_settings\<lparr>pending_addresses := [demo_claim]\<rparr>))"
    by code_simp
  finally show ?thesis .
qed



text \<open>C25: the handover of an adopted address never leaves it without an owner: when the commit
  succeeds, the saved settings hold the binding and no temporary claim for it, and only then is its
  breadcrumb dropped; a commit refused or failed, by a stale fence, another adapter or the disk,
  changes neither the breadcrumbs nor the settings in memory and on disk.\<close>

theorem handover_keeps_an_owner:
  assumes "commit_pending_address iface ip aid (adoption_commit fence afence mac subnet (adopted_row now owner ip) p)
      (ps, (c, d)) = (r, (ps', (c', d')))"
    and "atomic_persist img p" and "img d = cfg_settings c"
  shows "case r of
      Inr _ \<Rightarrow> ps' = filter (\<lambda>e. e \<noteq> crumb iface ip aid) ps \<and> \<not> is_stale fence \<and> \<not> is_stale afence
        \<and> hm_get (adopted_meta_map (img d')) subnet = Some (adopted_row now owner ip)
        \<and> (\<forall>q\<in>set (pending_addresses (img d')). \<not> pending_matches (adopted_row now owner ip) q)
    | Inl _ \<Rightarrow> ps' = ps \<and> c' = c \<and> img d' = img d"
proof (cases r)
  case (Inl e)
  with assms have "adoption_commit fence afence mac subnet (adopted_row now owner ip) p (c, d) = (Inl e, (c', d'))" "ps' = ps"
    by (auto simp: commit_pending_address_iff)
  moreover from this assms have "c' = c" "img d' = cfg_settings c'"
    using set_binding.refused [of subnet "adopted_row now owner ip" False p c d e c' d']
      set_binding.keeps_sync [of img p d c subnet "adopted_row now owner ip" False "Inl e" c' d']
    by (auto simp: adoption_commit_def set_binding_with_def split: if_splits)
  ultimately show ?thesis using Inl assms(3) by simp
next
  case (Inr u)
  with assms have set: "set_binding_with subnet (adopted_row now owner ip) p (c, d) = (Inr (), (c', d'))"
    and "\<not> is_stale fence" "\<not> is_stale afence" "ps' = filter (\<lambda>e. e \<noteq> crumb iface ip aid) ps"
    by (auto simp: commit_pending_address_iff adoption_commit_def split: if_splits)
  moreover have "img d' = cfg_settings c'"
    using set_binding.keeps_sync [OF assms(2,3)] set by (auto simp: set_binding_with_def)
  ultimately show ?thesis using Inr committed_binding_stored [OF set] by simp
qed

theorem handover_keeps_an_owner_witness:
  "let c = \<lparr>cfg_settings = demo_settings\<lparr>pending_addresses := [demo_claim]\<rparr>, cfg_cache = [], cfg_notices = []\<rparr>;
       f = \<lparr>sf_generation = 1, sf_current = 1, sf_active = True\<rparr>;
       row = adopted_row ''now'' (Some demo_mac) (Ipv4 10 0 0 100);
       after = commit_pending_address ''eth'' (Ipv4 10 0 0 100) 7 (adoption_commit f f demo_mac ''10.0.0.0/24'' row demo_save)
         ([crumb ''eth'' (Ipv4 10 0 0 100) 7], (c, cfg_settings c))
   in fst after = Inr () \<and> hm_get (adopted_meta_map (snd (snd (snd after)))) ''10.0.0.0/24'' = Some row"
proof -
  let ?c = "\<lparr>cfg_settings = demo_settings\<lparr>pending_addresses := [demo_claim]\<rparr>, cfg_cache = [], cfg_notices = []\<rparr>"
  let ?f = "\<lparr>sf_generation = 1, sf_current = 1, sf_active = True\<rparr>"
  let ?row = "adopted_row ''now'' (Some demo_mac) (Ipv4 10 0 0 100)"
  let ?after = "commit_pending_address ''eth'' (Ipv4 10 0 0 100) 7 (adoption_commit ?f ?f demo_mac ''10.0.0.0/24'' ?row demo_save)
         ([crumb ''eth'' (Ipv4 10 0 0 100) 7], (?c, cfg_settings ?c))"
  have ok: "fst ?after = Inr ()" by code_simp
  obtain ps' c' d' where after: "?after = (Inr (), (ps', (c', d')))" using ok by (metis prod.collapse)
  from handover_keeps_an_owner [OF after demo_atomic] have "hm_get (adopted_meta_map d') ''10.0.0.0/24'' = Some ?row" by simp
  with ok after show ?thesis by (simp add: Let_def)
qed

end
