(* ===== verification/Native_Adapters.thy ===== *)
theory Native_Adapters
  imports Auto_Adopt
begin

text \<open>
  Adapters as the operating system reports them, \<open>network/interface.rs\<close>: native identities,
  the selection of one adapter by its MAC, the operation snapshot every address write starts
  from, and the cache of adapter metadata. The native reads are parameters.
\<close>

section \<open>Native adapters\<close>

record native_adapter =
  na_index :: u32
  na_guid :: string
  na_alias :: string
  na_dhcp :: bool
  na_mac :: string
  na_is_up :: bool
  na_ips :: "ip_info list"
  na_gateways :: "string list"

text \<open>\<open>NativeIdentity\<close>: its equality and its order leave the alias out.\<close>

record native_identity =
  ni_guid :: string
  ni_index :: u32
  ni_mac :: string
  ni_alias :: string

definition ni_key :: "native_identity \<Rightarrow> string \<times> u32 \<times> string" where
  "ni_key i = (ni_guid i, ni_index i, ni_mac i)"

definition guid_key :: "string \<Rightarrow> string" where
  "guid_key guid =
     (let brace = (\<lambda>c. c = CHR ''{'' \<or> c = CHR ''}'')
      in map ascii_lower (rev (dropWhile brace (rev (dropWhile brace guid)))))"

definition mac_key :: "string \<Rightarrow> string" where
  "mac_key mac = map (\<lambda>c. ascii_lower (if c = CHR ''-'' then CHR '':'' else c)) mac"

definition identity :: "native_adapter \<Rightarrow> native_identity" where
  "identity a = \<lparr>ni_guid = guid_key (na_guid a), ni_index = na_index a, ni_mac = mac_key (na_mac a), ni_alias = na_alias a\<rparr>"

abbreviation identity_key :: "native_adapter \<Rightarrow> string \<times> u32 \<times> string" where
  "identity_key a \<equiv> ni_key (identity a)"

definition overlay :: "native_adapter \<Rightarrow> interface_info \<Rightarrow> interface_info" where
  "overlay a info = info\<lparr>if_name := na_alias a, if_display_name := na_alias a, if_mac := na_mac a,
     if_is_up := na_is_up a, if_ips := na_ips a\<rparr>"

definition topology :: "native_adapter list \<Rightarrow> (string \<times> u32 \<times> string) list" where
  "topology adapters = sort (map identity_key adapters)"

definition native_by_alias :: "native_adapter list \<Rightarrow> string \<Rightarrow> native_adapter result" where
  "native_by_alias adapters nm =
     (case filter (\<lambda>a. na_alias a = nm) adapters of
        [] \<Rightarrow> Inl (Network (''Unknown network interface: '' @ nm))
      | [adapter] \<Rightarrow>
          if nm \<noteq> [] \<and> na_index adapter \<noteq> 0 then Inr adapter
          else Inl (Network ''Native adapter alias/index is ambiguous or unavailable'')
      | _ \<Rightarrow> Inl (Network ''Native adapter alias/index is ambiguous or unavailable''))"

definition shares_identity :: "native_adapter \<Rightarrow> native_adapter \<Rightarrow> bool" where
  "shares_identity a n \<longleftrightarrow> na_index n = na_index a \<or> na_alias n = na_alias a \<or> guid_key (na_guid n) = guid_key (na_guid a)"

definition select_native :: "native_adapter list \<Rightarrow> string \<Rightarrow> native_adapter result" where
  "select_native all mac =
     (case filter (\<lambda>a. na_mac a \<noteq> [] \<and> ni_mac (identity a) = mac_key mac) all of
        [] \<Rightarrow> Inl (Network ''Selected Ethernet adapter unavailable'')
      | [a] \<Rightarrow>
          if na_index a \<noteq> 0 \<and> na_guid a \<noteq> [] \<and> na_alias a \<noteq> []
             \<and> length (filter (shares_identity a) all) = 1
          then Inr a
          else Inl (Network ''Native adapter identity/index is missing or ambiguous'')
      | _ \<Rightarrow> Inl (Network ''Native adapter identity/index is missing or ambiguous''))"

section \<open>The operation snapshot\<close>

text \<open>\<open>AddressIo\<close>: the native reads and writes. \<open>ai_descriptor\<close> reads the qualified metadata.\<close>

record 'w address_io =
  ai_check :: "'w \<Rightarrow> unit result"
  ai_native :: "(native_adapter list, 'w) io"
  ai_descriptor :: "native_adapter \<Rightarrow> 'w \<Rightarrow> interface_info option"
  ai_qualify :: "(unit, 'w) io"
  ai_add :: "native_adapter \<Rightarrow> string \<Rightarrow> string \<Rightarrow> (unit, 'w) io"
  ai_remove :: "native_adapter \<Rightarrow> string \<Rightarrow> (unit, 'w) io"

record op_snapshot =
  os_selected :: native_adapter
  os_all :: "native_adapter list"
  os_iface :: interface_info
  os_candidates :: "interface_info list"

definition wired_descriptor :: "'w address_io \<Rightarrow> 'w \<Rightarrow> native_adapter \<Rightarrow> interface_info option" where
  "wired_descriptor aio w a =
     (case ai_descriptor aio a w of None \<Rightarrow> None | Some i \<Rightarrow> if is_wired_physical i then Some i else None)"

definition snapshot_from_native ::
    "'w address_io \<Rightarrow> string \<Rightarrow> native_adapter list \<Rightarrow> 'w \<Rightarrow> op_snapshot result" where
  "snapshot_from_native aio mac all w =
     res_bind (select_native all mac) (\<lambda>selected.
     res_bind (ok_or (Network ''Selected adapter requires physical Ethernet qualification'')
                 (wired_descriptor aio w selected)) (\<lambda>iface.
     Inr \<lparr>os_selected = selected, os_all = all, os_iface = iface,
          os_candidates = List.map_filter (wired_descriptor aio w) all\<rparr>))"

definition operation_snapshot :: "'w address_io \<Rightarrow> string \<Rightarrow> (op_snapshot, 'w) io" where
  "operation_snapshot aio mac =
     io_bind (ai_native aio) (\<lambda>all.
     io_bind (io_lift (select_native all mac)) (\<lambda>selected.
     io_bind (\<lambda>w.
       if ai_descriptor aio selected w = None
       then io_bind (ai_qualify aio) (\<lambda>_.
            io_bind (ai_native aio) (\<lambda>again.
            io_bind (io_lift (select_native again mac)) (\<lambda>selected'.
            if identity_key selected' \<noteq> identity_key selected
            then io_lift (Inl (Network ''Adapter changed during qualification; retry''))
            else io_lift (Inr again)))) w
       else (Inr all, w)) (\<lambda>current.
     io_get (snapshot_from_native aio mac current))))"

definition address_network :: "'n ipnet_crate \<Rightarrow> ip_info \<Rightarrow> 'n option" where
  "address_network net ip = Option.bind (parse_ipv4 (ip_address ip)) (\<lambda>a. ipnet_new net a (ip_prefix ip))"

definition native_conflicts ::
    "'n ipnet_crate \<Rightarrow> 'w address_io \<Rightarrow> op_snapshot \<Rightarrow> 'w \<Rightarrow> 'n list" where
  "native_conflicts net aio snap w =
     List.map_filter (address_network net)
       (concat (map na_ips
         (filter (\<lambda>a. wired_descriptor aio w a = None)
           (filter (\<lambda>a. identity_key a \<noteq> identity_key (os_selected snap)) (os_all snap)))))"

section \<open>Lookups by MAC and address\<close>

definition quick_link_by_mac :: "native_adapter list \<Rightarrow> string \<Rightarrow> (u32 \<times> bool) option" where
  "quick_link_by_mac all mac =
     (case filter (\<lambda>a. na_mac a \<noteq> []
              \<and> eq_ignore_ascii_case (na_mac a) (map (\<lambda>c. if c = CHR ''-'' then CHR '':'' else c) mac)) all of
        [a] \<Rightarrow> if na_index a \<noteq> 0 then Some (na_index a, na_is_up a) else None
      | _ \<Rightarrow> None)"

definition index_for_mac :: "native_adapter list \<Rightarrow> string \<Rightarrow> u32 option" where
  "index_for_mac all mac =
     (case filter (\<lambda>a. na_mac a \<noteq> []
              \<and> eq_ignore_ascii_case (na_mac a) (map (\<lambda>c. if c = CHR ''-'' then CHR '':'' else c) mac)) all of
        [a] \<Rightarrow> if na_index a \<noteq> 0 then Some (na_index a) else None
      | _ \<Rightarrow> None)"

definition quick_status_by_mac :: "native_adapter list \<Rightarrow> string \<Rightarrow> (bool \<times> ip_info list) option" where
  "quick_status_by_mac all mac =
     map_option (\<lambda>a. (na_is_up a, na_ips a)) (List.find (\<lambda>a. eq_ignore_ascii_case (na_mac a) mac) all)"

definition source_matches_index :: "u32 \<Rightarrow> ipv4 \<Rightarrow> (u32 \<times> ipv4) list \<Rightarrow> bool" where
  "source_matches_index index source addresses \<longleftrightarrow>
     index \<noteq> 0 \<and> filter (\<lambda>(_, a). a = source) addresses = [(index, source)]"

definition all_local_ipv4 :: "native_adapter list \<Rightarrow> ipv4 list" where
  "all_local_ipv4 all = List.map_filter (parse_ipv4 \<circ> ip_address) (concat (map na_ips all))"

definition local_adapter_macs :: "native_adapter list \<Rightarrow> mac_bytes set" where
  "local_adapter_macs all =
     set (filter (\<lambda>m. m \<noteq> replicate 6 0 \<and> hd m AND 1 = 0) (List.map_filter (parse_mac_bytes \<circ> na_mac) all))"

text \<open>Cached metadata with the native link state and addresses; an adapter the native read does
  not list is down and without addresses.\<close>

definition overlay_adapter_addresses ::
    "interface_info list \<Rightarrow> native_adapter list result \<Rightarrow> interface_info list result" where
  "overlay_adapter_addresses adapters current =
     res_bind current (\<lambda>native. Inr (map (\<lambda>i.
       if if_mac i = [] then i
       else (case List.find (\<lambda>n. na_mac n \<noteq> [] \<and> eq_ignore_ascii_case (na_mac n) (if_mac i)) native of
               Some n \<Rightarrow> i\<lparr>if_is_up := na_is_up n, if_ips := na_ips n\<rparr>
             | None \<Rightarrow> i\<lparr>if_is_up := False, if_ips := []\<rparr>)) adapters))"

text \<open>\<open>str::contains\<close>.\<close>

fun str_contains :: "string \<Rightarrow> string \<Rightarrow> bool" where
  "str_contains p [] = (p = [])"
| "str_contains p (c # cs) = (starts_with p (c # cs) \<or> str_contains p cs)"

definition physical_medium_is_wireless :: "u64 option \<Rightarrow> string \<Rightarrow> bool" where
  "physical_medium_is_wireless ndis physical_media_type =
     (let by_name = (let s = map ascii_lower physical_media_type in str_contains ''802.11'' s \<or> str_contains ''wireless'' s)
      in case ndis of
           Some n \<Rightarrow> if n \<noteq> 0 then n \<in> {1, 8, 9, 10, 12, 13, 20} else by_name
         | None \<Rightarrow> by_name)"

definition enumeration_log_action ::
    "(string \<times> nat) option \<Rightarrow> string \<Rightarrow> nat option \<times> (string \<times> nat) option" where
  "enumeration_log_action last_log current =
     (case last_log of
        Some (prev, suppressed) \<Rightarrow>
          if prev = current then (None, Some (prev, suppressed + 1)) else (Some suppressed, Some (current, 0))
      | None \<Rightarrow> (Some 0, Some (current, 0)))"

section \<open>The metadata cache\<close>

definition SNAPSHOT_TTL :: instant where
  "SNAPSHOT_TTL = 5000"

record adapter_cache =
  ac_value :: "(instant \<times> u64 \<times> interface_info list) option"
  ac_generation :: u64
  ac_qualified :: "(native_identity \<times> interface_info) list"
  ac_topology :: "(string \<times> u32 \<times> string) list"

definition adapter_cache_new :: adapter_cache where
  "adapter_cache_new = \<lparr>ac_value = None, ac_generation = 0, ac_qualified = [], ac_topology = []\<rparr>"

definition cached_adapters :: "instant \<Rightarrow> adapter_cache \<Rightarrow> interface_info list option" where
  "cached_adapters now c =
     (case ac_value c of
        None \<Rightarrow> None
      | Some (at, g, adapters) \<Rightarrow> if g = ac_generation c \<and> now - at < SNAPSHOT_TTL then Some adapters else None)"

definition invalidate :: "adapter_cache \<Rightarrow> adapter_cache" where
  "invalidate c = c\<lparr>ac_generation := ac_generation c + 1, ac_value := None, ac_qualified := []\<rparr>"

text \<open>The end of a query that read the generation \<open>g\<close> before it started.\<close>

definition finish_query ::
    "u64 \<Rightarrow> instant \<Rightarrow> interface_info list result \<Rightarrow> adapter_cache \<Rightarrow> interface_info list result \<times> adapter_cache" where
  "finish_query g now result c =
     (case result of
        Inl e \<Rightarrow> (Inl e, c)
      | Inr adapters \<Rightarrow>
          if g \<noteq> ac_generation c then (Inl (Network ''Adapters changed during enumeration; retry''), c)
          else (Inr adapters, c\<lparr>ac_value := Some (now, g, adapters)\<rparr>))"

definition observe_topology :: "native_adapter list \<Rightarrow> adapter_cache \<Rightarrow> bool \<times> adapter_cache" where
  "observe_topology all c =
     (let nxt = topology all; changed = (ac_topology c \<noteq> nxt)
      in (changed, if changed then (invalidate c)\<lparr>ac_topology := nxt\<rparr> else c))"

definition publish_qualification ::
    "u64 \<Rightarrow> native_adapter list \<Rightarrow> (native_identity \<times> interface_info) list \<Rightarrow> adapter_cache \<Rightarrow> adapter_cache" where
  "publish_qualification g native qualified c =
     (if g = ac_generation c then c\<lparr>ac_qualified := qualified, ac_topology := topology native\<rparr> else c)"

definition cache_descriptor :: "adapter_cache \<Rightarrow> native_adapter \<Rightarrow> interface_info option" where
  "cache_descriptor c native =
     map_option (\<lambda>(_, info). overlay native info)
       (List.find (\<lambda>(i, _). ni_key i = identity_key native) (ac_qualified c))"

section \<open>Laws\<close>

lemma find_SomeD: "List.find p xs = Some x \<Longrightarrow> x \<in> set xs \<and> p x"
  by (auto simp: find_Some_iff)

lemma filter_singleton:
  assumes "filter p xs = [a]"
  shows "a \<in> set xs" "p a" "\<And>x. x \<in> set xs \<Longrightarrow> p x \<Longrightarrow> x = a"
  using assms by (auto simp: filter_eq_Cons_iff) (metis Un_iff filter_empty_conv list.set_intros(1) singletonD empty_iff)+

lemma select_native_sound:
  assumes "select_native all mac = Inr a"
  shows "a \<in> set all" "mac_key (na_mac a) = mac_key mac" "na_index a \<noteq> 0"
    "\<And>b. b \<in> set all \<Longrightarrow> na_mac b \<noteq> [] \<Longrightarrow> mac_key (na_mac b) = mac_key mac \<Longrightarrow> b = a"
    "\<And>b. b \<in> set all \<Longrightarrow> shares_identity a b \<Longrightarrow> b = a"
proof -
  have f: "filter (\<lambda>a. na_mac a \<noteq> [] \<and> ni_mac (identity a) = mac_key mac) all = [a]"
    and g: "na_index a \<noteq> 0" "length (filter (shares_identity a) all) = 1"
    using assms by (auto simp: select_native_def split: list.splits if_splits)
  note one = filter_singleton [OF f]
  show "a \<in> set all" "mac_key (na_mac a) = mac_key mac" "na_index a \<noteq> 0"
    using one(1,2) g(1) by (auto simp: identity_def)
  show "b = a" if "b \<in> set all" "na_mac b \<noteq> []" "mac_key (na_mac b) = mac_key mac" for b
    using one(3) that by (simp add: identity_def)
  obtain c where c: "filter (shares_identity a) all = [c]" using g(2) by (cases "filter (shares_identity a) all") auto
  have "shares_identity a a" by (simp add: shares_identity_def)
  then show "b = a" if "b \<in> set all" "shares_identity a b" for b
    using filter_singleton(3) [OF c] one(1) that by metis
qed

lemma wired_descriptor_Some:
  "wired_descriptor aio w a = Some i \<longleftrightarrow> ai_descriptor aio a w = Some i \<and> is_wired_physical i"
  by (auto simp: wired_descriptor_def split: option.splits)

lemma snapshot_from_native_Inr:
  "snapshot_from_native aio mac all w = Inr s \<Longrightarrow>
     select_native all mac = Inr (os_selected s) \<and> os_all s = all
     \<and> wired_descriptor aio w (os_selected s) = Some (os_iface s)"
  by (auto simp: snapshot_from_native_def res_bind_Inr_iff)

text \<open>The snapshot of an operation names one adapter: the selected MAC is unique, and so are its
  index, alias and GUID; its descriptor is wired, and when the metadata had to be queried, the
  adapter is still the one that was selected before.\<close>

lemma operation_snapshot_sound:
  assumes "operation_snapshot aio mac w = (Inr s, w')"
  shows "select_native (os_all s) mac = Inr (os_selected s) \<and> is_wired_physical (os_iface s)
    \<and> ai_descriptor aio (os_selected s) w' = Some (os_iface s)
    \<and> (\<exists>all u. ai_native aio w = (Inr all, u) \<and> (\<exists>before. select_native all mac = Inr before
         \<and> identity_key (os_selected s) = identity_key before))"
proof -
  obtain all u before current where nat: "ai_native aio w = (Inr all, u)"
    and sel: "select_native all mac = Inr before"
    and cur: "snapshot_from_native aio mac current w' = Inr s"
    and id: "current = all \<or> (\<exists>sel'. select_native current mac = Inr sel' \<and> identity_key sel' = identity_key before)"
    using assms unfolding operation_snapshot_def io_bind_Inr_iff
    by (auto simp: io_bind_Inr_iff split: if_splits)
  note snap = snapshot_from_native_Inr [OF cur]
  then have "select_native current mac = Inr (os_selected s)" "os_all s = current" by auto
  with id sel have "identity_key (os_selected s) = identity_key before" by auto
  with snap nat sel show ?thesis by (auto simp: wired_descriptor_Some)
qed

lemma finish_query_stale:
  "g \<noteq> ac_generation c \<Longrightarrow> snd (finish_query g now r c) = c \<and> isl (fst (finish_query g now r c))"
  by (simp add: finish_query_def split: sum.splits)

end
