(* ===== verification/Bindings.thy ===== *)
theory Bindings
  imports Temporary_Claims Native_Adapters
begin

text \<open>
  Committed secondary addresses: the decision and its application
  (\<open>binding_action\<close> and \<open>apply_binding\<close> of \<open>network/mod.rs\<close>), the owner of the live routes
  (\<open>BindingStore\<close> of \<open>network/binding_store.rs\<close>) and the choice of the adapter
  (\<open>network/adapter_selector.rs\<close>). The \<open>ipnetwork\<close> crate is the parameter \<open>net\<close>; the
  operating system is the parameter of \<open>apply_binding\<close>.
\<close>

section \<open>Adapter selection\<close>

definition adapter_candidate :: "interface_info \<Rightarrow> bool" where
  "adapter_candidate i \<longleftrightarrow> is_wired_physical i \<and> \<not> if_is_wifi i \<and> adapter_mac (if_mac i) \<noteq> None"

definition pick_adapter :: "interface_info list \<Rightarrow> string option \<Rightarrow> interface_info option" where
  "pick_adapter list mac =
     (let candidates = filter adapter_candidate list;
          only = (\<lambda>xs. case xs of [x] \<Rightarrow> Some x | _ \<Rightarrow> None)
      in case mac of
           Some m \<Rightarrow>
             (case adapter_mac m of
                None \<Rightarrow> None
              | Some m' \<Rightarrow> only (filter (\<lambda>i. adapter_mac (if_mac i) = Some m') candidates))
         | None \<Rightarrow> only candidates)"

record adapter_selection =
  sel_mac :: "string option"
  sel_adapter :: "interface_info option"
  sel_index :: "u32 option"
  sel_required :: bool
  sel_candidates :: "interface_info list"

text \<open>\<open>index_for\<close> is the native lookup \<open>interface::index_for_mac\<close>.\<close>

definition propose ::
    "(string \<Rightarrow> u32 option) \<Rightarrow> interface_info list \<Rightarrow> (adapter_selection, 'd) writer" where
  "propose index_for list persist = (\<lambda>(c, d).
     let mac0 = selected_adapter_mac (cfg_settings c);
         adapter = pick_adapter list mac0;
         mac = (case (mac0, adapter) of (None, Some i) \<Rightarrow> adapter_mac (if_mac i) | _ \<Rightarrow> mac0);
         candidates = filter adapter_candidate list;
         selection = \<lparr>sel_mac = mac, sel_adapter = adapter, sel_index = Option.bind adapter (index_for \<circ> if_mac),
           sel_required = (mac = None \<and> 1 < length candidates), sel_candidates = candidates\<rparr>
     in if mac0 = None \<and> adapter \<noteq> None
        then (case set_selected_adapter_mac (the mac) persist (c, d) of
                (Inl e, cd) \<Rightarrow> (Inl e, cd)
              | (Inr _, cd) \<Rightarrow> (Inr selection, cd))
        else (Inr selection, (c, d)))"

section \<open>Address pauses\<close>

text \<open>The generation and the activity flag of the address work.\<close>

type_synonym address_epoch = "u64 \<times> bool"

definition address_fence :: "address_epoch \<Rightarrow> address_epoch \<Rightarrow> sweep_fence" where
  "address_fence taken now = \<lparr>sf_generation = fst taken, sf_current = fst now, sf_active = snd now\<rparr>"

definition address_pause_new :: "address_epoch \<Rightarrow> address_epoch" where
  "address_pause_new e = (fst e + 1, False)"

definition address_pause_drop :: "address_epoch \<Rightarrow> address_epoch" where
  "address_pause_drop e = (fst e + 1, True)"

section \<open>The decision\<close>

datatype bind_action =
    Unavailable string
  | Hold string bool
  | Observed bool
  | Add ipv4 u8
  | Remove ipv4

definition valid_binding :: "'n ipnet_crate \<Rightarrow> string \<Rightarrow> adopted_meta \<Rightarrow> (ipv4 \<times> u8) option" where
  "valid_binding net subnet row =
     Option.bind (ipnet_parse net subnet) (\<lambda>n.
     Option.bind (am_address row) (\<lambda>a.
     Option.bind (parse_ipv4 a) (\<lambda>ip.
     Option.bind (am_prefix row) (\<lambda>prefix.
       if prefix = ipnet_prefix net n \<and> ipnet_contains net n ip
          \<and> ip \<noteq> ipnet_network net n \<and> ip \<noteq> ipnet_broadcast net n
          \<and> \<not> is_loopback ip \<and> \<not> is_multicast ip \<and> \<not> is_unspecified ip
       then Some (ip, prefix) else None))))"

definition binding_action ::
    "'n ipnet_crate \<Rightarrow> string \<Rightarrow> adopted_meta \<Rightarrow> interface_info option \<Rightarrow> network_mode \<Rightarrow> string + bool \<Rightarrow> 'n list
      \<Rightarrow> bind_action" where
  "binding_action net subnet row iface mode dhcp conflicts =
     (case iface of
        None \<Rightarrow> Unavailable ''selected adapter unavailable''
      | Some i \<Rightarrow>
          if \<not> (if_is_up i \<or> (am_desired row = Removed \<and> \<not> isl dhcp))
          then Unavailable ''selected adapter unavailable''
          else if (case am_adapter_mac row of None \<Rightarrow> False | Some mac \<Rightarrow> adapter_mac mac \<noteq> adapter_mac (if_mac i))
          then Hold ''adapter mismatch'' False
          else
            (case valid_binding net subnet row of
               None \<Rightarrow> Hold ''invalid saved address/prefix or subnet'' False
             | Some (ip, prefix) \<Rightarrow>
                 let observed = List.find (\<lambda>a. ip_address a = show_ipv4 ip) (if_ips i) in
                 if (case observed of None \<Rightarrow> False | Some a \<Rightarrow> ip_prefix a \<noteq> prefix)
                 then Hold ''address exists with a different prefix'' False
                 else
                   let applied = (observed \<noteq> None) in
                   case dhcp of
                     Inl e \<Rightarrow> Hold (''DHCP state unavailable: '' @ e) applied
                   | Inr is_dhcp \<Rightarrow>
                       if am_desired row = Removed then (if applied then Remove ip else Observed False)
                       else if is_dhcp then Hold ''adapter is DHCP'' False
                       else if mode = Dhcp then Hold ''saved mode is DHCP; adapter is static'' False
                       else if applied then Observed True
                       else if list_ex (\<lambda>n. ipnet_contains net n ip) conflicts
                       then Hold ''subnet conflicts with another local adapter'' False
                       else Add ip prefix))"

section \<open>Its application\<close>

record 'w binding_os =
  bo_add :: "string \<Rightarrow> ipv4 \<Rightarrow> string \<Rightarrow> (unit, 'w) io"
  bo_remove :: "string \<Rightarrow> ipv4 \<Rightarrow> (unit, 'w) io"
  bo_observe :: "(ip_info list, 'w) io"

definition wanted_state :: "adopted_meta \<Rightarrow> ip_info list \<Rightarrow> bool" where
  "wanted_state row ips = list_ex (\<lambda>a. Some (ip_address a) = am_address row \<and> Some (ip_prefix a) = am_prefix row) ips"

text \<open>The common end of both writes: observe again and record what was seen.\<close>

definition observe_binding ::
    "'w binding_os \<Rightarrow> adopted_meta \<Rightarrow> unit result \<Rightarrow> 'w \<Rightarrow> adopted_meta \<times> 'w" where
  "observe_binding os row result w =
     (let (observed, w') = bo_observe os w;
          applied = (case observed of Inl _ \<Rightarrow> am_applied row | Inr ips \<Rightarrow> wanted_state row ips);
          err = (case result of
                   Inl e \<Rightarrow> Some (app_error_to_string e)
                 | Inr _ \<Rightarrow> (case observed of Inl e \<Rightarrow> Some (app_error_to_string e) | Inr _ \<Rightarrow> None));
          err = (if err = None \<and> applied \<noteq> (am_desired row = Present)
                 then Some ''OS did not apply the requested binding state'' else err)
      in (row\<lparr>am_applied := applied, am_last_error := err\<rparr>, w'))"

text \<open>A write without an adapter is the source's \<open>expect\<close>; the decision never asks for one.\<close>

definition apply_action ::
    "'w binding_os \<Rightarrow> adopted_meta \<Rightarrow> bind_action \<Rightarrow> interface_info option \<Rightarrow> 'w \<Rightarrow> (adopted_meta \<times> 'w) option" where
  "apply_action os row action iface w =
     (case action of
        Unavailable reason \<Rightarrow> Some (row\<lparr>am_last_error := Some reason\<rparr>, w)
      | Hold reason applied \<Rightarrow> Some (row\<lparr>am_applied := applied, am_last_error := Some reason\<rparr>, w)
      | Observed applied \<Rightarrow> Some (row\<lparr>am_applied := applied, am_last_error := None\<rparr>, w)
      | Add ip prefix \<Rightarrow>
          (case iface of
             None \<Rightarrow> None
           | Some i \<Rightarrow>
               (case bo_add os (if_name i) ip (prefix_to_mask prefix) w of
                  (r, w') \<Rightarrow> Some (observe_binding os (row\<lparr>am_applied := False, am_last_error := None\<rparr>) r w')))
      | Remove ip \<Rightarrow>
          (case iface of
             None \<Rightarrow> None
           | Some i \<Rightarrow>
               (case bo_remove os (if_name i) ip w of
                  (r, w') \<Rightarrow> Some (observe_binding os (row\<lparr>am_applied := True, am_last_error := None\<rparr>) r w'))))"

definition apply_binding ::
    "'w binding_os \<Rightarrow> adopted_meta \<Rightarrow> bind_action \<Rightarrow> interface_info option \<Rightarrow> 'w \<Rightarrow> (adopted_meta \<times> 'w) option" where
  "apply_binding os row action iface w =
     (if (case action of Unavailable _ \<Rightarrow> True | _ \<Rightarrow> False) \<and> removal_complete row then Some (row, w)
      else map_option (\<lambda>(row', w').
             (if am_applied row' \<and> am_desired row' = Present \<and> am_last_error row' = None
              then row'\<lparr>am_adapter_mac := Option.bind iface (adapter_mac \<circ> if_mac)\<rparr> else row', w'))
           (apply_action os row action iface w))"

section \<open>Laws\<close>

lemma valid_binding_Some:
  "valid_binding net subnet row = Some (ip, prefix) \<Longrightarrow>
     \<exists>n a. ipnet_parse net subnet = Some n \<and> am_address row = Some a \<and> parse_ipv4 a = Some ip
       \<and> am_prefix row = Some prefix \<and> ipnet_prefix net n = prefix \<and> ipnet_contains net n ip
       \<and> ip \<noteq> ipnet_network net n \<and> ip \<noteq> ipnet_broadcast net n \<and> \<not> is_loopback ip \<and> \<not> is_multicast ip
       \<and> \<not> is_unspecified ip"
  by (auto simp: valid_binding_def bind_eq_Some_conv split: if_splits)

lemmas binding_action_split = binding_action_def Let_def

lemma binding_action_write_cases:
  "binding_action net subnet row iface mode dhcp conflicts = Add ip prefix \<Longrightarrow>
     \<exists>i. iface = Some i \<and> if_is_up i \<and> am_desired row = Present \<and> dhcp = Inr False \<and> mode \<noteq> Dhcp
       \<and> valid_binding net subnet row = Some (ip, prefix)
       \<and> (\<forall>a\<in>set (if_ips i). ip_address a \<noteq> show_ipv4 ip)
       \<and> (\<forall>mac. am_adapter_mac row = Some mac \<longrightarrow> adapter_mac mac = adapter_mac (if_mac i))
       \<and> (\<forall>n\<in>set conflicts. \<not> ipnet_contains net n ip)"
  "binding_action net subnet row iface mode dhcp conflicts = Remove ip \<Longrightarrow>
     \<exists>i prefix. iface = Some i \<and> am_desired row = Removed \<and> \<not> isl dhcp
       \<and> valid_binding net subnet row = Some (ip, prefix)
       \<and> (\<exists>a\<in>set (if_ips i). ip_address a = show_ipv4 ip \<and> ip_prefix a = prefix)
       \<and> (\<forall>mac. am_adapter_mac row = Some mac \<longrightarrow> adapter_mac mac = adapter_mac (if_mac i))"
proof -
  have nope: "am_desired row \<noteq> Removed \<longleftrightarrow> am_desired row = Present" by (cases "am_desired row") auto
  show "\<exists>i. iface = Some i \<and> if_is_up i \<and> am_desired row = Present \<and> dhcp = Inr False \<and> mode \<noteq> Dhcp
       \<and> valid_binding net subnet row = Some (ip, prefix)
       \<and> (\<forall>a\<in>set (if_ips i). ip_address a \<noteq> show_ipv4 ip)
       \<and> (\<forall>mac. am_adapter_mac row = Some mac \<longrightarrow> adapter_mac mac = adapter_mac (if_mac i))
       \<and> (\<forall>n\<in>set conflicts. \<not> ipnet_contains net n ip)"
    if "binding_action net subnet row iface mode dhcp conflicts = Add ip prefix"
    using that nope
    by (auto simp: binding_action_split find_None_iff list_ex_iff split: option.splits if_splits sum.splits)
  show "\<exists>i prefix. iface = Some i \<and> am_desired row = Removed \<and> \<not> isl dhcp
       \<and> valid_binding net subnet row = Some (ip, prefix)
       \<and> (\<exists>a\<in>set (if_ips i). ip_address a = show_ipv4 ip \<and> ip_prefix a = prefix)
       \<and> (\<forall>mac. am_adapter_mac row = Some mac \<longrightarrow> adapter_mac mac = adapter_mac (if_mac i))"
    if "binding_action net subnet row iface mode dhcp conflicts = Remove ip"
    using that
    by (auto simp: binding_action_split split: option.splits if_splits sum.splits dest!: find_SomeD)
qed

lemma binding_action_observed:
  "binding_action net subnet row iface mode dhcp conflicts = Observed True \<Longrightarrow>
     am_desired row = Present \<and> valid_binding net subnet row \<noteq> None"
  by (cases "am_desired row") (auto simp: binding_action_split split: option.splits if_splits sum.splits)

text \<open>What applying an action changes of a row, and what its clean result means.\<close>

lemma observe_binding_fields:
  assumes "observe_binding os row r w = (row', w')"
  shows "am_desired row' = am_desired row \<and> am_address row' = am_address row \<and> am_prefix row' = am_prefix row
    \<and> am_adapter_mac row' = am_adapter_mac row \<and> am_adopted_at row' = am_adopted_at row
    \<and> am_last_device_seen row' = am_last_device_seen row
    \<and> (am_last_error row' = None \<longrightarrow> r = Inr () \<and> (\<exists>ips. bo_observe os w = (Inr ips, w')
        \<and> wanted_state row ips = (am_desired row = Present) \<and> am_applied row' = (am_desired row = Present)))"
  using assms by (auto simp: observe_binding_def Let_def split: prod.splits sum.splits if_splits)

definition writes :: "bind_action \<Rightarrow> bool" where
  "writes a = (case a of Add _ _ \<Rightarrow> True | Remove _ \<Rightarrow> True | _ \<Rightarrow> False)"

lemma apply_binding_total:
  "apply_binding os row (binding_action net subnet row iface mode dhcp conflicts) iface w \<noteq> None"
  using binding_action_write_cases [of net subnet row iface mode dhcp conflicts]
  by (auto simp: apply_binding_def apply_action_def split: bind_action.splits option.splits prod.splits)
    (metis surj_pair)+

lemma apply_action_fields:
  assumes "apply_action os row action iface w = Some (row', w')"
  shows "am_desired row' = am_desired row \<and> am_address row' = am_address row \<and> am_prefix row' = am_prefix row
    \<and> am_adapter_mac row' = am_adapter_mac row
    \<and> (am_last_error row' = None \<longrightarrow> (\<exists>b. action = Observed b \<and> am_applied row' = b)
        \<or> (writes action \<and> am_applied row' = (am_desired row = Present)
           \<and> (\<exists>u ips. bo_observe os u = (Inr ips, w') \<and> wanted_state row ips = (am_desired row = Present))))"
proof (cases action)
  case (Add ip prefix)
  with assms obtain i r u where "observe_binding os (row\<lparr>am_applied := False, am_last_error := None\<rparr>) r u = (row', w')"
    by (auto simp: apply_action_def split: option.splits prod.splits)
  from observe_binding_fields [OF this] Add show ?thesis by (auto simp: writes_def wanted_state_def)
next
  case (Remove ip)
  with assms obtain i r u where "observe_binding os (row\<lparr>am_applied := True, am_last_error := None\<rparr>) r u = (row', w')"
    by (auto simp: apply_action_def split: option.splits prod.splits)
  from observe_binding_fields [OF this] Remove show ?thesis by (auto simp: writes_def wanted_state_def)
qed (use assms in \<open>auto simp: apply_action_def\<close>)

end
