(* ===== verification/Binding_Store.thy ===== *)
theory Binding_Store
  imports Bindings
begin

text \<open>
  \<open>BindingStore\<close> of \<open>network/binding_store.rs\<close>: the live routes, the working copy of the
  binding rows and the pending breadcrumbs, and the operations that publish, reconcile, retire
  and claim bindings. Every operation runs under \<open>address_work\<close>, so it is one step on the
  store and the host.
\<close>

section \<open>State\<close>

definition META_FLUSH_INTERVAL :: instant where
  "META_FLUSH_INTERVAL = 300000"

record meta_flush =
  mf_dirty :: bool
  mf_last_flush :: instant

record binding_store =
  bs_adopted_ips :: "(string, ipv4) hashmap"
  bs_adopted_meta :: "(string, adopted_meta) hashmap"
  bs_pending_ips :: "pending_ip list"
  bs_adoption_seq :: u64
  bs_liveness :: "(string, instant) hashmap"
  bs_flush :: meta_flush

definition binding_store_new :: "instant \<Rightarrow> binding_store" where
  "binding_store_new now = \<lparr>bs_adopted_ips = [], bs_adopted_meta = [], bs_pending_ips = [], bs_adoption_seq = 0,
     bs_liveness = [], bs_flush = \<lparr>mf_dirty = False, mf_last_flush = now\<rparr>\<rparr>"

section \<open>Publication\<close>

definition next_adoption_id :: "binding_store \<Rightarrow> u64 \<times> binding_store" where
  "next_adoption_id s = (bs_adoption_seq s + 1, s\<lparr>bs_adoption_seq := bs_adoption_seq s + 1\<rparr>)"

definition publish_adoption :: "instant \<Rightarrow> string \<Rightarrow> ipv4 \<Rightarrow> adopted_meta \<Rightarrow> binding_store \<Rightarrow> binding_store" where
  "publish_adoption now subnet ip row s =
     s\<lparr>bs_adopted_ips := hm_insert subnet ip (bs_adopted_ips s),
       bs_liveness := hm_insert subnet now (bs_liveness s),
       bs_adopted_meta := hm_insert subnet row (bs_adopted_meta s)\<rparr>"

definition save_failed :: "app_error \<Rightarrow> adopted_meta \<Rightarrow> adopted_meta" where
  "save_failed e row = row\<lparr>am_last_error := Some ((case am_last_error row of Some m \<Rightarrow> m | None \<Rightarrow> ''OS state observed'')
     @ ''; status save failed: '' @ app_error_to_string e)\<rparr>"

definition publish_row :: "string \<Rightarrow> adopted_meta \<Rightarrow> binding_store \<Rightarrow> binding_store" where
  "publish_row subnet row s =
     s\<lparr>bs_adopted_ips :=
         (if committed_row row
          then (case Option.bind (am_address row) parse_ipv4 of
                  Some ip \<Rightarrow> hm_insert subnet ip (bs_adopted_ips s)
                | None \<Rightarrow> bs_adopted_ips s)
          else hm_remove subnet (bs_adopted_ips s)),
       bs_adopted_meta := hm_insert subnet row (bs_adopted_meta s)\<rparr>"

definition publish_binding ::
    "string \<Rightarrow> adopted_meta \<Rightarrow> 'd persist \<Rightarrow> binding_store \<times> ('d, 'w) host \<Rightarrow> adopted_meta \<times> (binding_store \<times> ('d, 'w) host)" where
  "publish_binding subnet row persist = (\<lambda>(s, v).
     case on_config (set_binding_with subnet row persist) v of
       (Inr _, v') \<Rightarrow> (row, (publish_row subnet row s, v'))
     | (Inl e, v') \<Rightarrow> (save_failed e row, (publish_row subnet (save_failed e row) s, v')))"

section \<open>Reconciliation\<close>

text \<open>\<open>AddressOps\<close> with the adapter of the snapshot, and the observation after a write.\<close>

definition snapshot_os :: "'w address_io \<Rightarrow> op_snapshot \<Rightarrow> 'w binding_os" where
  "snapshot_os aio snap = \<lparr>
     bo_add = (\<lambda>nm ip netm.
       if na_alias (os_selected snap) = nm then ai_add aio (os_selected snap) (show_ipv4 ip) netm
       else io_lift (Inl (Network ''Address writer has no validated adapter''))),
     bo_remove = (\<lambda>nm ip.
       if na_alias (os_selected snap) \<noteq> nm then io_lift (Inl (Network ''Adapter alias changed''))
       else ai_remove aio (os_selected snap) (show_ipv4 ip)),
     bo_observe =
       io_bind (ai_native aio) (\<lambda>all.
       io_bind (io_get (snapshot_from_native aio (na_mac (os_selected snap)) all)) (\<lambda>after.
       if identity_key (os_selected snap) \<noteq> identity_key (os_selected after)
       then io_lift (Inl (Network ''Selected adapter changed during operation''))
       else io_lift (Inr (na_ips (os_selected after)))))\<rparr>"

definition row_action ::
    "'n ipnet_crate \<Rightarrow> ('d, 'w) host address_io \<Rightarrow> string \<Rightarrow> adopted_meta \<Rightarrow> op_snapshot result \<Rightarrow> network_mode
      \<Rightarrow> ('d, 'w) host \<Rightarrow> bind_action" where
  "row_action net aio subnet row snapshot mode v =
     (if am_desired row = Present \<and> hm_get (adopted_subnets (host_settings v)) subnet \<noteq> am_address row
      then Hold ''saved routing address and metadata disagree'' False
      else
        (case snapshot of
           Inr snap \<Rightarrow> binding_action net subnet row (Some (os_iface snap)) mode (Inr (na_dhcp (os_selected snap)))
                         (native_conflicts net aio snap v)
         | Inl e \<Rightarrow> Unavailable (app_error_to_string e)))"

text \<open>Without a snapshot no action writes, so the operations are never called.\<close>

definition reconcile_row ::
    "'n ipnet_crate \<Rightarrow> ('d, 'w) host address_io \<Rightarrow> string \<Rightarrow> adopted_meta \<Rightarrow> op_snapshot result \<Rightarrow> network_mode
      \<Rightarrow> ('d, 'w) host \<Rightarrow> (adopted_meta \<times> ('d, 'w) host) option" where
  "reconcile_row net aio subnet row snapshot mode v =
     (case snapshot of
        Inr snap \<Rightarrow> apply_binding (snapshot_os aio snap) row (row_action net aio subnet row snapshot mode v) (Some (os_iface snap)) v
      | Inl e \<Rightarrow> apply_binding
          \<lparr>bo_add = (\<lambda>_ _ _. io_lift (Inl e)), bo_remove = (\<lambda>_ _. io_lift (Inl e)), bo_observe = io_lift (Inl e)\<rparr>
          row (row_action net aio subnet row snapshot mode v) None v)"

definition reconcile_binding_row ::
    "'n ipnet_crate \<Rightarrow> ('d, 'w) host address_io \<Rightarrow> 'd persist \<Rightarrow> string \<Rightarrow> adopted_meta \<Rightarrow> op_snapshot result \<Rightarrow> network_mode
      \<Rightarrow> binding_store \<times> ('d, 'w) host \<Rightarrow> (adopted_meta \<times> (binding_store \<times> ('d, 'w) host)) option" where
  "reconcile_binding_row net aio persist subnet row snapshot mode = (\<lambda>(s, v).
     map_option (\<lambda>(row', v'). publish_binding subnet row' persist (s, v'))
       (reconcile_row net aio subnet row snapshot mode v))"

definition operation_snapshot_of ::
    "('d, 'w) host address_io \<Rightarrow> (op_snapshot, ('d, 'w) host) io" where
  "operation_snapshot_of aio =
     io_bind (io_get (\<lambda>v. ok_or (Network ''Select an Ethernet adapter'') (selected_adapter_mac (host_settings v))))
       (operation_snapshot aio)"

fun reconcile_rows ::
    "'n ipnet_crate \<Rightarrow> ('d, 'w) host address_io \<Rightarrow> 'd persist \<Rightarrow> (string \<times> adopted_meta) list \<Rightarrow> op_snapshot result
      \<Rightarrow> network_mode \<Rightarrow> binding_store \<times> ('d, 'w) host \<Rightarrow> (binding_store \<times> ('d, 'w) host) option" where
  "reconcile_rows net aio persist [] snapshot mode sv = Some sv"
| "reconcile_rows net aio persist ((subnet, row) # rest) snapshot mode sv =
     (case reconcile_binding_row net aio persist subnet row snapshot mode sv of
        None \<Rightarrow> None
      | Some (_, sv') \<Rightarrow> reconcile_rows net aio persist rest snapshot mode sv')"

definition reconcile_bindings ::
    "'n ipnet_crate \<Rightarrow> ('d, 'w) host address_io \<Rightarrow> 'd persist \<Rightarrow> binding_store \<times> ('d, 'w) host
      \<Rightarrow> (binding_store \<times> ('d, 'w) host) option" where
  "reconcile_bindings net aio persist = (\<lambda>(s, v).
     if isl (ai_check aio v) then Some (s, v)
     else
       let (snapshot, v') = operation_snapshot_of aio v
       in reconcile_rows net aio persist (adopted_meta_map (host_settings v)) snapshot
            (network_mode_sel (host_settings v)) (s, v'))"

section \<open>Retirement and claims\<close>

text \<open>\<open>stale\<close> and \<open>stale_later\<close>: whether one of the two fences is stale when it is read before and
  after the snapshot.\<close>

definition prepare_subnet_adoption ::
    "'n ipnet_crate \<Rightarrow> ('d, 'w) host address_io \<Rightarrow> 'd persist \<Rightarrow> string \<Rightarrow> string \<Rightarrow> u32 \<Rightarrow> bool \<Rightarrow> bool
      \<Rightarrow> (unit, binding_store \<times> ('d, 'w) host) io" where
  "prepare_subnet_adoption net aio persist subnet owner index stale stale_later = (\<lambda>(s, v).
     case ai_check aio v of
       Inl e \<Rightarrow> (Inl e, (s, v))
     | Inr _ \<Rightarrow>
         (case hm_get (adopted_meta_map (host_settings v)) subnet of
            None \<Rightarrow> (Inr (), (s, v))
          | Some row \<Rightarrow>
              if \<not> removal_complete row \<or> stale
              then (Inl (Network ''Saved binding is still pending or present''), (s, v))
              else
                (case operation_snapshot_of aio v of
                   (Inl e, v') \<Rightarrow> (Inl e, (s, v'))
                 | (Inr snap, v') \<Rightarrow>
                     if stale_later \<or> \<not> na_is_up (os_selected snap) \<or> na_dhcp (os_selected snap)
                        \<or> adapter_mac (na_mac (os_selected snap)) \<noteq> adapter_mac owner
                        \<or> na_index (os_selected snap) \<noteq> index
                        \<or> Option.bind (am_adapter_mac row) adapter_mac \<noteq> adapter_mac owner
                        \<or> binding_action net subnet row (Some (os_iface snap)) (network_mode_sel (host_settings v'))
                            (Inr (na_dhcp (os_selected snap))) [] \<noteq> Observed False
                     then (Inl (Network ''Removal absence or selected adapter is unconfirmed''), (s, v'))
                     else
                       (case on_config (forget_completed_removal_with subnet row persist) v' of
                          (Inl e, v'') \<Rightarrow> (Inl e, (s, v''))
                        | (Inr _, v'') \<Rightarrow>
                            (Inr (), (s\<lparr>bs_adopted_meta := hm_remove subnet (bs_adopted_meta s),
                                        bs_adopted_ips := hm_remove subnet (bs_adopted_ips s)\<rparr>, v''))))))"

definition claim_binding_locked ::
    "string \<Rightarrow> string \<Rightarrow> 'd persist \<Rightarrow> (unit, binding_store \<times> ('d, 'w) host) io" where
  "claim_binding_locked ip nm persist = (\<lambda>(s, v).
     case on_config (claim_binding_with ip persist) v of
       (Inl e, v') \<Rightarrow> (Inl e, (s, v'))
     | (Inr _, v') \<Rightarrow>
         let gone = (\<lambda>k. hm_contains k (adopted_meta_map (host_settings v))
                         \<and> \<not> hm_contains k (adopted_meta_map (host_settings v')))
         in (Inr (), (s\<lparr>bs_pending_ips := filter (\<lambda>e. show_ipv4 (pi_ip e) \<noteq> ip \<or> pi_iface e \<noteq> nm) (bs_pending_ips s),
                        bs_adopted_ips := hm_retain (\<lambda>k _. \<not> gone k) (bs_adopted_ips s),
                        bs_adopted_meta := hm_retain (\<lambda>k _. \<not> gone k) (bs_adopted_meta s)\<rparr>, v')))"

section \<open>Temporary addresses left by an earlier run\<close>

text \<open>\<open>AddressOps\<close> without an adapter.\<close>

definition address_ops :: "('d, 'w) host address_io \<Rightarrow> ('d, 'w) host native_ops" where
  "address_ops aio = \<lparr>
     no_check = ai_check aio,
     no_observe = (\<lambda>nm. io_bind (ai_native aio) (\<lambda>all. io_get (\<lambda>v.
       res_bind (native_by_alias all nm) (\<lambda>native.
         ok_or (Network ''Adapter requires qualification'') (ai_descriptor aio native v))))),
     no_add = (\<lambda>_ _ _. io_lift (Inl (Network ''Address writer has no validated adapter''))),
     no_remove = (\<lambda>nm ip. io_bind (ai_native aio) (\<lambda>all.
       io_bind (io_lift (native_by_alias all nm)) (\<lambda>native v.
         if wired_descriptor aio v native = None then (Inl (Network ''Adapter requires qualification''), v)
         else if na_alias native \<noteq> nm then (Inl (Network ''Adapter alias changed''), v)
         else ai_remove aio native (show_ipv4 ip) v)))\<rparr>"

definition track_pending :: "string \<Rightarrow> ipv4 \<Rightarrow> binding_store \<Rightarrow> binding_store" where
  "track_pending nm ip s =
     (if list_ex (\<lambda>p. pi_iface p = nm \<and> pi_ip p = ip) (bs_pending_ips s) then s
      else s\<lparr>bs_pending_ips := bs_pending_ips s @ [\<lparr>pi_iface = nm, pi_ip = ip, pi_adoption_id = bs_adoption_seq s + 1\<rparr>],
             bs_adoption_seq := bs_adoption_seq s + 1\<rparr>)"

definition temporary_target :: "interface_info list \<Rightarrow> pending_address \<Rightarrow> (ipv4 \<times> interface_info) option" where
  "temporary_target adapters row =
     (case parse_ipv4 (pa_address row) of
        None \<Rightarrow> None
      | Some ip \<Rightarrow>
          if prohibited_camera_ip ip \<or> pa_prefix row \<noteq> 24 \<or> adapter_mac (pa_adapter_mac row) = None then None
          else (case filter (\<lambda>a. adapter_candidate a \<and> adapter_mac (if_mac a) = adapter_mac (pa_adapter_mac row)) adapters of
                  [iface] \<Rightarrow> Some (ip, iface)
                | _ \<Rightarrow> None))"

definition reconcile_temporary_row ::
    "('d, 'w) host address_io \<Rightarrow> 'd persist \<Rightarrow> interface_info list \<Rightarrow> pending_address
      \<Rightarrow> binding_store \<times> ('d, 'w) host \<Rightarrow> binding_store \<times> ('d, 'w) host" where
  "reconcile_temporary_row aio persist adapters row = (\<lambda>(s, v).
     case temporary_target adapters row of
       None \<Rightarrow> (s, v)
     | Some (ip, iface) \<Rightarrow>
         (if list_ex (\<lambda>a. ip_address a = pa_address row \<and> ip_prefix a = pa_prefix row) (if_ips iface)
          then track_pending (if_name iface) ip s else s,
          snd (pending_ops_remove (address_ops aio) persist (pa_adapter_mac row) (if_name iface) ip v)))"

definition reconcile_temporary_locked ::
    "('d, 'w) host address_io \<Rightarrow> 'd persist \<Rightarrow> binding_store \<times> ('d, 'w) host \<Rightarrow> binding_store \<times> ('d, 'w) host" where
  "reconcile_temporary_locked aio persist = (\<lambda>(s, v).
     let saved = pending_addresses (host_settings v) in
     if isl (ai_check aio v) \<or> saved = [] then (s, v)
     else
       (case ai_native aio v of
          (Inl _, v1) \<Rightarrow> (s, v1)
        | (Inr all, v1) \<Rightarrow>
            let adapters = List.map_filter (\<lambda>n. ai_descriptor aio n v1) all;
                (s2, v2) = fold (reconcile_temporary_row aio persist adapters) saved (s, v1);
                remaining = pending_addresses (host_settings v2)
            in (s2\<lparr>bs_pending_ips := filter (\<lambda>p. list_ex (\<lambda>r. pa_address r = show_ipv4 (pi_ip p)) remaining)
                     (bs_pending_ips s2)\<rparr>, v2)))"

section \<open>Liveness\<close>

definition meta_dirty_flush_due :: "instant \<Rightarrow> meta_flush \<Rightarrow> bool \<times> meta_flush" where
  "meta_dirty_flush_due now f =
     (if META_FLUSH_INTERVAL \<le> now - mf_last_flush f then (True, \<lparr>mf_dirty = False, mf_last_flush = now\<rparr>)
      else (False, f\<lparr>mf_dirty := True\<rparr>))"

definition record_positive_liveness :: "ipv4 \<Rightarrow> instant \<Rightarrow> string \<Rightarrow> binding_store \<Rightarrow> bool \<times> binding_store" where
  "record_positive_liveness ip now wall s =
     (let subnet = subnet_key_for ip in
      if \<not> hm_contains subnet (bs_adopted_ips s) then (False, s)
      else (True, s\<lparr>bs_liveness := hm_insert subnet now (bs_liveness s),
              bs_adopted_meta := hm_insert subnet
                ((case hm_get (bs_adopted_meta s) subnet of Some r \<Rightarrow> r | None \<Rightarrow> adopted_meta_default)
                   \<lparr>am_last_device_seen := Some wall\<rparr>) (bs_adopted_meta s)\<rparr>))"

definition flush_adoption_state :: "'d persist \<Rightarrow> binding_store \<times> ('d, 'w) host \<Rightarrow> binding_store \<times> ('d, 'w) host" where
  "flush_adoption_state persist = (\<lambda>(s, v). (s, snd (on_config (update_adoption_liveness (bs_adopted_meta s) persist) v)))"

definition note_verified_liveness ::
    "ipv4 \<Rightarrow> sweep_fence \<Rightarrow> instant \<Rightarrow> string \<Rightarrow> 'd persist \<Rightarrow> binding_store \<times> ('d, 'w) host \<Rightarrow> binding_store \<times> ('d, 'w) host" where
  "note_verified_liveness ip fence now wall persist = (\<lambda>(s, v).
     if is_stale fence then (s, v)
     else
       let (landed, s1) = record_positive_liveness ip now wall s in
       if \<not> landed then (s1, v)
       else
         let (due, f) = meta_dirty_flush_due now (bs_flush s1); s2 = s1\<lparr>bs_flush := f\<rparr>
         in if due then flush_adoption_state persist (s2, v) else (s2, v))"

section \<open>Views\<close>

definition merge_adopted_config ::
    "(string, ipv4) hashmap \<Rightarrow> (string, adopted_meta) hashmap \<Rightarrow> (string, string) hashmap" where
  "merge_adopted_config live meta =
     map (\<lambda>(k, ip). (k, show_ipv4 ip))
       (filter (\<lambda>(k, ip). case hm_get meta k of
          None \<Rightarrow> False
        | Some row \<Rightarrow> committed_row row \<and> am_address row = Some (show_ipv4 ip)) live)"

definition adopted_config_snapshot ::
    "binding_store \<Rightarrow> (string, string) hashmap \<times> (string, adopted_meta) hashmap" where
  "adopted_config_snapshot s = (merge_adopted_config (bs_adopted_ips s) (bs_adopted_meta s), bs_adopted_meta s)"

definition pending_ip_strings :: "binding_store \<Rightarrow> string set" where
  "pending_ip_strings s = set (map (show_ipv4 \<circ> pi_ip) (bs_pending_ips s))"

definition get_adopted_ips :: "binding_store \<Rightarrow> (string, string) hashmap" where
  "get_adopted_ips s = map (\<lambda>(k, ip). (k, show_ipv4 ip)) (bs_adopted_ips s)"

section \<open>Laws\<close>

definition routes_ok :: "binding_store \<Rightarrow> bool" where
  "routes_ok s \<longleftrightarrow> hm_wf (bs_adopted_ips s) \<and> hm_wf (bs_adopted_meta s)
     \<and> (\<forall>subnet ip. hm_get (bs_adopted_ips s) subnet = Some ip \<longrightarrow>
          (\<exists>row. hm_get (bs_adopted_meta s) subnet = Some row \<and> committed_row row
             \<and> Option.bind (am_address row) parse_ipv4 = Some ip))"

text \<open>A row that can be published: a clean present row has an address.\<close>

definition publishable :: "adopted_meta \<Rightarrow> bool" where
  "publishable row \<longleftrightarrow> (committed_row row \<longrightarrow> Option.bind (am_address row) parse_ipv4 \<noteq> None)"

lemma routes_ok_cong:
  "routes_ok s \<Longrightarrow> bs_adopted_ips s' = bs_adopted_ips s \<Longrightarrow> bs_adopted_meta s' = bs_adopted_meta s \<Longrightarrow> routes_ok s'"
  by (simp add: routes_ok_def)

lemma publish_row_ok: "routes_ok s \<Longrightarrow> publishable row \<Longrightarrow> routes_ok (publish_row subnet row s)"
  by (auto simp: routes_ok_def publishable_def publish_row_def hm_simps wf_intros split: option.splits)

lemma save_failed_not_committed [simp]: "\<not> committed_row (save_failed e row)"
  by (simp add: committed_row_def save_failed_def)

lemma publish_binding_ok:
  "routes_ok s \<Longrightarrow> publishable row \<Longrightarrow> routes_ok (fst (snd (publish_binding subnet row persist (s, v))))"
  by (auto simp: publish_binding_def publishable_def intro!: publish_row_ok split: prod.splits sum.splits)

lemma reconcile_row_total: "reconcile_row net aio subnet row snapshot mode v \<noteq> None"
proof (cases snapshot)
  case (Inl e)
  then show ?thesis
    by (simp add: reconcile_row_def row_action_def apply_binding_def apply_action_def del: not_None_eq)
next
  case (Inr snap)
  show ?thesis
  proof (cases "am_desired row = Present \<and> hm_get (adopted_subnets (host_settings v)) subnet \<noteq> am_address row")
    case True
    with Inr show ?thesis by (simp add: reconcile_row_def row_action_def apply_binding_def apply_action_def del: not_None_eq)
  next
    case False
    then have "row_action net aio subnet row (Inr snap) mode v =
        binding_action net subnet row (Some (os_iface snap)) mode (Inr (na_dhcp (os_selected snap))) (native_conflicts net aio snap v)"
      by (auto simp: row_action_def)
    then show ?thesis using Inr by (simp add: reconcile_row_def apply_binding_total del: not_None_eq)
  qed
qed

lemma valid_binding_address: "valid_binding net subnet row \<noteq> None \<Longrightarrow> Option.bind (am_address row) parse_ipv4 \<noteq> None"
  by (auto dest!: valid_binding_Some)

lemma committing_action:
  assumes "apply_binding os row action iface w = Some (row', w')" "committed_row row'"
  shows "am_address row' = am_address row \<and> (action = Observed True \<or> writes action) \<and> am_desired row = Present"
proof -
  have nrem: "\<not> (am_desired row = Removed \<and> row' = row)" using assms(2) by (auto simp: committed_row_def)
  with assms(1) obtain row'' where act: "apply_action os row action iface w = Some (row'', w')"
    and eq: "am_address row' = am_address row''" "am_applied row' = am_applied row''"
      "am_last_error row' = am_last_error row''" "am_desired row' = am_desired row''"
    by (auto simp: apply_binding_def removal_complete_def split: if_splits)
  from apply_action_fields [OF act] assms(2) eq show ?thesis
    by (auto simp: committed_row_def)
qed

lemma reconcile_row_publishable:
  assumes "reconcile_row net aio subnet row snapshot mode v = Some (row', v')"
  shows "publishable row'"
  unfolding publishable_def
proof
  assume com: "committed_row row'"
  let ?act = "row_action net aio subnet row snapshot mode v"
  obtain os iface where "apply_binding os row ?act iface v = Some (row', v')"
    using assms by (auto simp: reconcile_row_def split: sum.splits)
  from committing_action [OF this com] have addr: "am_address row' = am_address row"
    and act: "?act = Observed True \<or> writes ?act" and pres: "am_desired row = Present" by auto
  have decided: "\<exists>i d cs. binding_action net subnet row i mode d cs = ?act" if "\<forall>m b. ?act \<noteq> Hold m b" "\<forall>m. ?act \<noteq> Unavailable m"
    using that by (auto simp: row_action_def simp del: split_paired_Ex split_paired_All split: if_splits sum.splits)
  have "valid_binding net subnet row \<noteq> None"
  proof (cases ?act)
    case (Observed b)
    with act decided obtain i d cs where "binding_action net subnet row i mode d cs = Observed True"
      by (auto simp: writes_def)
    from binding_action_observed [OF this] show ?thesis by blast
  next
    case (Add ip prefix)
    with decided obtain i d cs where "binding_action net subnet row i mode d cs = Add ip prefix" by auto
    from binding_action_write_cases(1) [OF this] show ?thesis by auto
  next
    case (Remove ip)
    with decided obtain i d cs where "binding_action net subnet row i mode d cs = Remove ip" by auto
    from binding_action_write_cases(2) [OF this] pres show ?thesis by auto
  qed (use act in \<open>auto simp: writes_def\<close>)
  with addr valid_binding_address [of net subnet row] show "Option.bind (am_address row') parse_ipv4 \<noteq> None" by simp
qed

lemma reconcile_rows_ok:
  "routes_ok (fst sv) \<Longrightarrow> \<exists>sv'. reconcile_rows net aio persist rows snapshot mode sv = Some sv' \<and> routes_ok (fst sv')"
proof (induction rows arbitrary: sv)
  case (Cons r rows)
  obtain s v where sv: "sv = (s, v)" by (cases sv)
  obtain subnet row where r: "r = (subnet, row)" by (cases r)
  obtain row' v' where rr: "reconcile_row net aio subnet row snapshot mode v = Some (row', v')"
    using reconcile_row_total [of net aio subnet row snapshot mode v]
    by (cases "reconcile_row net aio subnet row snapshot mode v") auto
  have "routes_ok (fst (snd (publish_binding subnet row' persist (s, v'))))"
    using Cons.prems sv reconcile_row_publishable [OF rr] by (intro publish_binding_ok) auto
  from Cons.IH [OF this] show ?case
    by (simp add: r sv reconcile_binding_row_def rr split_beta del: split_paired_Ex)
qed (simp del: split_paired_Ex)

lemma reconcile_bindings_ok:
  "routes_ok (fst sv) \<Longrightarrow> \<exists>sv'. reconcile_bindings net aio persist sv = Some sv' \<and> routes_ok (fst sv')"
proof -
  assume ok: "routes_ok (fst sv)"
  obtain s v where sv: "sv = (s, v)" by (cases sv)
  obtain snapshot v' where snap: "operation_snapshot_of aio v = (snapshot, v')" by (metis prod.collapse)
  show ?thesis
    using ok reconcile_rows_ok [of "(s, v')" net aio persist "adopted_meta_map (host_settings v)" snapshot]
    by (simp add: sv reconcile_bindings_def snap del: split_paired_Ex)
qed

lemma prepare_ok:
  "routes_ok (fst sv) \<Longrightarrow> routes_ok (fst (snd (prepare_subnet_adoption net aio persist subnet owner index st st' sv)))"
  by (cases sv) (auto simp: prepare_subnet_adoption_def routes_ok_def hm_simps wf_intros
      split: sum.splits option.splits prod.splits)

lemma routes_ok_retain:
  assumes "routes_ok s"
  shows "routes_ok (s\<lparr>bs_pending_ips := x, bs_adopted_ips := hm_retain (\<lambda>k _. P k) (bs_adopted_ips s),
    bs_adopted_meta := hm_retain (\<lambda>k _. P k) (bs_adopted_meta s)\<rparr>)"
proof -
  have wf: "hm_wf (bs_adopted_ips s)" "hm_wf (bs_adopted_meta s)" using assms by (simp_all add: routes_ok_def)
  note get = hm.keep_find_Some [OF wf(1)] hm.keep_find_Some [OF wf(2)]
  from assms show ?thesis by (simp add: routes_ok_def wf wf_intros get)
qed

lemma claim_ok: "routes_ok (fst sv) \<Longrightarrow> routes_ok (fst (snd (claim_binding_locked ip nm persist sv)))"
  by (cases sv) (auto simp: claim_binding_locked_def Let_def intro!: routes_ok_retain split: sum.splits prod.splits)

lemma record_liveness_ok:
  assumes "routes_ok s"
  shows "routes_ok (snd (record_positive_liveness ip now wall s))"
proof (cases "hm_get (bs_adopted_ips s) (subnet_key_for ip)")
  case None
  with assms show ?thesis by (simp add: record_positive_liveness_def hm_contains_def)
next
  case (Some a)
  with assms obtain row where "hm_get (bs_adopted_meta s) (subnet_key_for ip) = Some row" "committed_row row"
    "Option.bind (am_address row) parse_ipv4 = Some a"
    by (auto simp: routes_ok_def)
  with Some assms show ?thesis
    by (simp add: record_positive_liveness_def hm_contains_def routes_ok_def hm_simps wf_intros Let_def committed_row_def)
qed

lemma note_liveness_ok:
  assumes "routes_ok (fst sv)"
  shows "routes_ok (fst (note_verified_liveness ip fence now wall persist sv))"
proof -
  obtain s v where sv: "sv = (s, v)" by (cases sv)
  have "routes_ok (snd (record_positive_liveness ip now wall s))"
    using assms sv by (intro record_liveness_ok) simp
  then show ?thesis
    using assms
    by (auto simp: sv note_verified_liveness_def flush_adoption_state_def Let_def split: prod.splits
        elim: routes_ok_cong)
qed

lemma track_pending_routes [simp]:
  "bs_adopted_ips (track_pending nm ip s) = bs_adopted_ips s" "bs_adopted_meta (track_pending nm ip s) = bs_adopted_meta s"
  by (simp_all add: track_pending_def)

lemma temporary_rows_routes:
  "bs_adopted_ips (fst (fold (reconcile_temporary_row aio persist adapters) rows sv)) = bs_adopted_ips (fst sv)
   \<and> bs_adopted_meta (fst (fold (reconcile_temporary_row aio persist adapters) rows sv)) = bs_adopted_meta (fst sv)"
proof (induction rows arbitrary: sv)
  case (Cons r rows)
  have "bs_adopted_ips (fst (reconcile_temporary_row aio persist adapters r sv)) = bs_adopted_ips (fst sv)
    \<and> bs_adopted_meta (fst (reconcile_temporary_row aio persist adapters r sv)) = bs_adopted_meta (fst sv)"
    by (cases sv) (auto simp: reconcile_temporary_row_def split: option.splits)
  with Cons.IH show ?case by simp
qed simp

lemma temporary_ok:
  assumes "routes_ok (fst sv)"
  shows "routes_ok (fst (reconcile_temporary_locked aio persist sv))"
proof -
  obtain s v where sv: "sv = (s, v)" by (cases sv)
  show ?thesis
    using temporary_rows_routes [of aio persist _ "pending_addresses (host_settings v)" "(s, _)"]
    by (intro routes_ok_cong [OF assms]) (simp_all add: sv reconcile_temporary_locked_def Let_def split_beta split: sum.splits)
qed

lemma adopted_row_route: "Option.bind (am_address (adopted_row now owner ip)) parse_ipv4 = Some ip"
  by (simp add: adopted_row_def)

lemma publish_adoption_ok: "routes_ok s \<Longrightarrow> routes_ok (publish_adoption now subnet ip (adopted_row wall owner ip) s)"
  using adopted_row_route [of wall owner ip]
  by (auto simp: routes_ok_def publish_adoption_def hm_simps wf_intros)

section \<open>Runs of the store\<close>

datatype binding_op =
    BoPublish instant string string "string option" ipv4
  | BoReconcile
  | BoPrepare string string u32 bool bool
  | BoClaim string string
  | BoLiveness ipv4 sweep_fence instant string
  | BoTemporary

fun binding_step ::
    "'n ipnet_crate \<Rightarrow> ('d, 'w) host address_io \<Rightarrow> 'd persist \<Rightarrow> binding_op \<Rightarrow> binding_store \<times> ('d, 'w) host
      \<Rightarrow> binding_store \<times> ('d, 'w) host" where
  "binding_step net aio persist (BoPublish now subnet wall owner ip) sv =
     (publish_adoption now subnet ip (adopted_row wall owner ip) (fst sv), snd sv)"
| "binding_step net aio persist BoReconcile sv = the (reconcile_bindings net aio persist sv)"
| "binding_step net aio persist (BoPrepare subnet owner index st st') sv =
     snd (prepare_subnet_adoption net aio persist subnet owner index st st' sv)"
| "binding_step net aio persist (BoClaim ip nm) sv = snd (claim_binding_locked ip nm persist sv)"
| "binding_step net aio persist (BoLiveness ip fence now wall) sv = note_verified_liveness ip fence now wall persist sv"
| "binding_step net aio persist BoTemporary sv = reconcile_temporary_locked aio persist sv"

interpretation bindings: guarded_machine
    "\<lambda>sv. bs_adopted_ips (fst sv) = [] \<and> hm_wf (bs_adopted_meta (fst sv))" "binding_step net aio persist" "\<lambda>sv. routes_ok (fst sv)"
  for net aio persist
proof
  fix op and sv :: "binding_store \<times> ('a, 'b) host"
  assume ok: "routes_ok (fst sv)"
  show "routes_ok (fst (binding_step net aio persist op sv))"
  proof (cases op)
    case BoReconcile
    obtain sv' where "reconcile_bindings net aio persist sv = Some sv'" "routes_ok (fst sv')"
      using reconcile_bindings_ok [OF ok] by blast
    then show ?thesis by (simp add: BoReconcile)
  qed (simp_all add: ok publish_adoption_ok prepare_ok claim_ok note_liveness_ok temporary_ok)
qed (simp add: routes_ok_def)

section \<open>Address epochs\<close>

definition pause_event :: "bool \<Rightarrow> address_epoch \<Rightarrow> address_epoch" where
  "pause_event start = (if start then address_pause_new else address_pause_drop)"

lemma pause_events_generation: "fst (fold pause_event es e) = fst e + of_nat (length es)"
  by (induction es arbitrary: e) (auto simp: pause_event_def address_pause_new_def address_pause_drop_def)

section \<open>Example\<close>

text \<open>Networks as an address and a prefix, with the reading of \<open>parse_cidr\<close>.\<close>

definition plain_net :: "(ipv4 \<times> u8) ipnet_crate" where
  "plain_net = \<lparr>ipnet_new = (\<lambda>a p. if p \<le> 32 then Some (a, p) else None),
     ipnet_network = (\<lambda>(a, p). ipv4_of_u32 (u32_of_ipv4 a AND netmask p)),
     ipnet_broadcast = (\<lambda>(a, p). ipv4_of_u32 (u32_of_ipv4 a OR NOT (netmask p))),
     ipnet_prefix = snd,
     ipnet_contains = (\<lambda>(a, p) x. u32_of_ipv4 x AND netmask p = u32_of_ipv4 a AND netmask p),
     ipnet_parse = (\<lambda>s. case parse_cidr s of Inl _ \<Rightarrow> None | Inr n \<Rightarrow> Some n)\<rparr>"

definition demo_row :: adopted_meta where
  "demo_row = adopted_meta_default\<lparr>am_adapter_mac := Some demo_mac, am_address := Some ''10.0.0.9'', am_prefix := Some 24\<rparr>"

definition demo_iface :: interface_info where
  "demo_iface = \<lparr>if_name = ''eth'', if_display_name = [], if_description = [], if_ips = [], if_mac = demo_mac,
     if_is_up = True, if_is_ethernet = True, if_is_wifi = False, if_is_vpn = False, if_is_virtual = False\<rparr>"

definition demo_os :: "ip_info list binding_os" where
  "demo_os = \<lparr>bo_add = (\<lambda>_ ip _ w. (Inr (), \<lparr>ip_address = show_ipv4 ip, ip_prefix = 24, ip_subnet = []\<rparr> # w)),
     bo_remove = (\<lambda>_ ip w. (Inr (), filter (\<lambda>a. ip_address a \<noteq> show_ipv4 ip) w)), bo_observe = (\<lambda>w. (Inr w, w))\<rparr>"

definition demo_aio :: "(app_settings, unit) host address_io" where
  "demo_aio = \<lparr>ai_check = (\<lambda>_. Inr ()), ai_native = (\<lambda>v. (Inr [], v)), ai_descriptor = (\<lambda>_ _. None),
     ai_qualify = (\<lambda>v. (Inr (), v)), ai_add = (\<lambda>_ _ _ v. (Inr (), v)), ai_remove = (\<lambda>_ _ v. (Inr (), v))\<rparr>"

lemma demo_action: "binding_action plain_net ''10.0.0.0/24'' demo_row (Some demo_iface) StaticAuto (Inr False) [] = Add (Ipv4 10 0 0 9) 24"
  by code_simp

section \<open>Properties\<close>



text \<open>applying a decision never fails internally, changes neither the intent nor the address of
  the row, and reports a clean row only when the operating system was seen in the wanted state: the
  row is clean and applied only for a wanted address that is present, clean and not applied only
  for an unwanted one that is absent.\<close>

theorem clean_row_was_observed:
  assumes "action = binding_action net subnet row iface mode dhcp conflicts"
  shows "\<exists>row' w'. apply_binding os row action iface w = Some (row', w')
    \<and> am_desired row' = am_desired row \<and> am_address row' = am_address row \<and> am_prefix row' = am_prefix row
    \<and> (am_last_error row' = None \<longrightarrow> am_applied row' = (am_desired row = Present))
    \<and> (am_last_error row' = None \<longrightarrow> writes action \<longrightarrow>
        (\<exists>u ips. bo_observe os u = (Inr ips, w') \<and> wanted_state row ips = (am_desired row = Present)))"
proof -
  obtain row' w' where app: "apply_binding os row action iface w = Some (row', w')"
    using apply_binding_total [of os row net subnet iface mode dhcp conflicts w] assms
    by (cases "apply_binding os row action iface w") auto
  have obs: "b = (am_desired row = Present)" if "action = Observed b" for b
    using that assms by (cases "am_desired row")
      (auto simp: binding_action_split split: option.splits if_splits sum.splits)
  show ?thesis
  proof (cases "(case action of Unavailable _ \<Rightarrow> True | _ \<Rightarrow> False) \<and> removal_complete row")
    case True
    with app have "row' = row" "\<not> writes action" by (auto simp: apply_binding_def writes_def split: bind_action.splits)
    with True app show ?thesis by (auto simp: removal_complete_def)
  next
    case False
    with app obtain row'' where act: "apply_action os row action iface w = Some (row'', w')"
      and eq: "am_desired row' = am_desired row''" "am_address row' = am_address row''" "am_prefix row' = am_prefix row''"
        "am_applied row' = am_applied row''" "am_last_error row' = am_last_error row''"
      by (auto simp: apply_binding_def split: if_splits)
    from apply_action_fields [OF act] eq obs app show ?thesis
      by (auto simp: writes_def split: bind_action.splits)
  qed
qed

theorem clean_row_was_observed_witness:
  "\<exists>row' w'. apply_binding demo_os demo_row (Add (Ipv4 10 0 0 9) 24) (Some demo_iface) [] = Some (row', w')
     \<and> am_last_error row' = None \<and> am_applied row'"
proof -
  have "map_option (\<lambda>(r, _). am_last_error r) (apply_binding demo_os demo_row (Add (Ipv4 10 0 0 9) 24) (Some demo_iface) []) = Some None"
    by code_simp
  moreover have "am_desired demo_row = Present" by (simp add: demo_row_def adopted_meta_default_def)
  ultimately show ?thesis
    using clean_row_was_observed [OF demo_action [symmetric], of demo_os "[]"] by auto
qed

text \<open>C37: routes are committed bindings: whatever sequence of adoptions, reconciliations, retirements,
  claims and liveness stamps has run, every live route belongs to a row that is wanted, applied and
  without error and whose address it is, so the frontend snapshot shows exactly the live routes
  whose row spells the address.\<close>

theorem routes_are_committed:
  fixes start :: "binding_store \<times> ('d, 'w) host"
  assumes "bs_adopted_ips (fst start) = []" "hm_wf (bs_adopted_meta (fst start))"
    and "s = fst (fold (binding_step net aio persist) ops start)"
    and "hm_get (bs_adopted_ips s) subnet = Some ip"
  shows "\<exists>row a. hm_get (bs_adopted_meta s) subnet = Some row \<and> committed_row row
    \<and> am_address row = Some a \<and> parse_ipv4 a = Some ip
    \<and> (a = show_ipv4 ip \<longrightarrow> (subnet, show_ipv4 ip) \<in> set (fst (adopted_config_snapshot s)))"
proof -
  have ok: "routes_ok s" unfolding assms(3) by (rule bindings.reach_inv) (use assms(1,2) in simp)
  then obtain row a where row: "hm_get (bs_adopted_meta s) subnet = Some row" "committed_row row"
    "am_address row = Some a" "parse_ipv4 a = Some ip"
    using assms(4) by (fastforce simp: routes_ok_def bind_eq_Some_conv)
  have "(subnet, ip) \<in> set (bs_adopted_ips s)" using assms(4) by (rule map_of_SomeD)
  then have "(subnet, show_ipv4 ip) \<in> set (fst (adopted_config_snapshot s))" if "a = show_ipv4 ip"
    using row that by (force simp: adopted_config_snapshot_def merge_adopted_config_def)
  with row show ?thesis by blast
qed

theorem routes_are_committed_witness:
  "let s = fst (fold (binding_step plain_net demo_aio demo_save)
        [BoPublish 5 ''10.0.0.0/24'' ''now'' (Some demo_mac) (Ipv4 10 0 0 100)]
        (binding_store_new 0, demo_host demo_settings))
   in hm_get (bs_adopted_ips s) ''10.0.0.0/24'' = Some (Ipv4 10 0 0 100)
     \<and> (\<exists>row. hm_get (bs_adopted_meta s) ''10.0.0.0/24'' = Some row \<and> committed_row row)"
proof -
  let ?start = "(binding_store_new 0, demo_host demo_settings)"
  let ?s = "fst (fold (binding_step plain_net demo_aio demo_save)
        [BoPublish 5 ''10.0.0.0/24'' ''now'' (Some demo_mac) (Ipv4 10 0 0 100)] ?start)"
  have get: "hm_get (bs_adopted_ips ?s) ''10.0.0.0/24'' = Some (Ipv4 10 0 0 100)"
    by (simp add: publish_adoption_def hm_simps)
  have "\<exists>row a. hm_get (bs_adopted_meta ?s) ''10.0.0.0/24'' = Some row \<and> committed_row row
    \<and> am_address row = Some a \<and> parse_ipv4 a = Some (Ipv4 10 0 0 100)
    \<and> (a = show_ipv4 (Ipv4 10 0 0 100) \<longrightarrow> (''10.0.0.0/24'', show_ipv4 (Ipv4 10 0 0 100)) \<in> set (fst (adopted_config_snapshot ?s)))"
    by (rule routes_are_committed [OF _ _ refl get]) (simp_all add: binding_store_new_def)
  with get show ?thesis by (auto simp: Let_def)
qed

text \<open>address work that was started before a pause never becomes current again, through fewer
  than \<open>2\<^sup>6\<^sup>4\<close> pauses and resumptions in any order; work started after the last resumption is current.\<close>

theorem paused_work_stays_stale:
  assumes "0 < length es" "length es < 2 ^ 64"
  shows "is_stale (address_fence e (fold pause_event es e))
    \<and> (\<not> hd (rev es) \<longrightarrow> \<not> is_stale (address_fence (fold pause_event es e) (fold pause_event es e)))"
proof -
  have "of_nat (length es) \<noteq> (0 :: u64)"
    using assms by (auto simp: word_of_nat_eq_0_iff dest: nat_dvd_not_less)
  then have "is_stale (address_fence e (fold pause_event es e))"
    by (simp add: is_stale_def address_fence_def pause_events_generation)
  moreover have "snd (fold pause_event es e)" if "\<not> hd (rev es)"
    using assms(1) that by (cases es rule: rev_cases) (auto simp: pause_event_def address_pause_drop_def)
  ultimately show ?thesis by (simp add: is_stale_def address_fence_def)
qed

theorem paused_work_stays_stale_witness:
  "is_stale (address_fence (7, True) (fold pause_event [True, False] (7, True)))"
  using paused_work_stays_stale [of "[True, False]" "(7, True)"] by simp

end
