(* ===== verification/Discovery_Policy.thy ===== *)
theory Discovery_Policy
  imports Bindings Registry_Invariants
begin

text \<open>
  The decisions of discovery that have no state of their own: which networks are ghosts of
  other adapters (\<open>network/ghost.rs\<close>), when an adoption is stale (\<open>network/reaper.rs\<close>), which
  source reaches a device and when a camera path is ready (\<open>network/mod.rs\<close>,
  \<open>network/route.rs\<close>), when discovery resumes, and what neighbour tables import.
\<close>

section \<open>Ghost networks\<close>

definition ip_to_network :: "'n ipnet_crate \<Rightarrow> ip_info \<Rightarrow> 'n option" where
  "ip_to_network net ip =
     Option.bind (address_network net ip) (\<lambda>n. ipnet_new net (ipnet_network net n) (ip_prefix ip))"

fun push_new :: "'n list \<Rightarrow> 'n list \<Rightarrow> 'n list \<Rightarrow> 'n list" where
  "push_new wired excluded [] = excluded"
| "push_new wired excluded (n # ns) =
     push_new wired (if n \<notin> set wired \<and> n \<notin> set excluded then excluded @ [n] else excluded) ns"

definition networks_of :: "'n ipnet_crate \<Rightarrow> interface_info list \<Rightarrow> 'n list" where
  "networks_of net ifaces = concat (map (\<lambda>i. List.map_filter (ip_to_network net) (if_ips i)) ifaces)"

definition non_wired_networks_of :: "'n ipnet_crate \<Rightarrow> interface_info list \<Rightarrow> 'n list" where
  "non_wired_networks_of net ifaces =
     push_new (networks_of net (filter is_wired_ethernet ifaces)) []
       (networks_of net (filter (\<lambda>i. if_is_up i \<and> \<not> is_wired_ethernet i) ifaces))"

definition is_structural_ghost_ip :: "'n ipnet_crate \<Rightarrow> ipv4 \<Rightarrow> 'n list \<Rightarrow> bool" where
  "is_structural_ghost_ip net ip networks = list_ex (\<lambda>n. ipnet_contains net n ip) networks"

definition is_structural_ghost_adoption :: "'n ipnet_crate \<Rightarrow> string \<Rightarrow> 'n list \<Rightarrow> bool" where
  "is_structural_ghost_adoption net subnet_key networks =
     (case ipnet_parse net subnet_key of
        None \<Rightarrow> False
      | Some k \<Rightarrow> list_ex (\<lambda>n. ipnet_contains net n (ipnet_network net k) \<or> ipnet_contains net k (ipnet_network net n)) networks)"

datatype cache_reject = NonWiredSubnet | HostOwnedMac

definition cache_rejection ::
    "'n ipnet_crate \<Rightarrow> 'n list \<Rightarrow> mac_bytes set \<Rightarrow> cached_device \<Rightarrow> cache_reject option" where
  "cache_rejection net ghosts local_macs d =
     (case parse_ipv4 (cd_ip d) of
        None \<Rightarrow> None
      | Some ip \<Rightarrow>
          if is_structural_ghost_ip net ip ghosts then Some NonWiredSubnet
          else if is_local_mac (cd_mac d) local_macs then Some HostOwnedMac
          else None)"

definition partition_cached ::
    "'n ipnet_crate \<Rightarrow> cached_device list \<Rightarrow> 'n list \<Rightarrow> mac_bytes set
      \<Rightarrow> cached_device list \<times> (cached_device \<times> cache_reject) list" where
  "partition_cached net cached ghosts local_macs =
     (filter (\<lambda>d. cache_rejection net ghosts local_macs d = None) cached,
      List.map_filter (\<lambda>d. map_option (\<lambda>r. (d, r)) (cache_rejection net ghosts local_macs d)) cached)"

definition hydrate_retained_history ::
    "'n ipnet_crate \<Rightarrow> cached_device list \<Rightarrow> 'n list \<Rightarrow> mac_bytes set \<Rightarrow> device_registry \<Rightarrow> device_registry" where
  "hydrate_retained_history net cached ghosts local_macs g =
     (let (allowed, rejected) = partition_cached net cached ghosts local_macs
      in fold (\<lambda>(d, reason) g. snd (set_status (cd_mac d)
             (case reason of NonWiredSubnet \<Rightarrow> OfflineNonWiredSubnet | HostOwnedMac \<Rightarrow> OfflineHostOwnedIp) g)) rejected
           (snd (hydrate_from_cache (allowed @ map fst rejected) g)))"

section \<open>Stale adoptions\<close>

definition REAP_TTL :: instant where "REAP_TTL = 30 * 60 * 1000"
definition STARTUP_GRACE :: instant where "STARTUP_GRACE = 10 * 60 * 1000"
definition STALE_BADGE :: instant where "STALE_BADGE = 24 * 60 * 60 * 1000"

datatype reap_verdict = KeepAdoption | StaleOnly | Reap

record lifecycle_input =
  li_subnet :: "ipv4 option"
  li_last_positive_elapsed :: "instant option"
  li_session_elapsed :: instant
  li_pinned :: bool
  li_host_rescued :: bool
  li_badge_age :: "instant option"

definition strip_suffix :: "string \<Rightarrow> string \<Rightarrow> string option" where
  "strip_suffix suf s =
     (if length suf \<le> length s \<and> drop (length s - length suf) s = suf then Some (take (length s - length suf) s) else None)"

definition parse_subnet_key :: "string \<Rightarrow> ipv4 option" where
  "parse_subnet_key key = Option.bind (strip_suffix ''/24'' key) parse_ipv4"

definition lifecycle_verdict :: "lifecycle_input \<Rightarrow> reap_verdict" where
  "lifecycle_verdict i =
     (case li_subnet i of
        None \<Rightarrow> KeepAdoption
      | Some net \<Rightarrow>
          if \<not> is_link_local net
          then (case li_badge_age i of
                  Some age \<Rightarrow> if STALE_BADGE \<le> age then StaleOnly else KeepAdoption
                | None \<Rightarrow> KeepAdoption)
          else
            let ttl_crossed = (case li_last_positive_elapsed i of
                  Some elapsed \<Rightarrow> REAP_TTL \<le> elapsed
                | None \<Rightarrow> STARTUP_GRACE \<le> li_session_elapsed i)
            in if \<not> ttl_crossed then KeepAdoption
               else if li_pinned i \<or> li_host_rescued i then StaleOnly
               else Reap)"

section \<open>Sources and ready paths\<close>

definition select_wired_source ::
    "'n ipnet_crate \<Rightarrow> ipv4 \<Rightarrow> (string, ipv4) hashmap \<Rightarrow> ip_info list \<Rightarrow> ipv4 option" where
  "select_wired_source net target adopted iface_ips =
     (case List.find (\<lambda>(subnet, _). case ipnet_parse net subnet of None \<Rightarrow> False | Some n \<Rightarrow> ipnet_contains net n target) adopted of
        Some (_, ip) \<Rightarrow> Some ip
      | None \<Rightarrow>
          (case List.find (\<lambda>i. case address_network net i of None \<Rightarrow> False | Some n \<Rightarrow> ipnet_contains net n target) iface_ips of
             Some i \<Rightarrow> parse_ipv4 (ip_address i)
           | None \<Rightarrow> None))"

record camera_target =
  ct_key :: string
  ct_expected_mac :: "string option"
  ct_ip :: string

definition not_ready :: "string \<Rightarrow> app_error" where
  "not_ready reason = Network (''Ethernet not ready: '' @ reason)"

definition fresh_row :: "camera_target \<Rightarrow> string \<Rightarrow> string \<Rightarrow> device_record \<Rightarrow> bool" where
  "fresh_row target expected adapter row \<longleftrightarrow>
     eq_ignore_ascii_case (dr_mac row) expected \<and> dr_ip row = ct_ip target \<and> dr_status row = Live
     \<and> dr_last_verified_at row \<noteq> None \<and> Option.bind (dr_verified_by_mac row) canonical_mac = Some adapter"

definition check_bound_ready ::
    "'n ipnet_crate \<Rightarrow> camera_target \<Rightarrow> interface_info option \<Rightarrow> u32 \<Rightarrow> device_record list \<Rightarrow> ipv4 result" where
  "check_bound_ready net target adapter index records =
     res_bind (parse_camera_ip (ct_ip target)) (\<lambda>ip.
     res_bind (case adapter of
         Some a \<Rightarrow> if if_is_up a \<and> if_is_ethernet a \<and> \<not> if_is_wifi a \<and> \<not> if_is_virtual a \<and> \<not> if_is_vpn a
                   then Inr a else Inl (not_ready ''selected adapter unavailable'')
       | None \<Rightarrow> Inl (not_ready ''selected adapter unavailable'')) (\<lambda>a.
     if index = 0 then Inl (not_ready ''selected adapter has no interface index'')
     else
       res_bind (case select_wired_source net ip [] (if_ips a) of
           Some source \<Rightarrow> if source \<noteq> ip \<and> \<not> prohibited_camera_ip source then Inr source
                          else Inl (not_ready ''no applied address on the selected adapter for this subnet'')
         | None \<Rightarrow> Inl (not_ready ''no applied address on the selected adapter for this subnet'')) (\<lambda>source.
       res_bind (ok_or (not_ready ''expected device identity has not been verified'')
                   (Option.bind (ct_expected_mac target) canonical_mac)) (\<lambda>expected.
       res_bind (case canonical_mac (if_mac a) of
           Some m \<Rightarrow> if m \<noteq> expected then Inr m else Inl (not_ready ''invalid or self adapter identity'')
         | None \<Rightarrow> Inl (not_ready ''invalid or self adapter identity'')) (\<lambda>mine.
       res_bind (ok_or (not_ready ''selected record is unavailable'')
                   (List.find (\<lambda>r. eq_ignore_ascii_case (dr_mac r) (ct_key target)) records)) (\<lambda>row.
       if \<not> fresh_row target expected mine row
       then Inl (not_ready ''expected MAC lacks fresh evidence at this endpoint'')
       else Inr source))))))"

definition check_ready ::
    "'n ipnet_crate \<Rightarrow> camera_target \<Rightarrow> interface_info option \<Rightarrow> u32 \<Rightarrow> device_record list \<Rightarrow> u32 option \<Rightarrow> ipv4 result" where
  "check_ready net target adapter index records egress =
     (if egress \<noteq> Some index
      then Inl (not_ready ''OS route does not select the selected Ethernet adapter'')
      else check_bound_ready net target adapter index records)"

section \<open>Discovery\<close>

datatype discovery_resume = Idle | RefreshSelection | Start interface_info

definition discovery_resume_action ::
    "network_mode \<Rightarrow> bool \<Rightarrow> bool \<Rightarrow> string option \<Rightarrow> adapter_selection \<Rightarrow> (u32 \<times> bool \<times> ip_info list) option \<Rightarrow> bool
      \<Rightarrow> discovery_resume" where
  "discovery_resume_action mode available session_active selected_mac selection native capture_active =
     (if mode = StaticManual \<or> \<not> available then Idle
      else if selected_mac = None \<and> sel_required selection then Idle
      else
        let selected = Option.bind selected_mac adapter_mac in
        if selected = None \<or> selected \<noteq> Option.bind (sel_mac selection) adapter_mac then RefreshSelection
        else
          (case native of
             None \<Rightarrow> if sel_adapter selection \<noteq> None then RefreshSelection else Idle
           | Some (index, up, ips) \<Rightarrow>
               (case sel_adapter selection of
                  None \<Rightarrow> RefreshSelection
                | Some i \<Rightarrow>
                    if \<not> (is_wired_physical i \<and> adapter_mac (if_mac i) = selected) then RefreshSelection
                    else if index = 0 \<or> sel_index selection \<noteq> Some index then RefreshSelection
                    else if session_active then Idle
                    else if \<not> up \<and> capture_active then Idle
                    else Start (i\<lparr>if_is_up := up, if_ips := ips\<rparr>))))"

definition dhcp_adoption_pause :: "bool \<Rightarrow> ipv4 list \<Rightarrow> string option" where
  "dhcp_adoption_pause is_dhcp ips =
     (if \<not> is_dhcp then None
      else if list_all prohibited_camera_ip ips then Some ''no usable address; set a static address''
      else Some ''DHCP enabled; automatic address adoption paused'')"

definition mode_keeps_capture :: "network_mode \<Rightarrow> network_mode \<Rightarrow> bool" where
  "mode_keeps_capture from to \<longleftrightarrow> from = Dhcp \<and> to = StaticAuto"

fun sweep_ips :: "ipv4 set \<Rightarrow> bool \<Rightarrow> (u8 \<times> u8 \<times> u8) list \<Rightarrow> ip_info list \<Rightarrow> string list" where
  "sweep_ips retained refresh seen [] = []"
| "sweep_ips retained refresh seen (i # is) =
     (case parse_ipv4 (ip_address i) of
        None \<Rightarrow> sweep_ips retained refresh seen is
      | Some ip \<Rightarrow>
          if prohibited_camera_ip ip \<or> (\<not> refresh \<and> ip \<in> retained) \<or> (oct0 ip, oct1 ip, oct2 ip) \<in> set seen
          then sweep_ips retained refresh seen is
          else show_ipv4 ip # sweep_ips retained refresh ((oct0 ip, oct1 ip, oct2 ip) # seen) is)"

definition select_sweep_ips :: "ip_info list \<Rightarrow> ipv4 set \<Rightarrow> bool \<Rightarrow> string list" where
  "select_sweep_ips ips retained refresh = sweep_ips retained refresh [] ips"

definition strip_pending_ips :: "interface_info list \<Rightarrow> string set \<Rightarrow> interface_info list" where
  "strip_pending_ips ifaces pending =
     map (\<lambda>i. i\<lparr>if_ips := filter (\<lambda>ip. ip_address ip \<notin> pending) (if_ips i)\<rparr>) ifaces"

definition keep_prohibited_history_inactive :: "device_registry \<Rightarrow> bool \<times> device_registry" where
  "keep_prohibited_history_inactive g =
     fold (\<lambda>r (changed, g).
        if (case parse_ipv4 (dr_ip r) of None \<Rightarrow> False | Some ip \<Rightarrow> prohibited_camera_ip ip)
        then (let (c, g') = set_status (dr_mac r) Offline g in (changed \<or> c, g')) else (changed, g))
       (snapshot g) (False, g)"

section \<open>Keys\<close>

text \<open>A key with host bits is accepted too.\<close>

lemma parse_subnet_key_host_bits: "parse_subnet_key ''169.254.1.7/24'' = Some (Ipv4 169 254 1 7)"
  by code_simp

end
