(* ===== verification/Presence.thy ===== *)
theory Presence
  imports Discovery_Policy Binding_Store
begin

text \<open>
  Presence verification, \<open>network/presence.rs\<close>, with the candidate queue of
  \<open>network/arp.rs\<close>: which adapter is observed (\<open>Control\<close>), what is probed next (\<open>Clock\<close>) and
  one probe (\<open>verify\<close>). The probe operations \<open>ProbeIo\<close> are a record of functions over a
  world; times are arguments.
\<close>

section \<open>Candidates\<close>

definition CANDIDATE_TTL :: instant where "CANDIDATE_TTL = 30000"
definition MAX_CANDIDATES :: nat where "MAX_CANDIDATES = 1024"

type_synonym candidate_key = "u32 \<times> mac_bytes \<times> ipv4 \<times> mac_bytes"
type_synonym candidate_set = "(candidate_key, instant) hashmap"

record candidate =
  ca_interface_index :: u32
  ca_adapter_mac :: mac_bytes
  ca_ip :: ipv4
  ca_mac :: mac_bytes
  ca_observed_at :: instant

definition prune_candidates :: "instant \<Rightarrow> candidate_set \<Rightarrow> candidate_set" where
  "prune_candidates now = hm_retain (\<lambda>_ seen. now - seen < CANDIDATE_TTL)"

definition candidate_snapshot :: "instant \<Rightarrow> candidate_set \<Rightarrow> candidate list \<times> candidate_set" where
  "candidate_snapshot now s =
     (let s' = prune_candidates now s
      in (map (\<lambda>((index, adapter, ip, mac), seen).
            \<lparr>ca_interface_index = index, ca_adapter_mac = adapter, ca_ip = ip, ca_mac = mac, ca_observed_at = seen\<rparr>) s', s'))"

definition candidate_count :: "instant \<Rightarrow> candidate_set \<Rightarrow> nat \<times> candidate_set" where
  "candidate_count now s = (let s' = prune_candidates now s in (length s', s'))"

definition bad_mac :: "mac_bytes \<Rightarrow> bool" where
  "bad_mac mac \<longleftrightarrow> mac = replicate 6 0 \<or> hd mac AND 1 \<noteq> 0"

definition candidate_rejection :: "u32 \<Rightarrow> mac_bytes \<Rightarrow> ipv4 \<Rightarrow> mac_bytes \<Rightarrow> sweep_fence \<Rightarrow> string option" where
  "candidate_rejection index adapter ip mac fence =
     (if is_stale fence then Some ''stale_fence''
      else if index = 0 then Some ''missing_index''
      else if prohibited_camera_ip ip then Some ''prohibited_ip''
      else if bad_mac mac then Some ''invalid_peer_mac''
      else if mac = adapter then Some ''own_mac''
      else if bad_mac adapter then Some ''invalid_adapter_mac''
      else None)"

fun oldest_candidate :: "candidate_set \<Rightarrow> candidate_key option" where
  "oldest_candidate [] = None"
| "oldest_candidate ((k, seen) # rest) =
     (case oldest_candidate rest of
        None \<Rightarrow> Some k
      | Some k' \<Rightarrow> if seen \<le> the (hm_get rest k') then Some k else Some k')"

definition candidate_observe ::
    "u32 \<Rightarrow> mac_bytes \<Rightarrow> ipv4 \<Rightarrow> mac_bytes \<Rightarrow> sweep_fence \<Rightarrow> instant \<Rightarrow> candidate_set \<Rightarrow> candidate_set" where
  "candidate_observe index adapter ip mac fence now s =
     (if candidate_rejection index adapter ip mac fence \<noteq> None then s
      else
        let s1 = prune_candidates now s; key = (index, adapter, ip, mac);
            s2 = (if MAX_CANDIDATES \<le> length s1 \<and> \<not> hm_contains key s1
                  then (case oldest_candidate s1 of Some k \<Rightarrow> hm_remove k s1 | None \<Rightarrow> s1) else s1)
        in hm_insert key now s2)"

section \<open>Control\<close>

definition DOWN_HOLD :: instant where "DOWN_HOLD = 2000"
definition ACTIVE_INTERVAL :: instant where "ACTIVE_INTERVAL = 5000"
definition INACTIVE_INTERVAL :: instant where "INACTIVE_INTERVAL = 60000"

record presence_state =
  ps_selection :: adapter_selection
  ps_mode :: network_mode
  ps_revision :: u64
  ps_expire_at :: "instant option"
  ps_ready_at :: "instant option"
  ps_epoch :: u64
  ps_active :: bool

definition presence_default :: presence_state where
  "presence_default = \<lparr>ps_selection = \<lparr>sel_mac = None, sel_adapter = None, sel_index = None, sel_required = False, sel_candidates = []\<rparr>,
     ps_mode = StaticAuto, ps_revision = 0, ps_expire_at = None, ps_ready_at = None, ps_epoch = 0, ps_active = True\<rparr>"

definition selection_up :: "adapter_selection \<Rightarrow> bool" where
  "selection_up s \<longleftrightarrow> (case sel_index s of None \<Rightarrow> False | Some i \<Rightarrow> i \<noteq> 0)
     \<and> (case sel_adapter s of None \<Rightarrow> False | Some a \<Rightarrow> if_is_up a \<and> canonical_mac (if_mac a) \<noteq> None)"

definition update_locked :: "instant \<Rightarrow> adapter_selection \<Rightarrow> network_mode \<Rightarrow> presence_state \<Rightarrow> bool \<times> presence_state" where
  "update_locked now sel mode s =
     (let old = ps_selection s;
          identity_changed = (sel_mac old \<noteq> sel_mac sel \<or> sel_index old \<noteq> sel_index sel);
          was_up = selection_up old; is_up = selection_up sel
      in if \<not> (identity_changed \<or> ps_mode s \<noteq> mode \<or> was_up \<noteq> is_up \<or> sel_adapter old \<noteq> sel_adapter sel) then (False, s)
         else
           let s1 = (if identity_changed \<or> ps_mode s \<noteq> mode \<or> was_up \<noteq> is_up then s\<lparr>ps_epoch := ps_epoch s + 1\<rparr> else s);
               s2 = (if (identity_changed \<and> sel_mac old \<noteq> None) \<or> (was_up \<and> \<not> is_up)
                     then s1\<lparr>ps_expire_at := Some (now + DOWN_HOLD),
                             ps_ready_at := (if is_up then Some (now + DOWN_HOLD) else None)\<rparr>
                     else if is_up \<and> \<not> was_up \<and> \<not> identity_changed
                     then s1\<lparr>ps_expire_at := None, ps_ready_at := None\<rparr> else s1)
           in (True, s2\<lparr>ps_selection := sel, ps_mode := mode, ps_revision := ps_revision s2 + 1\<rparr>))"

text \<open>The selection with the native link state \<open>read\<close> of the selected MAC.\<close>

definition with_link :: "(u32 \<times> bool) option \<Rightarrow> adapter_selection \<Rightarrow> adapter_selection" where
  "with_link link sel =
     (let (index, is_up) = (case link of Some l \<Rightarrow> l | None \<Rightarrow> (0, False))
      in sel\<lparr>sel_index := (if index \<noteq> 0 then Some index else None),
             sel_adapter := map_option (\<lambda>a. a\<lparr>if_is_up := is_up \<and> index \<noteq> 0\<rparr>) (sel_adapter sel)\<rparr>)"

definition update_native ::
    "instant \<Rightarrow> adapter_selection \<Rightarrow> network_mode \<Rightarrow> (string \<Rightarrow> (u32 \<times> bool) option) \<Rightarrow> presence_state \<Rightarrow> bool \<times> presence_state" where
  "update_native now sel mode read s =
     update_locked now (case sel_mac sel of Some mac \<Rightarrow> with_link (read mac) sel | None \<Rightarrow> sel) mode s"

text \<open>\<open>observe_link\<close> in two parts, with the native read in between: the selection and the revision
  that were read, then the commit, which a concurrent update wins.\<close>

definition observe_link_begin :: "presence_state \<Rightarrow> (adapter_selection \<times> u64) option" where
  "observe_link_begin s = (if sel_mac (ps_selection s) = None then None else Some (ps_selection s, ps_revision s))"

definition observe_link_commit ::
    "instant \<Rightarrow> adapter_selection \<times> u64 \<Rightarrow> (u32 \<times> bool) option \<Rightarrow> presence_state
      \<Rightarrow> adapter_selection option \<times> presence_state" where
  "observe_link_commit now = (\<lambda>(sel, revision) link s.
     if ps_revision s \<noteq> revision then (None, s)
     else
       let (changed, s') = update_locked now (with_link link sel) (ps_mode s) s
       in (if changed then Some (with_link link sel) else None, s'))"

definition bootstrap :: "presence_state \<Rightarrow> presence_state" where
  "bootstrap s = s\<lparr>ps_revision := ps_revision s + 1\<rparr>"

definition presence_stop :: "presence_state \<Rightarrow> presence_state" where
  "presence_stop s = s\<lparr>ps_active := False\<rparr>"

record presence_snapshot =
  pn_adapter :: "interface_info option"
  pn_index :: u32
  pn_mode :: network_mode
  pn_revision :: u64
  pn_epoch :: u64

definition presence_snapshot_of :: "instant \<Rightarrow> presence_state \<Rightarrow> presence_snapshot" where
  "presence_snapshot_of now s = \<lparr>
     pn_adapter = (if ps_active s \<and> selection_up (ps_selection s)
                      \<and> (case ps_ready_at s of None \<Rightarrow> True | Some t \<Rightarrow> t \<le> now)
                   then sel_adapter (ps_selection s) else None),
     pn_index = (case sel_index (ps_selection s) of Some i \<Rightarrow> i | None \<Rightarrow> 0),
     pn_mode = ps_mode s, pn_revision = ps_revision s, pn_epoch = ps_epoch s\<rparr>"

definition presence_tick :: "instant \<Rightarrow> presence_state \<times> device_registry \<Rightarrow> bool \<times> presence_state \<times> device_registry" where
  "presence_tick now = (\<lambda>(s, g).
     let expire = (case ps_expire_at s of Some t \<Rightarrow> t \<le> now | None \<Rightarrow> False);
         s' = (if expire then s\<lparr>ps_expire_at := None, ps_ready_at := None\<rparr> else s);
         g1 = set_verification_scope (map_option if_mac (pn_adapter (presence_snapshot_of now s'))) g;
         (c1, g2) = (if expire then expire_all g1 else (False, g1));
         (c2, g3) = expire_evidence now g2
     in (c1 \<or> c2, s', g3))"

section \<open>The clock\<close>

record presence_job =
  job_key :: "string option"
  job_ip :: ipv4
  job_source :: "ipv4 option"

record presence_clock =
  pc_revision :: "u64 option"
  pc_due :: "(string, instant) hashmap"
  pc_candidates :: "(u32 \<times> ipv4 \<times> mac_bytes, instant) hashmap"
  pc_candidate_turn :: bool
  pc_busy :: "ipv4 set"
  pc_foreign_busy :: bool

definition presence_clock_default :: presence_clock where
  "presence_clock_default = \<lparr>pc_revision = None, pc_due = [], pc_candidates = [], pc_candidate_turn = False,
     pc_busy = {}, pc_foreign_busy = False\<rparr>"

text \<open>\<open>Iterator::min_by_key\<close>: the first of the least elements.\<close>

fun min_by_key :: "('a \<Rightarrow> 'k :: linorder) \<Rightarrow> 'a list \<Rightarrow> 'a option" where
  "min_by_key f [] = None"
| "min_by_key f (x # xs) =
     (case min_by_key f xs of None \<Rightarrow> Some x | Some y \<Rightarrow> if f x \<le> f y then Some x else Some y)"

text \<open>\<open>Option\<close> is ordered with \<open>None\<close> first.\<close>

definition due_rank :: "instant option \<Rightarrow> nat" where
  "due_rank d = (case d of None \<Rightarrow> 0 | Some t \<Rightarrow> Suc t)"

definition job_eligible ::
    "'n ipnet_crate \<Rightarrow> interface_info \<Rightarrow> network_mode \<Rightarrow> presence_clock \<Rightarrow> ipv4 \<Rightarrow> bool" where
  "job_eligible net adapter mode c ip \<longleftrightarrow>
     (let source = select_wired_source net ip [] (if_ips adapter)
      in ip \<notin> pc_busy c \<and> \<not> (pc_foreign_busy c \<and> source = None) \<and> \<not> prohibited_camera_ip ip
         \<and> \<not> list_ex (\<lambda>i. ip_address i = show_ipv4 ip) (if_ips adapter)
         \<and> (source \<noteq> None \<or> mode = StaticAuto))"

definition record_due :: "instant \<Rightarrow> presence_clock \<Rightarrow> device_record \<Rightarrow> bool" where
  "record_due now c r =
     (case hm_get (pc_due c) (dr_mac r) of
        None \<Rightarrow> True
      | Some t \<Rightarrow> t \<le> now \<or> (dr_status r = Live \<and> now + ACTIVE_INTERVAL < t))"

definition refresh_clock ::
    "u64 \<Rightarrow> device_record list \<Rightarrow> candidate list \<Rightarrow> presence_clock \<Rightarrow> presence_clock" where
  "refresh_clock revision records cands c =
     (let c1 = (if pc_revision c \<noteq> Some revision then c\<lparr>pc_due := [], pc_candidates := [], pc_revision := Some revision\<rparr> else c)
      in c1\<lparr>pc_due := hm_retain (\<lambda>key _. list_ex (\<lambda>r. dr_mac r = key) records) (pc_due c1),
            pc_candidates := hm_retain (\<lambda>key _. list_ex (\<lambda>x. (ca_interface_index x, ca_ip x, ca_mac x) = key) cands) (pc_candidates c1)\<rparr>)"

definition clock_next ::
    "'n ipnet_crate \<Rightarrow> instant \<Rightarrow> presence_snapshot \<Rightarrow> bool \<Rightarrow> device_record list \<Rightarrow> candidate list \<Rightarrow> presence_clock
      \<Rightarrow> presence_job option \<times> presence_clock" where
  "clock_next net now snap stale records cands c =
     (case pn_adapter snap of
        None \<Rightarrow> (None, c)
      | Some adapter \<Rightarrow>
          if stale then (None, c)
          else
            let c1 = refresh_clock (pn_revision snap) records cands c;
                source = (\<lambda>ip. select_wired_source net ip [] (if_ips adapter));
                ok = job_eligible net adapter (pn_mode snap) c1;
                known = min_by_key (\<lambda>(r, _). due_rank (hm_get (pc_due c1) (dr_mac r)))
                  (List.map_filter (\<lambda>r. case parse_ipv4 (dr_ip r) of
                      None \<Rightarrow> None
                    | Some ip \<Rightarrow> if ok ip \<and> record_due now c1 r then Some (r, ip) else None) records);
                cand = List.find (\<lambda>x. ca_interface_index x = pn_index snap
                    \<and> parse_mac_bytes (if_mac adapter) = Some (ca_adapter_mac x) \<and> ok (ca_ip x)
                    \<and> hm_get (pc_candidates c1) (ca_interface_index x, ca_ip x, ca_mac x) \<noteq> Some (ca_observed_at x)) cands;
                c2 = c1\<lparr>pc_candidate_turn := \<not> pc_candidate_turn c1\<rparr>
            in case (cand, known) of
                 (Some x, None) \<Rightarrow>
                   (Some \<lparr>job_key = None, job_ip = ca_ip x, job_source = source (ca_ip x)\<rparr>,
                    c2\<lparr>pc_candidates := hm_insert (ca_interface_index x, ca_ip x, ca_mac x) (ca_observed_at x) (pc_candidates c2)\<rparr>)
               | (Some x, Some (r, ip)) \<Rightarrow>
                   if pc_candidate_turn c2
                   then (Some \<lparr>job_key = None, job_ip = ca_ip x, job_source = source (ca_ip x)\<rparr>,
                         c2\<lparr>pc_candidates := hm_insert (ca_interface_index x, ca_ip x, ca_mac x) (ca_observed_at x) (pc_candidates c2)\<rparr>)
                   else (Some \<lparr>job_key = Some (dr_mac r), job_ip = ip, job_source = source ip\<rparr>,
                         c2\<lparr>pc_due := hm_insert (dr_mac r)
                           (now + (if dr_status r = Live then ACTIVE_INTERVAL else INACTIVE_INTERVAL)) (pc_due c2)\<rparr>)
               | (None, Some (r, ip)) \<Rightarrow>
                   (Some \<lparr>job_key = Some (dr_mac r), job_ip = ip, job_source = source ip\<rparr>,
                    c2\<lparr>pc_due := hm_insert (dr_mac r)
                      (now + (if dr_status r = Live then ACTIVE_INTERVAL else INACTIVE_INTERVAL)) (pc_due c2)\<rparr>)
               | (None, None) \<Rightarrow> (None, c2))"

definition clock_verified :: "string \<Rightarrow> instant \<Rightarrow> presence_clock \<Rightarrow> presence_clock" where
  "clock_verified key now c = c\<lparr>pc_due := hm_insert key (now + ACTIVE_INTERVAL) (pc_due c)\<rparr>"

definition clock_started :: "presence_job \<Rightarrow> presence_clock \<Rightarrow> presence_clock" where
  "clock_started job c = c\<lparr>pc_busy := insert (job_ip job) (pc_busy c),
     pc_foreign_busy := (if job_source job = None then True else pc_foreign_busy c)\<rparr>"

definition clock_finished :: "presence_job \<Rightarrow> presence_clock \<Rightarrow> presence_clock" where
  "clock_finished job c = c\<lparr>pc_busy := pc_busy c - {job_ip job},
     pc_foreign_busy := (if job_source job = None then False else pc_foreign_busy c)\<rparr>"

section \<open>One verification\<close>

text \<open>\<open>pr_stale\<close> stands for the fence of the snapshot, read in the current world.\<close>

record 'w probe_io =
  pr_index :: u32
  pr_bind_scratch :: "string \<Rightarrow> ipv4 \<Rightarrow> 'w \<Rightarrow> bool \<times> 'w"
  pr_release_scratch :: "string \<Rightarrow> ipv4 \<Rightarrow> 'w \<Rightarrow> 'w"
  pr_resolve :: "ipv4 \<Rightarrow> ipv4 \<Rightarrow> u32 \<Rightarrow> 'w \<Rightarrow> (unit + string option) \<times> 'w"
  pr_adopt_prepared :: "string \<Rightarrow> ipv4 \<Rightarrow> string \<Rightarrow> ipv4 \<Rightarrow> 'w \<Rightarrow> bool \<times> 'w"
  pr_shutdown :: "'w \<Rightarrow> bool"
  pr_stale :: "'w \<Rightarrow> bool"
  pr_now :: "'w \<Rightarrow> instant"
  pr_wall :: "'w \<Rightarrow> string"

record presence_proof =
  pp_ip :: ipv4
  pp_mac :: string
  pp_at :: instant
  pp_wall :: string

datatype scratch_call = BindScratch ipv4 bool | ReleaseScratch ipv4 | AdoptPrepared ipv4 bool

definition probe_result :: "'w probe_io \<Rightarrow> ipv4 \<Rightarrow> ipv4 \<Rightarrow> u32 \<Rightarrow> 'w \<Rightarrow> string option \<times> 'w" where
  "probe_result pio ip source index w =
     (if pr_shutdown pio w \<or> pr_stale pio w then (None, w)
      else (case pr_resolve pio ip source index w of (Inr r, w') \<Rightarrow> (r, w') | (Inl _, w') \<Rightarrow> (None, w')))"

text \<open>The probe with the scratch calls it made, in order.\<close>

definition verify_presence ::
    "'w probe_io \<Rightarrow> presence_job \<Rightarrow> u32 \<Rightarrow> network_mode \<Rightarrow> 'w \<Rightarrow> (presence_proof option \<times> scratch_call list) \<times> 'w" where
  "verify_presence pio job index mode w0 =
     (if pr_shutdown pio w0 \<or> pr_stale pio w0 \<or> pr_index pio \<noteq> index then ((None, []), w0)
      else
        let foreign = (job_source job = None) in
        if foreign \<and> mode \<noteq> StaticAuto then ((None, []), w0)
        else
          let subnet = subnet_key_for (job_ip job);
              source = (case job_source job of Some s \<Rightarrow> s | None \<Rightarrow> pick_scratch (job_ip job) [job_ip job]);
              (bound, w1) = (if foreign then pr_bind_scratch pio subnet source w0 else (True, w0));
              calls = (if foreign then [BindScratch source bound] else [])
          in if foreign \<and> \<not> bound then ((None, calls), w1)
             else
               let (result, w2) = probe_result pio (job_ip job) source index w1;
                   at = pr_now pio w2; wall = pr_wall pio w2;
                   mac = Option.bind result canonical_mac
               in if pr_shutdown pio w2 \<or> pr_stale pio w2 \<or> mac = None
                  then (if foreign then ((None, calls @ [ReleaseScratch source]), pr_release_scratch pio subnet source w2)
                        else ((None, calls), w2))
                  else
                    let (adopted, w3) = (if foreign then pr_adopt_prepared pio subnet (job_ip job) (the mac) source w2 else (True, w2));
                        calls = (if foreign then calls @ [AdoptPrepared source adopted] else calls)
                    in if foreign \<and> \<not> adopted then ((None, calls), w3)
                       else if pr_shutdown pio w3 \<or> pr_stale pio w3 \<or> FRESHNESS \<le> pr_now pio w3 - at
                       then ((None, calls), w3)
                       else ((Some \<lparr>pp_ip = job_ip job, pp_mac = the mac, pp_at = at, pp_wall = wall\<rparr>, calls), w3))"

section \<open>The candidate queue is bounded\<close>

definition candidate_valid :: "candidate_key \<Rightarrow> bool" where
  "candidate_valid k = (case k of (index, adapter, ip, mac) \<Rightarrow>
     index \<noteq> 0 \<and> \<not> prohibited_camera_ip ip \<and> \<not> bad_mac mac \<and> mac \<noteq> adapter \<and> \<not> bad_mac adapter)"

definition candidates_inv :: "candidate_set \<Rightarrow> bool" where
  "candidates_inv s \<longleftrightarrow> hm_wf s \<and> length s \<le> MAX_CANDIDATES \<and> (\<forall>k. hm_contains k s \<longrightarrow> candidate_valid k)"

datatype candidate_event =
    CeObserve u32 mac_bytes ipv4 mac_bytes sweep_fence instant | CeSnapshot instant | CeCount instant | CeClear

fun candidate_step :: "candidate_event \<Rightarrow> candidate_set \<Rightarrow> candidate_set" where
  "candidate_step (CeObserve index adapter ip mac fence now) s = candidate_observe index adapter ip mac fence now s"
| "candidate_step (CeSnapshot now) s = snd (candidate_snapshot now s)"
| "candidate_step (CeCount now) s = snd (candidate_count now s)"
| "candidate_step CeClear s = []"

lemma oldest_candidate_mem: "oldest_candidate s = Some k \<Longrightarrow> k \<in> fst ` set s"
  by (induction s rule: oldest_candidate.induct) (auto split: option.splits if_splits)

lemma oldest_candidate_Some:
  assumes "s \<noteq> []"
  shows "\<exists>k. oldest_candidate s = Some k \<and> hm_contains k s"
proof -
  have "oldest_candidate s \<noteq> None" using assms by (cases s rule: oldest_candidate.cases) (auto split: option.splits)
  then show ?thesis using oldest_candidate_mem by (auto simp: hm_contains_set)
qed

lemma prune_candidates_inv: "candidates_inv s \<Longrightarrow> candidates_inv (prune_candidates now s)"
  unfolding candidates_inv_def prune_candidates_def hm_contains_def
  using hm_length_retain [of "\<lambda>_ seen. now - seen < CANDIDATE_TTL" s]
  by (auto simp: hm_simps wf_intros split: option.splits if_splits)

lemma candidate_observe_inv:
  assumes "candidates_inv s"
  shows "candidates_inv (candidate_observe index adapter ip mac fence now s)"
proof (cases "candidate_rejection index adapter ip mac fence")
  case (Some r)
  with assms show ?thesis by (simp add: candidate_observe_def)
next
  case None
  then have valid: "candidate_valid (index, adapter, ip, mac)"
    by (auto simp: candidate_rejection_def candidate_valid_def split: if_splits)
  let ?s1 = "prune_candidates now s" and ?key = "(index, adapter, ip, mac)"
  have inv: "candidates_inv ?s1" using assms by (rule prune_candidates_inv)
  define s2 where "s2 = (if MAX_CANDIDATES \<le> length ?s1 \<and> \<not> hm_contains ?key ?s1
      then (case oldest_candidate ?s1 of Some k \<Rightarrow> hm_remove k ?s1 | None \<Rightarrow> ?s1) else ?s1)"
  have "hm_wf s2" "length (hm_insert ?key now s2) \<le> MAX_CANDIDATES" "\<forall>k. hm_contains k s2 \<longrightarrow> candidate_valid k"
  proof -
    show "hm_wf s2" "\<forall>k. hm_contains k s2 \<longrightarrow> candidate_valid k"
      using inv by (auto simp: s2_def candidates_inv_def wf_intros hm_contains_def hm_simps split: option.splits)
    show "length (hm_insert ?key now s2) \<le> MAX_CANDIDATES"
    proof (cases "MAX_CANDIDATES \<le> length ?s1 \<and> \<not> hm_contains ?key ?s1")
      case True
      then have "?s1 \<noteq> []" by (auto simp: MAX_CANDIDATES_def)
      from oldest_candidate_Some [OF this] obtain k where "oldest_candidate ?s1 = Some k" "hm_contains k ?s1" by blast
      with True inv show ?thesis
        by (auto simp: s2_def hm_length_insert hm_length_remove candidates_inv_def MAX_CANDIDATES_def)
    next
      case False
      with inv show ?thesis by (auto simp: s2_def hm_length_insert candidates_inv_def)
    qed
  qed
  moreover have "candidate_observe index adapter ip mac fence now s = hm_insert ?key now s2"
    using None by (simp add: candidate_observe_def s2_def Let_def)
  ultimately show ?thesis
    using valid
    by (auto simp: candidates_inv_def wf_intros hm_contains_def hm_simps simp del: split_paired_All split_paired_Ex
        split: if_splits)
qed

interpretation candidates: guarded_machine "\<lambda>s. s = []" candidate_step candidates_inv
proof
  fix e and s :: candidate_set
  assume "candidates_inv s"
  then show "candidates_inv (candidate_step e s)"
    by (cases e) (auto simp: candidate_observe_inv candidate_snapshot_def candidate_count_def Let_def prune_candidates_inv
        candidates_inv_def [of "[]"] hm_contains_def)
qed (simp add: candidates_inv_def hm_contains_def)

section \<open>Running probes\<close>

text \<open>The loop of \<open>start_presence\<close>: it starts the next job while fewer than three run, and reports
  the end of one that runs.\<close>

datatype 'n presence_event =
    PeSpawn instant presence_snapshot bool "device_record list" "candidate list" "'n ipnet_crate"
  | PeFinish nat | PeVerified string instant

fun presence_step :: "'n presence_event \<Rightarrow> presence_job list \<times> presence_clock \<Rightarrow> presence_job list \<times> presence_clock" where
  "presence_step (PeSpawn now snap stale records cands net) (jobs, c) =
     (if length jobs < 3
      then (case clock_next net now snap stale records cands c of
              (None, c') \<Rightarrow> (jobs, c')
            | (Some job, c') \<Rightarrow> (jobs @ [job], clock_started job c'))
      else (jobs, c))"
| "presence_step (PeFinish i) (jobs, c) =
     (if i < length jobs then (take i jobs @ drop (Suc i) jobs, clock_finished (jobs ! i) c) else (jobs, c))"
| "presence_step (PeVerified key now) (jobs, c) = (jobs, clock_verified key now c)"

definition foreign_jobs :: "presence_job list \<Rightarrow> presence_job list" where
  "foreign_jobs = filter (\<lambda>j. job_source j = None)"

definition jobs_inv :: "presence_job list \<times> presence_clock \<Rightarrow> bool" where
  "jobs_inv = (\<lambda>(jobs, c). length jobs \<le> 3 \<and> distinct (map job_ip jobs) \<and> pc_busy c = set (map job_ip jobs)
     \<and> length (foreign_jobs jobs) = (if pc_foreign_busy c then 1 else 0))"

lemma refresh_clock_busy [simp]:
  "pc_busy (refresh_clock revision records cands c) = pc_busy c"
  "pc_foreign_busy (refresh_clock revision records cands c) = pc_foreign_busy c"
  by (simp_all add: refresh_clock_def Let_def)

lemma min_by_key_mem: "min_by_key f xs = Some x \<Longrightarrow> x \<in> set xs"
  by (induction xs arbitrary: x) (auto split: option.splits if_splits)

lemma map_filter_mem: "y \<in> set (List.map_filter f xs) \<longleftrightarrow> (\<exists>x\<in>set xs. f x = Some y)"
  by (induction xs) (auto simp: List.map_filter_simps split: option.splits)

text \<open>What the clock hands out is eligible.\<close>

lemma clock_next_eligible:
  assumes "clock_next net now snap stale records cands c = (Some job, c')"
  shows "\<exists>adapter. pn_adapter snap = Some adapter \<and> \<not> stale
    \<and> job_eligible net adapter (pn_mode snap) (refresh_clock (pn_revision snap) records cands c) (job_ip job)
    \<and> job_source job = select_wired_source net (job_ip job) [] (if_ips adapter)
    \<and> pc_busy c' = pc_busy c \<and> pc_foreign_busy c' = pc_foreign_busy c"
proof -
  obtain adapter where a: "pn_adapter snap = Some adapter" and st: "\<not> stale"
    using assms by (auto simp: clock_next_def split: option.splits if_splits)
  let ?c1 = "refresh_clock (pn_revision snap) records cands c"
  let ?ok = "job_eligible net adapter (pn_mode snap) ?c1"
  define known where "known = min_by_key (\<lambda>(r, _). due_rank (hm_get (pc_due ?c1) (dr_mac r)))
      (List.map_filter (\<lambda>r. case parse_ipv4 (dr_ip r) of None \<Rightarrow> None
         | Some ip \<Rightarrow> if ?ok ip \<and> record_due now ?c1 r then Some (r, ip) else None) records)"
  define cand where "cand = List.find (\<lambda>x. ca_interface_index x = pn_index snap
      \<and> parse_mac_bytes (if_mac adapter) = Some (ca_adapter_mac x) \<and> ?ok (ca_ip x)
      \<and> hm_get (pc_candidates ?c1) (ca_interface_index x, ca_ip x, ca_mac x) \<noteq> Some (ca_observed_at x)) cands"
  have known: "?ok ip" if "known = Some (r, ip)" for r ip
    using min_by_key_mem [OF that [unfolded known_def]]
    by (auto simp: map_filter_mem split: option.splits if_splits)
  have cand: "?ok (ca_ip x)" if "cand = Some x" for x
    using find_SomeD [OF that [unfolded cand_def]] by simp
  show ?thesis
    using assms st known cand
    by (auto simp: clock_next_def a Let_def known_def [symmetric] cand_def [symmetric] split: option.splits if_splits)
qed

lemma clock_next_none:
  "clock_next net now snap stale records cands c = (None, c') \<Longrightarrow>
     pc_busy c' = pc_busy c \<and> pc_foreign_busy c' = pc_foreign_busy c"
  by (auto simp: clock_next_def Let_def split: option.splits if_splits)

lemma foreign_take_drop:
  "i < length jobs \<Longrightarrow> length (foreign_jobs (take i jobs @ drop (Suc i) jobs))
     = length (foreign_jobs jobs) - (if job_source (jobs ! i) = None then 1 else 0)"
  by (subst (3) id_take_nth_drop [of i jobs]) (auto simp: foreign_jobs_def)

interpretation presence_jobs: guarded_machine "\<lambda>s. s = ([], presence_clock_default)" presence_step jobs_inv
proof
  fix e and s :: "presence_job list \<times> presence_clock"
  assume inv: "jobs_inv s"
  obtain jobs c where s: "s = (jobs, c)" by (cases s)
  show "jobs_inv (presence_step e s)"
  proof (cases e)
    case (PeSpawn now snap stale records cands net)
    show ?thesis
    proof (cases "clock_next net now snap stale records cands c")
      case (Pair job c')
      show ?thesis
      proof (cases job)
        case None
        with inv Pair show ?thesis by (auto simp: s PeSpawn jobs_inv_def dest: clock_next_none)
      next
        case (Some j)
        from clock_next_eligible [OF Pair [unfolded Some]] inv show ?thesis
          by (auto simp: s PeSpawn Pair Some jobs_inv_def job_eligible_def clock_started_def foreign_jobs_def Let_def)
      qed
    qed
  next
    case (PeFinish i)
    show ?thesis
    proof (cases "i < length jobs")
      case True
      have parts: "jobs = take i jobs @ jobs ! i # drop (Suc i) jobs" by (rule id_take_nth_drop [OF True])
      have "distinct (map job_ip jobs)" using inv by (simp add: s jobs_inv_def)
      then have dist: "distinct (map job_ip (take i jobs @ jobs ! i # drop (Suc i) jobs))" by (subst (asm) parts)
      have "set (map job_ip jobs) = insert (job_ip (jobs ! i)) (set (map job_ip (take i jobs @ drop (Suc i) jobs)))"
        by (subst parts) auto
      then have busy: "pc_busy c - {job_ip (jobs ! i)} = set (map job_ip (take i jobs @ drop (Suc i) jobs))"
        using inv dist by (auto simp: s jobs_inv_def)
      have "length (take i jobs @ drop (Suc i) jobs) \<le> 3" "distinct (map job_ip (take i jobs @ drop (Suc i) jobs))"
        using inv dist True by (auto simp: s jobs_inv_def)
      moreover have "length (foreign_jobs (take i jobs @ drop (Suc i) jobs))
          = (if pc_foreign_busy (clock_finished (jobs ! i) c) then 1 else 0)"
        using inv foreign_take_drop [OF True] by (simp add: s jobs_inv_def clock_finished_def)
      moreover have "pc_busy (clock_finished (jobs ! i) c) = pc_busy c - {job_ip (jobs ! i)}"
        by (simp add: clock_finished_def)
      ultimately show ?thesis
        unfolding s PeFinish presence_step.simps using True busy by (simp only: jobs_inv_def if_True prod.case simp_thms)
    next
      case False
      with inv show ?thesis by (simp add: s PeFinish)
    qed
  next
    case (PeVerified key now)
    with inv show ?thesis by (simp add: s jobs_inv_def clock_verified_def)
  qed
qed (simp add: jobs_inv_def presence_clock_default_def foreign_jobs_def)

section \<open>Expiry\<close>

lemma expire_all_not_live: "hm_get (rg_devices (snd (expire_all g))) k = Some r \<Longrightarrow> dr_status r \<noteq> Live"
proof (rule ccontr)
  assume get: "hm_get (rg_devices (snd (expire_all g))) k = Some r" and "\<not> dr_status r \<noteq> Live"
  then have "dr_status (r\<lparr>dr_status := Offline\<rparr>) \<noteq> dr_status r" by simp
  then have "r\<lparr>dr_status := Offline\<rparr> \<noteq> r" by metis
  with get \<open>\<not> dr_status r \<noteq> Live\<close> show False
    by (auto simp: expire_all_def hm_simps change_status_def split: if_splits)
qed

lemma expire_evidence_not_live:
  assumes "\<And>k r. hm_get (rg_devices g) k = Some r \<Longrightarrow> dr_status r \<noteq> Live"
  shows "hm_get (rg_devices (snd (expire_evidence now g))) k = Some r \<Longrightarrow> dr_status r \<noteq> Live"
  using assms by (auto simp: expire_evidence_def Let_def hm_simps evidence_gone_def change_status_def split: if_splits)

lemma expire_scope [simp]:
  "rg_scope (snd (expire_all g)) = rg_scope g" "rg_scope (snd (expire_evidence now g)) = rg_scope g"
  by (simp_all add: expire_all_def expire_evidence_def Let_def)

lemma tick_after_loss:
  assumes "ps_expire_at s = Some t" "t \<le> now" "\<not> selection_up (ps_selection s)" "presence_tick now (s, g) = (c, s2, g2)"
  shows "hm_get (rg_devices g2) k = Some r \<Longrightarrow> dr_status r \<noteq> Live" "rg_scope g2 = Some None"
proof -
  let ?g1 = "set_verification_scope None g"
  have g2: "g2 = snd (expire_evidence now (snd (expire_all ?g1)))"
    using assms by (auto simp: presence_tick_def presence_snapshot_of_def Let_def split: prod.splits)
  show "dr_status r \<noteq> Live" if "hm_get (rg_devices g2) k = Some r"
    by (rule expire_evidence_not_live [where g = "snd (expire_all ?g1)"])
      (use that expire_all_not_live in \<open>auto simp: g2\<close>)
  show "rg_scope g2 = Some None" by (simp add: g2 set_verification_scope_def)
qed

lemma probe_result_found:
  "probe_result pio ip source index w = (Some mac, w') \<Longrightarrow> \<exists>v. pr_resolve pio ip source index w = (Inr (Some mac), v)"
  by (auto simp: probe_result_def split: if_splits prod.splits sum.splits)

section \<open>Properties\<close>

text \<open>the candidate queue never holds more than 1024 entries, whatever is captured, and every
  entry names a usable interface, a camera address that is not prohibited, and a unicast peer other
  than the adapter itself.\<close>

theorem candidates_bounded:
  "let s = fold candidate_step es [] in
     length s \<le> 1024 \<and> (\<forall>(k, t)\<in>set s. candidate_valid k) \<and> length (fst (candidate_snapshot now s)) \<le> 1024"
proof -
  define s where "s = fold candidate_step es []"
  have inv: "candidates_inv s" unfolding s_def by (rule candidates.reach_inv) simp
  have "length (prune_candidates now s) \<le> 1024"
    using prune_candidates_inv [OF inv] by (simp add: candidates_inv_def MAX_CANDIDATES_def)
  moreover have "candidate_valid k" if "(k, t) \<in> set s" for k t
    using inv that hm_contains_set [of k s] by (force simp: candidates_inv_def simp del: split_paired_All)
  ultimately show ?thesis
    using inv by (auto simp: s_def [symmetric] Let_def candidates_inv_def MAX_CANDIDATES_def candidate_snapshot_def)
qed

theorem candidates_bounded_witness:
  "length (fold candidate_step [CeObserve 3 [2,0,0,0,0,1] (Ipv4 10 0 0 9) [2,0,0,0,0,2]
     \<lparr>sf_generation = 1, sf_current = 1, sf_active = True\<rparr> 5] []) \<le> 1024"
  using candidates_bounded [where es = "[CeObserve 3 [2,0,0,0,0,1] (Ipv4 10 0 0 9) [2,0,0,0,0,2]
     \<lparr>sf_generation = 1, sf_current = 1, sf_active = True\<rparr> 5]"] by (simp add: Let_def)

text \<open>C35: presence probing is bounded and never doubles up: in every run of its loop at most three
  probes run, no two on the same address, and at most one that needs a temporary address.\<close>

theorem presence_jobs_bounded:
  "let (jobs, c) = fold presence_step es ([], presence_clock_default) in
     length jobs \<le> 3 \<and> distinct (map job_ip jobs) \<and> length (foreign_jobs jobs) \<le> 1"
  using presence_jobs.reach_inv [of "([], presence_clock_default)" es]
  by (auto simp: jobs_inv_def split: prod.splits if_splits)

text \<open>C34: a probe leaves no temporary address behind and proves what it says: every scratch that
  was bound is released or handed to an adoption exactly once, and a proof is returned only for an
  identity that the probed address answered with, while the work is current, within the freshness
  window, and for a foreign subnet only in the static automatic mode after its adoption.\<close>

theorem probe_is_sound:
  assumes "verify_presence pio job index mode w = ((r, calls), w')"
  shows "(job_source job \<noteq> None \<longrightarrow> calls = [])
    \<and> (job_source job = None \<longrightarrow> (let s = pick_scratch (job_ip job) [job_ip job] in
         calls \<in> {[], [BindScratch s False], [BindScratch s True, ReleaseScratch s],
                  [BindScratch s True, AdoptPrepared s True], [BindScratch s True, AdoptPrepared s False]}))
    \<and> (\<forall>p. r = Some p \<longrightarrow> pp_ip p = job_ip job
         \<and> (\<exists>source mac u v. pr_resolve pio (job_ip job) source index u = (Inr (Some mac), v) \<and> canonical_mac mac = Some (pp_mac p))
         \<and> \<not> pr_stale pio w' \<and> \<not> pr_shutdown pio w' \<and> pr_now pio w' - pp_at p < FRESHNESS
         \<and> (job_source job = None \<longrightarrow> mode = StaticAuto
              \<and> calls = [BindScratch (pick_scratch (job_ip job) [job_ip job]) True,
                         AdoptPrepared (pick_scratch (job_ip job) [job_ip job]) True]))"
proof (cases "job_source job")
  case (Some src)
  obtain res w2 where res: "probe_result pio (job_ip job) src index w = (res, w2)" by (cases "probe_result pio (job_ip job) src index w")
  show ?thesis
  proof (cases "Option.bind res canonical_mac")
    case None
    with assms show ?thesis by (simp add: verify_presence_def Some res Let_def split: if_splits)
  next
    case mac: (Some m)
    then obtain m0 where "res = Some m0" "canonical_mac m0 = Some m" by (auto simp: bind_eq_Some_conv)
    moreover from this res obtain v where "pr_resolve pio (job_ip job) src index w = (Inr (Some m0), v)"
      using probe_result_found [of pio "job_ip job" src index w m0 w2] by auto
    ultimately have "\<exists>source mac u v. pr_resolve pio (job_ip job) source index u = (Inr (Some mac), v) \<and> canonical_mac mac = Some m"
      by blast
    with assms mac show ?thesis by (simp add: verify_presence_def Some res Let_def split: if_splits; auto; blast)
  qed
next
  case None
  let ?s = "pick_scratch (job_ip job) [job_ip job]"
  obtain b w1 where b: "pr_bind_scratch pio (subnet_key_for (job_ip job)) ?s w = (b, w1)"
    by (cases "pr_bind_scratch pio (subnet_key_for (job_ip job)) ?s w")
  obtain res w2 where res: "probe_result pio (job_ip job) ?s index w1 = (res, w2)" by (cases "probe_result pio (job_ip job) ?s index w1")
  obtain a w3 where a: "pr_adopt_prepared pio (subnet_key_for (job_ip job)) (job_ip job) (the (Option.bind res canonical_mac)) ?s w2 = (a, w3)"
    by (cases "pr_adopt_prepared pio (subnet_key_for (job_ip job)) (job_ip job) (the (Option.bind res canonical_mac)) ?s w2")
  show ?thesis
  proof (cases "Option.bind res canonical_mac")
    case mac: None
    with assms show ?thesis by (simp add: verify_presence_def None b res Let_def split: if_splits)
  next
    case mac: (Some m)
    then obtain m0 where "res = Some m0" "canonical_mac m0 = Some m" by (auto simp: bind_eq_Some_conv)
    moreover from this res obtain v where "pr_resolve pio (job_ip job) ?s index w1 = (Inr (Some m0), v)"
      using probe_result_found [of pio "job_ip job" ?s index w1 m0 w2] by auto
    ultimately have "\<exists>source mac u v. pr_resolve pio (job_ip job) source index u = (Inr (Some mac), v) \<and> canonical_mac mac = Some m"
      by blast
    moreover have "(r, calls) \<in> {(None, []), (None, [BindScratch ?s False]), (None, [BindScratch ?s True, ReleaseScratch ?s]),
          (None, [BindScratch ?s True, AdoptPrepared ?s a])}
        \<or> r = Some \<lparr>pp_ip = job_ip job, pp_mac = m, pp_at = pr_now pio w2, pp_wall = pr_wall pio w2\<rparr>
          \<and> calls = [BindScratch ?s True, AdoptPrepared ?s True] \<and> mode = StaticAuto \<and> \<not> pr_stale pio w'
          \<and> \<not> pr_shutdown pio w' \<and> pr_now pio w' - pr_now pio w2 < FRESHNESS"
      using assms mac a by (simp add: verify_presence_def None b res Let_def split: if_splits)
    ultimately show ?thesis using None by (cases a; auto simp: Let_def; blast)
  qed
qed

definition demo_probe :: "nat probe_io" where
  "demo_probe = \<lparr>pr_index = 7, pr_bind_scratch = (\<lambda>_ _ w. (True, w + 1)), pr_release_scratch = (\<lambda>_ _ w. w + 1),
     pr_resolve = (\<lambda>_ _ _ w. (Inr (Some ''AA-BB-CC-DD-EE-01''), w + 1)), pr_adopt_prepared = (\<lambda>_ _ _ _ w. (True, w + 1)),
     pr_shutdown = (\<lambda>_. False), pr_stale = (\<lambda>_. False), pr_now = (\<lambda>w. w), pr_wall = (\<lambda>_. ''noon'')\<rparr>"

theorem probe_is_sound_witness:
  "\<exists>p calls w'. verify_presence demo_probe \<lparr>job_key = None, job_ip = Ipv4 10 0 0 9, job_source = None\<rparr> 7 StaticAuto 0 = ((Some p, calls), w')
     \<and> pp_ip p = Ipv4 10 0 0 9 \<and> length calls = 2"
proof -
  let ?v = "verify_presence demo_probe \<lparr>job_key = None, job_ip = Ipv4 10 0 0 9, job_source = None\<rparr> 7 StaticAuto 0"
  have "fst (fst ?v) \<noteq> None" by code_simp
  then obtain p calls w' where v: "?v = ((Some p, calls), w')" by (cases ?v) auto
  from probe_is_sound [OF v] show ?thesis using v by auto
qed


definition demo_link :: "bool \<Rightarrow> adapter_selection" where
  "demo_link up = \<lparr>sel_mac = Some ''aa:bb:cc:dd:ee:02'', sel_adapter = Some (demo_iface\<lparr>if_is_up := up\<rparr>), sel_index = Some 4,
     sel_required = False, sel_candidates = []\<rparr>"


end
