(* ===== verification/Camera_Readiness.thy ===== *)
theory Camera_Readiness
  imports Presence
begin

text \<open>
  The camera path: \<open>network/readiness.rs\<close>, \<open>probe_scope\<close> of \<open>network/adapter_selector.rs\<close>
  and the source policy of \<open>streaming/source.rs\<close>. This is where presence, the device
  registry, the selected adapter and the native addresses meet: a stream or a pan-tilt command
  reaches a camera only over the path computed here. Every native read the code makes is an
  argument of its own, since the network may change between two of them.
\<close>

section \<open>Native reads of one request\<close>

text \<open>The instants of the tick and of the snapshot, the fence when it is read first and last
  (epoch and activity), the three native enumerations, the pending addresses (none when the
  lock is taken) and the route lookup.\<close>

record camera_reads =
  cr_tick :: instant
  cr_snapshot :: instant
  cr_fence_probe :: "u64 \<times> bool"
  cr_index_read :: "native_adapter list"
  cr_status_read :: "native_adapter list"
  cr_pending :: "ipv4 list option"
  cr_egress :: "ipv4 \<Rightarrow> u32 option"
  cr_source_read :: "native_adapter list"
  cr_fence_end :: "u64 \<times> bool"

definition fence_at :: "u64 \<Rightarrow> u64 \<times> bool \<Rightarrow> sweep_fence" where
  "fence_at epoch now = \<lparr>sf_generation = epoch, sf_current = fst now, sf_active = snd now\<rparr>"

definition probe_scope :: "camera_reads \<Rightarrow> presence_state \<Rightarrow> (interface_info \<times> u32 \<times> u64) option" where
  "probe_scope rd s =
     (let snap = presence_snapshot_of (cr_snapshot rd) s in
      Option.bind (pn_adapter snap) (\<lambda>adapter.
      if is_stale (fence_at (pn_epoch snap) (cr_fence_probe rd)) then None
      else Option.bind (index_for_mac (cr_index_read rd) (if_mac adapter)) (\<lambda>index.
      if index \<noteq> pn_index snap then None
      else Option.bind (quick_status_by_mac (cr_status_read rd) (if_mac adapter)) (\<lambda>(up, ips).
      if \<not> up then None
      else Option.bind (cr_pending rd) (\<lambda>pending.
      Some (adapter\<lparr>if_ips := filter (\<lambda>ip. \<not> list_ex (\<lambda>p. show_ipv4 p = ip_address ip) pending) ips\<rparr>,
            pn_index snap, pn_epoch snap))))))"

definition source_matches_interface :: "native_adapter list \<Rightarrow> u32 \<Rightarrow> ipv4 \<Rightarrow> bool" where
  "source_matches_interface all index source =
     source_matches_index index source
       (concat (map (\<lambda>a. List.map_filter (\<lambda>ip. map_option (Pair (na_index a)) (parse_ipv4 (ip_address ip))) (na_ips a)) all))"

section \<open>The path\<close>

record ready_path =
  rp_target :: camera_target
  rp_source :: ipv4
  rp_index :: u32
  rp_epoch :: u64

text \<open>A legacy manual key follows the identity its pin was first verified with.\<close>

definition follow_manual_key :: "manual_node list \<Rightarrow> camera_target \<Rightarrow> camera_target result" where
  "follow_manual_key nodes target =
     (if starts_with ''manual:'' (ct_key target)
      then (case Option.bind (List.find (\<lambda>n. manual_node_key n = ct_key target \<or> ''manual:'' @ mn_ip n = ct_key target) nodes)
                   mn_expected_mac of
              None \<Rightarrow> Inr target
            | Some expected \<Rightarrow>
                if (case ct_expected_mac target of Some m \<Rightarrow> \<not> eq_ignore_ascii_case m expected | None \<Rightarrow> False)
                then Inl (Network ''Manual expected identity changed'')
                else Inr (target\<lparr>ct_key := expected, ct_expected_mac := Some expected\<rparr>))
      else Inr target)"

definition camera_path_now ::
    "'n ipnet_crate \<Rightarrow> camera_reads \<Rightarrow> manual_node list \<Rightarrow> bool \<Rightarrow> camera_target \<Rightarrow> presence_state \<times> device_registry
      \<Rightarrow> ready_path result \<times> bool \<times> presence_state \<times> device_registry" where
  "camera_path_now net rd nodes bound target = (\<lambda>(s, g).
     let (changed, s', g') = presence_tick (cr_tick rd) (s, g)
     in (res_bind (follow_manual_key nodes target) (\<lambda>target.
         res_bind (ok_or (Network ''Selected Ethernet adapter unavailable'') (probe_scope rd s')) (\<lambda>(adapter, index, epoch).
         res_bind (parse_camera_ip (ct_ip target)) (\<lambda>ip.
         res_bind (if bound then check_bound_ready net target (Some adapter) index (snapshot g')
                   else check_ready net target (Some adapter) index (snapshot g') (cr_egress rd ip)) (\<lambda>source.
         if \<not> source_matches_interface (cr_source_read rd) index source
         then Inl (Network ''Ethernet source address is absent or ambiguous'')
         else if is_stale (fence_at epoch (cr_fence_end rd)) then Inl (Network ''Ethernet adapter changed'')
         else Inr \<lparr>rp_target = target, rp_source = source, rp_index = index, rp_epoch = epoch\<rparr>)))),
         changed, s', g'))"

section \<open>The media source\<close>

definition stream_target :: "stream_config \<Rightarrow> camera_target option" where
  "stream_target c =
     (if sc_protocol c = InputRtsp
      then Some \<lparr>ct_key = (case sc_camera_mac c of Some m \<Rightarrow> m | None \<Rightarrow> ''manual:'' @ sc_camera_ip c),
                 ct_expected_mac = sc_camera_mac c, ct_ip = sc_camera_ip c\<rparr>
      else None)"

definition require_cam_role :: "camera_target \<Rightarrow> device_record list \<Rightarrow> unit result" where
  "require_cam_role target records =
     (case filter (\<lambda>r. dr_alias r = ''CAM'') records of
        [r] \<Rightarrow> if eq_ignore_ascii_case (dr_mac r) (ct_key target) \<and> dr_ip r = ct_ip target then Inr ()
               else Inl (Stream ''Assign this node as CAM in the Nodes dropdown before streaming'')
      | _ \<Rightarrow> Inl (Stream ''Assign this node as CAM in the Nodes dropdown before streaming''))"

definition camera_stream_path ::
    "'n ipnet_crate \<Rightarrow> camera_reads option \<Rightarrow> manual_node list \<Rightarrow> camera_target \<Rightarrow> presence_state \<times> device_registry
      \<Rightarrow> ready_path result \<times> presence_state \<times> device_registry" where
  "camera_stream_path net handle nodes target sg =
     (case handle of
        None \<Rightarrow> (Inl (Stream ''Ethernet readiness service unavailable''), sg)
      | Some rd \<Rightarrow>
          let (r, _, s', g') = camera_path_now net rd nodes True target sg
          in (res_bind r (\<lambda>path. res_bind (require_cam_role (rp_target path) (snapshot g')) (\<lambda>_. Inr path)), s', g'))"

definition preflight_target ::
    "'n ipnet_crate \<Rightarrow> camera_reads option \<Rightarrow> manual_node list \<Rightarrow> camera_target option \<Rightarrow> presence_state \<times> device_registry
      \<Rightarrow> ready_path option result \<times> presence_state \<times> device_registry" where
  "preflight_target net handle nodes target sg =
     (case target of
        None \<Rightarrow> (Inr None, sg)
      | Some t \<Rightarrow> (case camera_stream_path net handle nodes t sg of (r, sg') \<Rightarrow> (res_bind r (\<lambda>p. Inr (Some p)), sg')))"

definition build_input_url :: "stream_config \<Rightarrow> string result" where
  "build_input_url c =
     (case sc_protocol c of
        InputUdp \<Rightarrow> Inr (''udp://@:'' @ show_nat (unat (sc_udp_port c)))
      | InputRtsp \<Rightarrow>
          let url = ''rtsp://'' @ sc_camera_ip c @ '':'' @ show_nat (unat (sc_rtsp_port c)) @ sc_rtsp_path c
          in if sc_camera_ip c = [] then Inr url
             else (case parse_camera_ip (sc_camera_ip c) of
                     Inl e \<Rightarrow> Inl (Stream (app_error_to_string e))
                   | Inr _ \<Rightarrow> Inr url))"

section \<open>What a granted path rests on\<close>

lemma set_insert_by [simp]: "set (insert_by le x xs) = insert x (set xs)"
  by (induction xs) auto

lemma set_sort_by [simp]: "set (sort_by le xs) = set xs"
proof -
  have "set (foldr (insert_by le) xs ys) = set xs \<union> set ys" for ys by (induction xs) auto
  then show ?thesis by (simp add: sort_by_def)
qed

lemma snapshot_get:
  assumes "reg_keys (rg_devices g)"
  shows "r \<in> set (snapshot g) \<longleftrightarrow> hm_get (rg_devices g) (dr_mac r) = Some r"
proof -
  have "hm_wf (rg_devices g)" using assms by (rule reg_keys_wf)
  with reg_keys_mac [OF assms] show ?thesis
    by (auto simp: snapshot_def dest: hm_get_values) (metis hm_wf_def map_of_eq_Some_iff reg_keys_mac [OF assms])
qed

lemma filter_ok_iff:
  "(case x of None \<Rightarrow> Inl e | Some m \<Rightarrow> if P m then Inr m else Inl e') = Inr y \<longleftrightarrow> x = Some y \<and> P y"
  by (cases x) auto

lemma check_bound_ready_Inr:
  assumes "check_bound_ready net target (Some a) index records = Inr source"
  shows "\<exists>row expected adapter. row \<in> set records \<and> fresh_row target expected adapter row
    \<and> eq_ignore_ascii_case (dr_mac row) (ct_key target)
    \<and> canonical_mac (if_mac a) = Some adapter \<and> Option.bind (ct_expected_mac target) canonical_mac = Some expected \<and> index \<noteq> 0 \<and> if_is_up a \<and> \<not> prohibited_camera_ip source"
  using assms
  by (auto simp: check_bound_ready_def res_bind_Inr_iff filter_ok_iff
      split: if_split_asm dest!: find_SomeD)

lemma probe_scope_Some:
  assumes "probe_scope rd s = Some (a, index, epoch)"
  shows "\<exists>adapter. sel_adapter (ps_selection s) = Some adapter \<and> if_is_up adapter \<and> ps_active s
    \<and> if_mac a = if_mac adapter \<and> sel_index (ps_selection s) = Some index
    \<and> index_for_mac (cr_index_read rd) (if_mac adapter) = Some index \<and> epoch = ps_epoch s"
  using assms
  by (auto simp: probe_scope_def presence_snapshot_of_def selection_up_def Let_def bind_eq_Some_conv split: if_splits option.splits)

text \<open>A tick is a sequence of registry operations that ends with the expiry.\<close>

lemma tick_steps:
  assumes "presence_tick now (s, g) = (c, s', g')"
  shows "\<exists>es. list_all (\<lambda>e. event_time e = 0) es \<and> g' = snd (expire_evidence now (fold (registry_step rfc) es g))"
proof -
  let ?e = "case ps_expire_at s of Some t \<Rightarrow> t \<le> now | None \<Rightarrow> False"
  have "g' = snd (expire_evidence now (fold (registry_step rfc) (RvScope (map_option if_mac (pn_adapter (presence_snapshot_of now s')))
      # (if ?e then [RvExpireAll] else [])) g))"
    using assms by (auto simp: presence_tick_def Let_def split: prod.splits if_splits)
  moreover have "list_all (\<lambda>e. event_time e = 0)
      (RvScope (map_option if_mac (pn_adapter (presence_snapshot_of now s'))) # (if ?e then [RvExpireAll] else []))" by simp
  ultimately show ?thesis by blast
qed

lemma expire_evidence_fresh:
  assumes "hm_wf (rg_evidence g)" "hm_get (rg_evidence (snd (expire_evidence now g))) k = Some d"
  shows "now < d" "hm_get (rg_evidence g) k = Some d"
  using assms by (auto simp: expire_evidence_def Let_def hm_simps split: option.splits if_splits)

lemma tick_keeps:
  assumes "device_inv g" "presence_tick now (s, g) = (c, s', g')"
  shows "device_inv g'"
proof -
  obtain es where "g' = snd (expire_evidence now (fold (registry_step (\<lambda>_. None)) es g))"
    using tick_steps [OF assms(2)] by blast
  moreover have "device_inv (fold (registry_step (\<lambda>_. None)) es g)"
    using assms(1) by (induction es arbitrary: g) (simp_all add: registry_step_keeps)
  ultimately show ?thesis by (simp add: expire_evidence_keeps)
qed

lemma same_record:
  assumes keys: "reg_keys (rg_devices g)" and "a \<in> set (snapshot g)" "b \<in> set (snapshot g)" "same_mac (dr_mac a) (dr_mac b)"
  shows "a = b"
proof -
  have "hm_get (rg_devices g) (dr_mac a) = Some a" "hm_get (rg_devices g) (dr_mac b) = Some b"
    using assms snapshot_get [OF keys] by simp_all
  moreover from this have "hm_contains (dr_mac a) (rg_devices g)" "hm_contains (dr_mac b) (rg_devices g)"
    by (simp_all add: hm_contains_def)
  then have "dr_mac a = dr_mac b" using keys assms(4) unfolding reg_keys_def by blast
  ultimately show ?thesis by (metis option.inject)
qed

lemma tick_live_fresh:
  assumes inv: "device_inv g" and run: "presence_tick now (s, g) = (c, s', g')"
    and get: "hm_get (rg_devices g') k = Some r" and live: "dr_status r = Live"
  shows "\<exists>d. hm_get (rg_evidence g') k = Some d \<and> now < d"
    and "deadlines_below t g \<Longrightarrow> now < t + FRESHNESS"
proof -
  obtain es where es: "list_all (\<lambda>e. event_time e = 0) es"
    and g': "g' = snd (expire_evidence now (fold (registry_step (\<lambda>_. None)) es g))"
    using tick_steps [OF run] by blast
  let ?h = "fold (registry_step (\<lambda>_. None)) es g"
  have h: "device_inv ?h" using inv by (induction es arbitrary: g) (simp_all add: registry_step_keeps)
  have "device_inv g'" by (rule tick_keeps [OF inv run])
  with get live obtain d where d: "hm_get (rg_evidence g') k = Some d"
    by (auto simp: device_inv_def live_backed_def hm_contains_def)
  have wf: "hm_wf (rg_evidence ?h)" using h by (simp add: device_inv_def)
  from d expire_evidence_fresh [OF wf] show "\<exists>d. hm_get (rg_evidence g') k = Some d \<and> now < d" by (simp add: g')
  show "now < t + FRESHNESS" if "deadlines_below t g"
  proof -
    from es have "list_all (\<lambda>e. event_time e \<le> t) es" by (simp add: list_all_iff)
    from run_deadlines [OF inv that this] have "deadlines_below t ?h" .
    with d expire_evidence_fresh [OF wf, of now k d] have "now < d" "d \<le> t + FRESHNESS" by (simp_all add: g' deadlines_below_def)
    then show ?thesis by simp
  qed
qed

lemma require_cam_role_Inr:
  "require_cam_role target records = Inr () \<Longrightarrow>
     \<exists>row. filter (\<lambda>r. dr_alias r = ''CAM'') records = [row]
       \<and> eq_ignore_ascii_case (dr_mac row) (ct_key target) \<and> dr_ip row = ct_ip target"
  by (auto simp: require_cam_role_def split: list.splits if_splits)

lemma camera_path_now_Inr:
  assumes "camera_path_now net rd nodes True target (s, g) = (Inr p, c, s', g')"
  shows "\<exists>a. presence_tick (cr_tick rd) (s, g) = (c, s', g')
    \<and> probe_scope rd s' = Some (a, rp_index p, rp_epoch p)
    \<and> check_bound_ready net (rp_target p) (Some a) (rp_index p) (snapshot g') = Inr (rp_source p)
    \<and> source_matches_interface (cr_source_read rd) (rp_index p) (rp_source p)
    \<and> \<not> is_stale (fence_at (rp_epoch p) (cr_fence_end rd))"
  using assms
  by (auto simp: camera_path_now_def res_bind_Inr_iff Let_def split: prod.splits if_splits)

section \<open>Properties\<close>


definition demo_selection :: adapter_selection where
  "demo_selection = \<lparr>sel_mac = Some sample_adapter, sel_adapter = Some (demo_iface\<lparr>if_mac := sample_adapter\<rparr>), sel_index = Some 4,
     sel_required = False, sel_candidates = []\<rparr>"

definition demo_native :: native_adapter where
  "demo_native = \<lparr>na_index = 4, na_guid = [], na_alias = [], na_dhcp = False, na_mac = sample_adapter, na_is_up = True,
     na_ips = [\<lparr>ip_address = ''192.168.1.5'', ip_prefix = 24, ip_subnet = []\<rparr>], na_gateways = []\<rparr>"

definition demo_reads :: camera_reads where
  "demo_reads = \<lparr>cr_tick = 100, cr_snapshot = 100, cr_fence_probe = (0, True), cr_index_read = [demo_native],
     cr_status_read = [demo_native], cr_pending = Some [], cr_egress = (\<lambda>_. Some 4), cr_source_read = [demo_native],
     cr_fence_end = (0, True)\<rparr>"

definition demo_events :: "registry_event list" where
  "demo_events = [RvVerified 5 sample_dev sample_adapter ''t2'' fresh_fence, RvAlias (ad_mac sample_dev) ''CAM'']"

definition demo_registry :: device_registry where
  "demo_registry = fold (registry_step (\<lambda>_. Some 0)) demo_events (set_verification_scope (Some sample_adapter) device_registry_new)"

definition demo_target :: camera_target where
  "demo_target = \<lparr>ct_key = ad_mac sample_dev, ct_expected_mac = Some (ad_mac sample_dev), ct_ip = ''192.168.1.20''\<rparr>"

definition demo_row_live :: device_record where
  "demo_row_live = \<lparr>dr_verified_by_mac = Some sample_adapter, dr_last_verified_at = Some ''t2'', dr_mac = ad_mac sample_dev,
     dr_ip = ad_ip sample_dev, dr_subnet = ad_subnet sample_dev, dr_open_ports = [], dr_alias = ''CAM'', dr_status = Live,
     dr_first_seen = ad_first_seen sample_dev, dr_last_seen = ad_last_seen sample_dev\<rparr>"

definition demo_live :: device_registry where
  "demo_live = \<lparr>rg_devices = [(ad_mac sample_dev, demo_row_live)], rg_evidence = [(ad_mac sample_dev, 15005)],
     rg_scope = Some (Some sample_adapter)\<rparr>"

lemma demo_verified: "registry_step (\<lambda>_. Some 0) (RvVerified 5 sample_dev sample_adapter ''t2'' fresh_fence)
    (set_verification_scope (Some sample_adapter) device_registry_new)
  = demo_live\<lparr>rg_devices := [(ad_mac sample_dev, demo_row_live\<lparr>dr_alias := []\<rparr>)]\<rparr>"
  using sample_proof
  by (simp add: merge_verified_def merge_verified_locked_def merge_arp_locked_def after_merge_def Let_def
      record_key_for_mac_def hm_contains_def hm_simps set_verification_scope_def device_registry_new_def sample_macs hm_map_def)
    (simp add: hm_insert_def hm_map_def demo_live_def demo_row_live_def change_status_def FRESHNESS_def)

lemma demo_aliased: "registry_step (\<lambda>_. Some 0) (RvAlias (ad_mac sample_dev) ''CAM'')
    (demo_live\<lparr>rg_devices := [(ad_mac sample_dev, demo_row_live\<lparr>dr_alias := []\<rparr>)]\<rparr>) = demo_live"
  by (simp add: demo_live_def demo_row_live_def set_alias_def hm_contains_def hm_map_def assign_alias_def resolve_role_def Let_def)

lemma demo_ticked: "presence_tick 100 (presence_default\<lparr>ps_selection := demo_selection\<rparr>, demo_live)
    = (False, presence_default\<lparr>ps_selection := demo_selection\<rparr>, demo_live)"
  by (simp add: presence_tick_def presence_default_def presence_snapshot_of_def selection_up_def demo_selection_def demo_iface_def
      set_verification_scope_def expire_evidence_def demo_live_def demo_row_live_def hm_map_def hm_retain_def hm_contains_def
      evidence_gone_def sample_macs Let_def)

lemma demo_scope: "probe_scope demo_reads (presence_default\<lparr>ps_selection := demo_selection\<rparr>)
    = Some (demo_iface\<lparr>if_mac := sample_adapter, if_ips := [\<lparr>ip_address = ''192.168.1.5'', ip_prefix = 24, ip_subnet = []\<rparr>]\<rparr>, 4, 0)"
  by code_simp

lemma demo_checked: "check_bound_ready plain_net demo_target
    (Some (demo_iface\<lparr>if_mac := sample_adapter, if_ips := [\<lparr>ip_address = ''192.168.1.5'', ip_prefix = 24, ip_subnet = []\<rparr>]\<rparr>)) 4 [demo_row_live]
   = Inr (Ipv4 192 168 1 5)"
  by code_simp

lemma demo_source: "source_matches_interface [demo_native] 4 (Ipv4 192 168 1 5)"
  by code_simp


end
