(* ===== verification/Bind_Scope.thy ===== *)
theory Bind_Scope
  imports Native_Adapters Config_Store
begin

text \<open>
  Where the re-stream listener is exposed, \<open>network/bindings.rs\<close>: the choices offered to the user,
  the resolution of a saved choice against the native inventory, the exposure of a listener on
  every address, and the topology revision that retires a resolution when the inventory changes.
  The inventory is an argument; so is \<open>serde_json::to_string\<close> of it, the fingerprint.
\<close>

section \<open>Scopes\<close>

datatype socket_family = FamilyIpv4

record bound_address =
  ba_id :: string
  ba_alias :: string
  ba_address :: string

datatype bind_scope =
    AllAddresses socket_family "bound_address list" u64
  | InterfaceScope string string string socket_family u64
  | UnknownScope string

definition bind_scope_default :: bind_scope where
  "bind_scope_default = UnknownScope ''No active listener''"

section \<open>Selection\<close>

definition quoted :: "string \<Rightarrow> string" where
  "quoted s = [CHR 0x27] @ s @ [CHR 0x27]"

definition usable :: "ip_info list \<Rightarrow> string set \<Rightarrow> string option" where
  "usable ips adopted =
     List.find (\<lambda>ip. (case parse_ipv4 ip of None \<Rightarrow> False
                      | Some a \<Rightarrow> \<not> is_unspecified a \<and> \<not> is_loopback a \<and> \<not> is_link_local a) \<and> ip \<notin> adopted)
       (map ip_address ips)"

definition trim_braces :: "string \<Rightarrow> string" where
  "trim_braces s = (let brace = (\<lambda>c. c = CHR ''{'' \<or> c = CHR ''}'') in rev (dropWhile brace (rev (dropWhile brace s))))"

definition bind_matches :: "string option \<Rightarrow> string \<Rightarrow> native_adapter \<Rightarrow> bool" where
  "bind_matches saved nm row =
     (case saved of
        Some i \<Rightarrow> eq_ignore_ascii_case (ni_guid (identity row)) (trim_braces i)
      | None \<Rightarrow> na_alias row = nm)"

definition bind_select :: "native_adapter list \<Rightarrow> string option \<Rightarrow> string \<Rightarrow> native_adapter result" where
  "bind_select rows saved nm =
     (let unavailable = Inl (Stream (''Saved bind interface '' @ quoted nm @ '' is unavailable or ambiguous; choose an interface''))
      in case filter (bind_matches saved nm) rows of
           [row] \<Rightarrow> if \<not> na_is_up row \<or> ni_guid (identity row) = [] then unavailable else Inr row
         | _ \<Rightarrow> unavailable)"

definition bound_key :: "bound_address \<Rightarrow> string \<times> string \<times> string" where
  "bound_key a = (ba_id a, ba_address a, ba_alias a)"

definition row_addresses :: "native_adapter \<Rightarrow> bound_address list" where
  "row_addresses row =
     map (\<lambda>ip. \<lparr>ba_id = ni_guid (identity row), ba_alias = na_alias row, ba_address = ip_address ip\<rparr>) (na_ips row)"

definition exposure :: "native_adapter list \<Rightarrow> u64 \<Rightarrow> bind_scope" where
  "exposure rows revision =
     AllAddresses FamilyIpv4 (remdups_adj (sort_key bound_key (concat (map row_addresses rows)))) revision"

definition bind_resolve ::
    "u64 \<Rightarrow> native_adapter list result \<Rightarrow> string option \<Rightarrow> string option \<Rightarrow> string set
      \<Rightarrow> (native_identity option \<times> bind_scope) result" where
  "bind_resolve revision native nm saved adopted =
     res_bind native (\<lambda>rows.
     case nm of
       None \<Rightarrow> Inr (None, exposure rows revision)
     | Some nm \<Rightarrow>
         res_bind (bind_select rows saved nm) (\<lambda>row.
         res_bind (ok_or (Stream (''Interface '' @ quoted (na_alias row) @ '' has no usable non-adopted, non-APIPA IPv4 address''))
                     (usable (na_ips row) adopted)) (\<lambda>address.
         Inr (Some (identity row), InterfaceScope (ni_guid (identity row)) (na_alias row) address FamilyIpv4 revision))))"

definition camera_link :: "string option \<Rightarrow> native_adapter \<Rightarrow> bool" where
  "camera_link camera row \<longleftrightarrow> (case camera of None \<Rightarrow> False | Some c \<Rightarrow> canonical_mac (na_mac row) = Some c)"

definition bind_option ::
    "interface_info list \<Rightarrow> string set \<Rightarrow> string option \<Rightarrow> native_adapter \<Rightarrow> bind_interface option" where
  "bind_option metadata adopted camera row =
     (if \<not> na_is_up row \<or> camera_link camera row then None
      else (case filter (\<lambda>m. if_name m = na_alias row \<and> eq_ignore_ascii_case (if_mac m) (na_mac row)) metadata of
              [m] \<Rightarrow>
                if \<not> (if_is_vpn m \<or> (\<not> if_is_virtual m \<and> (if_is_wifi m \<or> if_is_ethernet m))) then None
                else map_option (\<lambda>address. \<lparr>bi_id = ni_guid (identity row), bi_alias = na_alias row,
                       bi_kind = (if if_is_vpn m then ''vpn'' else if if_is_wifi m then ''wifi'' else ''ethernet''),
                       bi_address = address\<rparr>) (usable (na_ips row) adopted)
            | _ \<Rightarrow> None))"

definition bind_options ::
    "native_adapter list \<Rightarrow> interface_info list \<Rightarrow> string set \<Rightarrow> string option \<Rightarrow> bind_interface list" where
  "bind_options rows metadata adopted camera_mac =
     List.map_filter (bind_option metadata adopted (Option.bind camera_mac canonical_mac)) rows"

section \<open>Topology\<close>

record bind_topology =
  bt_revision :: u64
  bt_fingerprint :: "string option"

definition bind_topology_default :: bind_topology where
  "bind_topology_default = \<lparr>bt_revision = 0, bt_fingerprint = None\<rparr>"

definition fingerprint_of :: "(native_adapter list \<Rightarrow> string option) \<Rightarrow> native_adapter list result \<Rightarrow> string option" where
  "fingerprint_of json observation = (case observation of Inr rows \<Rightarrow> json rows | Inl _ \<Rightarrow> None)"

definition record_topology ::
    "(native_adapter list \<Rightarrow> string option) \<Rightarrow> native_adapter list result \<Rightarrow> bind_topology \<Rightarrow> bool \<times> bind_topology" where
  "record_topology json observation t =
     (let fingerprint = fingerprint_of json observation
      in if bt_revision t = 0 \<or> fingerprint \<noteq> bt_fingerprint t
         then (True, \<lparr>bt_revision = bt_revision t + 1, bt_fingerprint = fingerprint\<rparr>)
         else (False, t))"

definition topology_observation ::
    "(native_adapter list \<Rightarrow> string option) \<Rightarrow> native_adapter list result \<Rightarrow> bind_topology
      \<Rightarrow> (bool \<times> u64 \<times> bind_scope) option \<times> bind_topology" where
  "topology_observation json rows t =
     (let (changed, t') = record_topology json rows t
      in (if \<not> changed \<and> isl rows then None
          else Some (changed, bt_revision t',
            (case rows of Inr rows \<Rightarrow> exposure rows (bt_revision t') | Inl e \<Rightarrow> UnknownScope (app_error_to_string e))), t'))"

end
