(* ===== verification/Relay.thy ===== *)
theory Relay
  imports Bind_Scope
begin

text \<open>
  \<open>streaming/relay.rs\<close>: what is needed to start a re-stream (\<open>ResolvedStartSpec\<close>), the health of a
  relay (\<open>RelayRuntimeHealth\<close>) and the health of playback (\<open>PlaybackHealth\<close>). Callbacks of
  GStreamer and the supervisor call these methods in any order, each under the mutex of its
  record; times are arguments. \<open>fmt\<close> prints a duration in seconds with one decimal.
\<close>

section \<open>Constants\<close>

definition FIRST_BUFFER_TIMEOUT :: instant where "FIRST_BUFFER_TIMEOUT = 15000"
definition STALL_WINDOW :: instant where "STALL_WINDOW = 5000"
definition STALL_CONFIRMATION :: instant where "STALL_CONFIRMATION = 10000"
definition HEALTHY_RESET_WINDOW :: instant where "HEALTHY_RESET_WINDOW = 30000"
definition RECOVERY_DELAYS :: "instant list" where "RECOVERY_DELAYS = [0, 2000, 5000, 15000, 30000, 60000]"

text \<open>Saturating arithmetic of \<open>u32\<close>, and the next id of a wrapping counter that skips zero.\<close>

definition sat_inc :: "u32 \<Rightarrow> u32" where
  "sat_inc x = (if x = - 1 then x else x + 1)"

definition next_id :: "u64 \<Rightarrow> u64" where
  "next_id g = max (g + 1) 1"

definition recovery_delay :: "u32 \<Rightarrow> instant" where
  "recovery_delay attempt = RECOVERY_DELAYS ! min (unat attempt - 1) (length RECOVERY_DELAYS - 1)"

section \<open>The start specification\<close>

datatype relay_state = RelayStopped | Listening | RelayStarting | Streaming | RelayRecovering | RelayFailed

datatype relay_fault_kind =
    GstError | PermanentGstError | FaultEos | Capability | MediaStatusError | FirstBufferTimeout | BufferStall | MainLoopExited

fun fault_kind_str :: "relay_fault_kind \<Rightarrow> string" where
  "fault_kind_str GstError = ''gst_error''"
| "fault_kind_str PermanentGstError = ''permanent_gst_error''"
| "fault_kind_str FaultEos = ''eos''"
| "fault_kind_str Capability = ''capability''"
| "fault_kind_str MediaStatusError = ''media_status_error''"
| "fault_kind_str FirstBufferTimeout = ''first_buffer_timeout''"
| "fault_kind_str BufferStall = ''buffer_stall''"
| "fault_kind_str MainLoopExited = ''main_loop_exited''"

record relay_fault =
  rf_kind :: relay_fault_kind
  rf_reason :: string
  rf_server_generation :: u64
  rf_data_generation :: u64

datatype relay_supervisor_event = RelayFaultEvent relay_fault | RetryRequested u64

datatype build_failure_kind = BuildBind | BuildConfiguration

datatype relay_ingest_kind = IngestRtsp | IngestUdp

datatype resolved_output =
    OutRtsp (out_port: u16) (out_mount: string)
  | OutSrt (out_port: u16) string u32 string

datatype resolved_source = SrcRtsp string | SrcUdp u16

record start_spec =
  sp_source :: resolved_source
  sp_output :: resolved_output
  sp_bind_interface :: "string option"
  sp_bind_identity :: "native_identity option"
  sp_bind_scope :: bind_scope
  sp_bind_address :: "string option"
  sp_advertised_ip :: string
  sp_username :: string
  sp_password :: string

text \<open>\<open>PartialEq\<close> of the specification: identities compare without their alias.\<close>

definition spec_eq :: "start_spec \<Rightarrow> start_spec \<Rightarrow> bool" where
  "spec_eq a b \<longleftrightarrow> map_option ni_key (sp_bind_identity a) = map_option ni_key (sp_bind_identity b)
     \<and> a\<lparr>sp_bind_identity := None\<rparr> = b\<lparr>sp_bind_identity := None\<rparr>"

definition spec_protocol :: "start_spec \<Rightarrow> restream_protocol" where
  "spec_protocol s = (case sp_output s of OutRtsp _ _ \<Rightarrow> OutputRtsp | OutSrt _ _ _ _ \<Rightarrow> OutputSrt)"

definition server_port :: "start_spec \<Rightarrow> u16" where
  "server_port s = (case sp_output s of OutRtsp p _ \<Rightarrow> p | OutSrt p _ _ _ \<Rightarrow> p)"

definition mount_path :: "start_spec \<Rightarrow> string" where
  "mount_path s = (case sp_output s of OutRtsp _ m \<Rightarrow> m | OutSrt _ _ _ _ \<Rightarrow> [])"

definition ingest_kind :: "start_spec \<Rightarrow> relay_ingest_kind" where
  "ingest_kind s = (case sp_source s of SrcRtsp _ \<Rightarrow> IngestRtsp | SrcUdp _ \<Rightarrow> IngestUdp)"

definition udp_ingest_port :: "start_spec \<Rightarrow> u16 option" where
  "udp_ingest_port s = (case sp_source s of SrcUdp p \<Rightarrow> Some p | SrcRtsp _ \<Rightarrow> None)"

definition hex_upper :: "nat \<Rightarrow> char" where
  "hex_upper d = char_of (if d < 10 then 48 + d else 55 + d)"

definition unreserved :: "char \<Rightarrow> bool" where
  "unreserved c \<longleftrightarrow> (let n = (of_char c :: nat) in
     (48 \<le> n \<and> n \<le> 57) \<or> (65 \<le> n \<and> n \<le> 90) \<or> (97 \<le> n \<and> n \<le> 122)) \<or> c \<in> set ''-._~''"

definition encode_byte :: "char \<Rightarrow> string" where
  "encode_byte c = (if unreserved c then [c]
     else [CHR ''%'', hex_upper (of_char c div 16), hex_upper (of_char c mod 16)])"

definition encode_query_value :: "string \<Rightarrow> string" where
  "encode_query_value s = concat (map encode_byte s)"

definition client_url :: "start_spec \<Rightarrow> string" where
  "client_url s =
     (let endpoint = sp_advertised_ip s @ '':'' @ show_nat (unat (server_port s)) in
      case sp_output s of
        OutRtsp _ _ \<Rightarrow> ''rtsp://'' @ endpoint @ mount_path s
      | OutSrt _ _ _ stream_id \<Rightarrow>
          ''srt://'' @ endpoint @ (if stream_id = [] then [] else ''?streamid='' @ encode_query_value stream_id))"

definition display_url :: "start_spec \<Rightarrow> string" where
  "display_url s =
     (case sp_output s of OutRtsp _ _ \<Rightarrow> ''rtsp'' | OutSrt _ _ _ _ \<Rightarrow> ''srt'')
       @ ''://'' @ sp_advertised_ip s @ '':'' @ show_nat (unat (server_port s))"

section \<open>Relay health\<close>

record relay_health =
  rh_server_generation :: u64
  rh_data_generation :: u64
  rh_active :: "u64 option"
  rh_server_instance :: u64
  rh_state :: relay_state
  rh_ingest :: relay_ingest_kind
  rh_armed_at :: "instant option"
  rh_last_buffer_at :: "instant option"
  rh_healthy_since :: "instant option"
  rh_stall_warned :: bool
  rh_first_fault :: "relay_fault option"
  rh_error :: "string option"
  rh_recovery_attempt :: u32
  rh_bind_failures :: u32
  rh_loop_alive :: bool

definition relay_health_new :: "u64 \<Rightarrow> relay_ingest_kind \<Rightarrow> relay_health" where
  "relay_health_new generation kind = \<lparr>rh_server_generation = generation, rh_data_generation = 0, rh_active = None,
     rh_server_instance = 0, rh_state = RelayStarting, rh_ingest = kind, rh_armed_at = None, rh_last_buffer_at = None,
     rh_healthy_since = None, rh_stall_warned = False, rh_first_fault = None, rh_error = None, rh_recovery_attempt = 0,
     rh_bind_failures = 0, rh_loop_alive = False\<rparr>"

definition permanent_failure :: "relay_health \<Rightarrow> bool" where
  "permanent_failure h \<longleftrightarrow> (case rh_first_fault h of None \<Rightarrow> False | Some f \<Rightarrow> rf_kind f = PermanentGstError)"

definition upstream_allowed :: "relay_health \<Rightarrow> bool" where
  "upstream_allowed h \<longleftrightarrow> rh_state h \<noteq> RelayStopped \<and> rh_first_fault h = None"

definition begin_server_instance :: "bool \<Rightarrow> relay_health \<Rightarrow> u64 \<times> relay_health" where
  "begin_server_instance recovering h =
     (let i = next_id (rh_server_instance h)
      in (i, h\<lparr>rh_server_instance := i, rh_active := None, rh_armed_at := None, rh_last_buffer_at := None,
               rh_healthy_since := None, rh_stall_warned := False, rh_first_fault := None, rh_loop_alive := False,
               rh_state := (if recovering then RelayRecovering else RelayStarting)\<rparr>))"

definition loop_started :: "u64 \<Rightarrow> relay_health \<Rightarrow> relay_health" where
  "loop_started i h = (if rh_server_instance h = i then h\<lparr>rh_loop_alive := True\<rparr> else h)"

definition loop_alive_for :: "u64 \<Rightarrow> relay_health \<Rightarrow> bool" where
  "loop_alive_for i h \<longleftrightarrow> rh_server_instance h = i \<and> rh_loop_alive h"

definition record_fault_locked ::
    "relay_fault_kind \<Rightarrow> string \<Rightarrow> u64 \<Rightarrow> relay_health \<Rightarrow> relay_fault option \<times> relay_health" where
  "record_fault_locked kind reason data h =
     (if rh_first_fault h \<noteq> None then (None, h)
      else
        let fault = \<lparr>rf_kind = kind, rf_reason = reason, rf_server_generation = rh_server_generation h, rf_data_generation = data\<rparr>
        in (Some fault, h\<lparr>rh_first_fault := Some fault, rh_error := Some reason\<rparr>))"

definition loop_exited :: "u64 \<Rightarrow> bool \<Rightarrow> string \<Rightarrow> relay_health \<Rightarrow> relay_fault option \<times> relay_health" where
  "loop_exited i intentional reason h =
     (if rh_server_instance h \<noteq> i then (None, h)
      else
        let h = h\<lparr>rh_loop_alive := False\<rparr> in
        if intentional then (None, h)
        else record_fault_locked MainLoopExited reason
               (case rh_active h of Some d \<Rightarrow> d | None \<Rightarrow> rh_data_generation h) h)"

definition mark_listener_bound :: "u64 \<Rightarrow> relay_health \<Rightarrow> relay_health" where
  "mark_listener_bound i h =
     (if rh_server_instance h \<noteq> i then h
      else
        let h = h\<lparr>rh_bind_failures := 0\<rparr> in
        if rh_first_fault h \<noteq> None then h
        else
          let h = h\<lparr>rh_error := None\<rparr>
          in if rh_active h = None then h\<lparr>rh_state := Listening\<rparr> else h)"

definition mark_build_failed :: "u64 \<Rightarrow> string \<Rightarrow> bool \<Rightarrow> relay_health \<Rightarrow> relay_health" where
  "mark_build_failed i reason bind_failure h =
     (if rh_server_instance h \<noteq> i then h
      else h\<lparr>rh_loop_alive := False, rh_error := Some reason,
             rh_bind_failures := (if bind_failure then sat_inc (rh_bind_failures h) else 0), rh_state := RelayFailed\<rparr>)"

definition schedule_recovery_attempt :: "relay_health \<Rightarrow> (u32 \<times> instant) \<times> relay_health" where
  "schedule_recovery_attempt h =
     (let attempt = sat_inc (rh_recovery_attempt h)
      in ((attempt, recovery_delay attempt), h\<lparr>rh_recovery_attempt := attempt\<rparr>))"

definition mark_recovery_in_progress :: "relay_health \<Rightarrow> relay_health" where
  "mark_recovery_in_progress h = h\<lparr>rh_state := RelayRecovering\<rparr>"

definition mark_resolution_failed :: "string \<Rightarrow> relay_health \<Rightarrow> relay_health" where
  "mark_resolution_failed reason h = h\<lparr>rh_loop_alive := False, rh_error := Some reason, rh_state := RelayFailed\<rparr>"

definition force_max_backoff :: "relay_health \<Rightarrow> relay_health" where
  "force_max_backoff h = h\<lparr>rh_recovery_attempt := max (rh_recovery_attempt h) (of_nat (length RECOVERY_DELAYS))\<rparr>"

definition should_reresolve_explicit_bind :: "relay_health \<Rightarrow> bool" where
  "should_reresolve_explicit_bind h \<longleftrightarrow> 3 \<le> rh_bind_failures h"

definition begin_data_generation :: "u64 \<Rightarrow> relay_health \<Rightarrow> u64 option \<times> relay_health" where
  "begin_data_generation i h =
     (if rh_server_instance h \<noteq> i \<or> rh_first_fault h \<noteq> None then (None, h)
      else
        let d = next_id (rh_data_generation h)
        in (Some d, h\<lparr>rh_data_generation := d, rh_active := Some d, rh_armed_at := None, rh_last_buffer_at := None,
                      rh_healthy_since := None, rh_stall_warned := False, rh_first_fault := None, rh_error := None,
                      rh_state := RelayStarting\<rparr>))"

definition is_current_data :: "u64 \<Rightarrow> u64 \<Rightarrow> relay_health \<Rightarrow> bool" where
  "is_current_data i d h \<longleftrightarrow> rh_server_instance h = i \<and> rh_active h = Some d \<and> rh_first_fault h = None"

definition arm_first_buffer :: "u64 \<Rightarrow> u64 \<Rightarrow> instant \<Rightarrow> relay_health \<Rightarrow> relay_health" where
  "arm_first_buffer i d now h =
     (if \<not> is_current_data i d h \<or> rh_last_buffer_at h \<noteq> None then h
      else h\<lparr>rh_armed_at := Some now, rh_state := (if rh_state h = Listening then RelayStarting else rh_state h)\<rparr>)"

definition disarm_first_buffer :: "u64 \<Rightarrow> u64 \<Rightarrow> relay_health \<Rightarrow> relay_health" where
  "disarm_first_buffer i d h =
     (if is_current_data i d h \<and> rh_last_buffer_at h = None then h\<lparr>rh_armed_at := None\<rparr> else h)"

definition end_data_generation :: "u64 \<Rightarrow> u64 \<Rightarrow> relay_health \<Rightarrow> relay_health" where
  "end_data_generation i d h =
     (if \<not> is_current_data i d h then h
      else
        let h = h\<lparr>rh_active := None, rh_armed_at := None, rh_last_buffer_at := None, rh_healthy_since := None,
                  rh_stall_warned := False\<rparr>
        in if rh_first_fault h = None \<and> rh_state h \<notin> {RelayRecovering, RelayFailed} \<and> rh_loop_alive h
           then h\<lparr>rh_state := Listening\<rparr> else h)"

definition observe_buffer :: "u64 \<Rightarrow> u64 \<Rightarrow> instant \<Rightarrow> relay_health \<Rightarrow> bool \<times> relay_health" where
  "observe_buffer i d now h =
     (if \<not> is_current_data i d h \<or> rh_first_fault h \<noteq> None then (False, h)
      else (True, h\<lparr>rh_last_buffer_at := Some now, rh_stall_warned := False,
              rh_healthy_since := (case rh_healthy_since h of None \<Rightarrow> Some now | Some t \<Rightarrow> Some t),
              rh_state := (if rh_state h \<in> {RelayStarting, RelayRecovering, Listening} then Streaming else rh_state h)\<rparr>))"

definition report_streaming_without_buffer :: "u64 \<Rightarrow> u64 \<Rightarrow> instant \<Rightarrow> relay_health \<Rightarrow> bool \<times> relay_health" where
  "report_streaming_without_buffer i d now h =
     (if \<not> is_current_data i d h \<or> rh_first_fault h \<noteq> None then (False, h)
      else (True, h\<lparr>rh_armed_at := None,
              rh_healthy_since := (case rh_healthy_since h of None \<Rightarrow> Some now | Some t \<Rightarrow> Some t), rh_state := Streaming\<rparr>))"

definition report_fault :: "u64 \<Rightarrow> u64 \<Rightarrow> relay_fault_kind \<Rightarrow> string \<Rightarrow> relay_health \<Rightarrow> relay_fault option \<times> relay_health" where
  "report_fault i d kind reason h =
     (if \<not> is_current_data i d h then (None, h) else record_fault_locked kind reason d h)"

definition accept_fault :: "relay_fault \<Rightarrow> relay_health \<Rightarrow> bool \<times> relay_health" where
  "accept_fault fault h =
     (if rh_server_generation h \<noteq> rf_server_generation fault \<or> rh_first_fault h \<noteq> Some fault then (False, h)
      else (True, h\<lparr>rh_active := None, rh_armed_at := None, rh_healthy_since := None,
              rh_state := (if rf_kind fault = PermanentGstError then RelayFailed else RelayRecovering)\<rparr>))"

definition reset_backoff :: "instant \<Rightarrow> relay_health \<Rightarrow> relay_health" where
  "reset_backoff now h =
     (if rh_state h = Streaming
         \<and> (case rh_healthy_since h of None \<Rightarrow> False | Some since \<Rightarrow> HEALTHY_RESET_WINDOW \<le> now - since)
         \<and> rh_recovery_attempt h \<noteq> 0
      then h\<lparr>rh_recovery_attempt := 0\<rparr> else h)"

definition evaluate_watchdog :: "(instant \<Rightarrow> string) \<Rightarrow> instant \<Rightarrow> relay_health \<Rightarrow> relay_fault option \<times> relay_health" where
  "evaluate_watchdog fmt now h0 =
     (let h = reset_backoff now h0 in
      if rh_ingest h \<noteq> IngestRtsp \<or> rh_first_fault h \<noteq> None \<or> rh_active h = None
         \<or> (rh_armed_at h = None \<and> rh_last_buffer_at h = None)
      then (None, h)
      else
        let d = (case rh_active h of Some d \<Rightarrow> d | None \<Rightarrow> 0) in
        case rh_last_buffer_at h of
          None \<Rightarrow>
            (case rh_armed_at h of
               None \<Rightarrow> (None, h)
             | Some started \<Rightarrow>
                 if FIRST_BUFFER_TIMEOUT \<le> now - started
                 then record_fault_locked FirstBufferTimeout
                        (''Re-stream output produced no first buffer for '' @ show_nat ((now - started) div 1000) @ ''s'') d h
                 else (None, h))
        | Some seen \<Rightarrow>
            let h = (if STALL_WINDOW \<le> now - seen \<and> \<not> rh_stall_warned h
                     then h\<lparr>rh_stall_warned := True, rh_healthy_since := None\<rparr> else h)
            in if STALL_CONFIRMATION \<le> now - seen
               then record_fault_locked BufferStall
                      (''Re-stream output produced no buffers for '' @ fmt (now - seen) @ ''s (two windows)'') d h
               else (None, h))"

definition relay_stop :: "relay_health \<Rightarrow> relay_health" where
  "relay_stop h = h\<lparr>rh_active := None, rh_armed_at := None, rh_last_buffer_at := None, rh_healthy_since := None,
     rh_first_fault := None, rh_error := None, rh_loop_alive := False, rh_state := RelayStopped\<rparr>"

end
