(* ===== verification/Relay_Laws.thy ===== *)
theory Relay_Laws
  imports Relay
begin

text \<open>
  Laws of the relay health: its events in any order, the rules every event keeps, late callbacks,
  the first fault, the watchdog, the back-off and the encoding of the client address.
\<close>

section \<open>Events\<close>

datatype relay_event =
    EvBeginServer bool
  | EvLoopStarted u64
  | EvLoopExited u64 bool string
  | EvBound u64
  | EvBuildFailed u64 string bool
  | EvSchedule
  | EvRecovering
  | EvResolutionFailed string
  | EvMaxBackoff
  | EvBeginData u64
  | EvArm u64 u64 instant
  | EvDisarm u64 u64
  | EvEndData u64 u64
  | EvBuffer u64 u64 instant
  | EvStreaming u64 u64 instant
  | EvFault u64 u64 relay_fault_kind string
  | EvAccept relay_fault
  | EvWatchdog instant
  | EvStop

fun relay_step :: "(instant \<Rightarrow> string) \<Rightarrow> relay_event \<Rightarrow> relay_health \<Rightarrow> relay_health" where
  "relay_step fmt (EvBeginServer recovering) h = snd (begin_server_instance recovering h)"
| "relay_step fmt (EvLoopStarted i) h = loop_started i h"
| "relay_step fmt (EvLoopExited i intentional reason) h = snd (loop_exited i intentional reason h)"
| "relay_step fmt (EvBound i) h = mark_listener_bound i h"
| "relay_step fmt (EvBuildFailed i reason b) h = mark_build_failed i reason b h"
| "relay_step fmt EvSchedule h = snd (schedule_recovery_attempt h)"
| "relay_step fmt EvRecovering h = mark_recovery_in_progress h"
| "relay_step fmt (EvResolutionFailed reason) h = mark_resolution_failed reason h"
| "relay_step fmt EvMaxBackoff h = force_max_backoff h"
| "relay_step fmt (EvBeginData i) h = snd (begin_data_generation i h)"
| "relay_step fmt (EvArm i d now) h = arm_first_buffer i d now h"
| "relay_step fmt (EvDisarm i d) h = disarm_first_buffer i d h"
| "relay_step fmt (EvEndData i d) h = end_data_generation i d h"
| "relay_step fmt (EvBuffer i d now) h = snd (observe_buffer i d now h)"
| "relay_step fmt (EvStreaming i d now) h = snd (report_streaming_without_buffer i d now h)"
| "relay_step fmt (EvFault i d kind reason) h = snd (report_fault i d kind reason h)"
| "relay_step fmt (EvAccept fault) h = snd (accept_fault fault h)"
| "relay_step fmt (EvWatchdog now) h = snd (evaluate_watchdog fmt now h)"
| "relay_step fmt EvStop h = relay_stop h"

text \<open>The listener instance an event claims to come from.\<close>

fun event_instance :: "relay_event \<Rightarrow> u64 option" where
  "event_instance (EvLoopStarted i) = Some i"
| "event_instance (EvLoopExited i _ _) = Some i"
| "event_instance (EvBound i) = Some i"
| "event_instance (EvBuildFailed i _ _) = Some i"
| "event_instance (EvBeginData i) = Some i"
| "event_instance (EvArm i _ _) = Some i"
| "event_instance (EvDisarm i _) = Some i"
| "event_instance (EvEndData i _) = Some i"
| "event_instance (EvBuffer i _ _) = Some i"
| "event_instance (EvStreaming i _ _) = Some i"
| "event_instance (EvFault i _ _ _) = Some i"
| "event_instance _ = None"

fun is_begin_server :: "relay_event \<Rightarrow> bool" where
  "is_begin_server (EvBeginServer _) = True"
| "is_begin_server _ = False"

definition relay_inv :: "relay_health \<Rightarrow> bool" where
  "relay_inv h \<longleftrightarrow> (\<forall>d. rh_active h = Some d \<longrightarrow> d = rh_data_generation h \<and> d \<noteq> 0)
     \<and> (\<forall>f. rh_first_fault h = Some f \<longrightarrow> rf_server_generation f = rh_server_generation h)
     \<and> (rh_armed_at h \<noteq> None \<or> rh_healthy_since h \<noteq> None \<longrightarrow> rh_active h \<noteq> None)"

lemmas relay_defs = begin_server_instance_def loop_started_def loop_exited_def record_fault_locked_def
  mark_listener_bound_def mark_build_failed_def schedule_recovery_attempt_def mark_recovery_in_progress_def
  mark_resolution_failed_def force_max_backoff_def begin_data_generation_def arm_first_buffer_def disarm_first_buffer_def
  end_data_generation_def observe_buffer_def report_streaming_without_buffer_def report_fault_def accept_fault_def
  relay_stop_def is_current_data_def Let_def

lemma reset_backoff_simps [simp]:
  "rh_server_generation (reset_backoff now h) = rh_server_generation h" "rh_data_generation (reset_backoff now h) = rh_data_generation h"
  "rh_active (reset_backoff now h) = rh_active h" "rh_server_instance (reset_backoff now h) = rh_server_instance h"
  "rh_state (reset_backoff now h) = rh_state h" "rh_ingest (reset_backoff now h) = rh_ingest h"
  "rh_armed_at (reset_backoff now h) = rh_armed_at h" "rh_last_buffer_at (reset_backoff now h) = rh_last_buffer_at h"
  "rh_healthy_since (reset_backoff now h) = rh_healthy_since h" "rh_first_fault (reset_backoff now h) = rh_first_fault h"
  "rh_stall_warned (reset_backoff now h) = rh_stall_warned h"
  by (simp_all add: reset_backoff_def)

text \<open>What a watchdog evaluation changes.\<close>

lemma watchdog_cases:
  "evaluate_watchdog fmt now h = (r, h') \<Longrightarrow>
     rh_server_generation h' = rh_server_generation h \<and> rh_data_generation h' = rh_data_generation h
     \<and> rh_active h' = rh_active h \<and> rh_server_instance h' = rh_server_instance h \<and> rh_state h' = rh_state h
     \<and> rh_ingest h' = rh_ingest h \<and> rh_armed_at h' = rh_armed_at h \<and> rh_last_buffer_at h' = rh_last_buffer_at h
     \<and> (rh_healthy_since h' = rh_healthy_since h \<or> rh_healthy_since h' = None)
     \<and> rh_recovery_attempt h' = rh_recovery_attempt (reset_backoff now h)
     \<and> (case r of None \<Rightarrow> rh_first_fault h' = rh_first_fault h
        | Some f \<Rightarrow> rh_first_fault h = None \<and> rh_first_fault h' = Some f \<and> rf_server_generation f = rh_server_generation h
            \<and> rh_ingest h = IngestRtsp \<and> rh_active h = Some (rf_data_generation f)
            \<and> (case rh_last_buffer_at h of
                 None \<Rightarrow> rf_kind f = FirstBufferTimeout \<and> (\<exists>t. rh_armed_at h = Some t \<and> FIRST_BUFFER_TIMEOUT \<le> now - t)
               | Some t \<Rightarrow> rf_kind f = BufferStall \<and> STALL_CONFIRMATION \<le> now - t))"
  by (auto simp: evaluate_watchdog_def record_fault_locked_def Let_def split: if_splits option.splits)

section \<open>Invariant\<close>

lemma next_id_nonzero [simp]: "next_id g \<noteq> 0"
  by (auto simp: next_id_def max_def word_le_nat_alt)

lemma relay_inv_watchdog: "relay_inv h \<Longrightarrow> relay_inv (snd (evaluate_watchdog fmt now h))"
  using watchdog_cases [of fmt now h "fst (evaluate_watchdog fmt now h)" "snd (evaluate_watchdog fmt now h)"]
  by (auto simp: relay_inv_def split: option.splits)

lemma relay_inv_accept:
  assumes "relay_inv h"
  shows "relay_inv (snd (accept_fault fault h))"
proof -
  have "\<exists>st. snd (accept_fault fault h) \<in> {h, h\<lparr>rh_active := None, rh_armed_at := None, rh_healthy_since := None, rh_state := st\<rparr>}"
    by (auto simp: accept_fault_def)
  with assms show ?thesis by (auto simp: relay_inv_def)
qed

lemma relay_op_inv:
  assumes "relay_inv h"
  shows "relay_inv (snd (begin_server_instance r h))"
    "relay_inv (loop_started i h)"
    "relay_inv (snd (loop_exited i b reason h))"
    "relay_inv (mark_listener_bound i h)"
    "relay_inv (mark_build_failed i reason b h)"
    "relay_inv (snd (schedule_recovery_attempt h))"
    "relay_inv (mark_recovery_in_progress h)"
    "relay_inv (mark_resolution_failed reason h)"
    "relay_inv (force_max_backoff h)"
    "relay_inv (snd (begin_data_generation i h))"
    "relay_inv (arm_first_buffer i d now h)"
    "relay_inv (disarm_first_buffer i d h)"
    "relay_inv (end_data_generation i d h)"
    "relay_inv (snd (observe_buffer i d now h))"
    "relay_inv (snd (report_streaming_without_buffer i d now h))"
    "relay_inv (snd (report_fault i d kind reason h))"
    "relay_inv (relay_stop h)"
  using assms by (auto simp: relay_inv_def relay_defs split: option.split)

lemma relay_step_inv: "relay_inv h \<Longrightarrow> relay_inv (relay_step fmt e h)"
  by (cases e) (simp_all add: relay_op_inv relay_inv_accept relay_inv_watchdog)

interpretation relay: guarded_machine "\<lambda>h. \<exists>g k. h = relay_health_new g k" "relay_step fmt" relay_inv for fmt
proof
  fix h assume "\<exists>g k. h = relay_health_new g k"
  then show "relay_inv h" by (auto simp: relay_health_new_def relay_inv_def)
qed (rule relay_step_inv)

section \<open>Late callbacks\<close>

lemma stale_instance_inert:
  "event_instance e = Some i \<Longrightarrow> rh_server_instance h \<noteq> i \<Longrightarrow> relay_step fmt e h = h"
  by (cases e) (auto simp: relay_defs)

lemma watchdog_instance [simp]: "rh_server_instance (snd (evaluate_watchdog fmt now h)) = rh_server_instance h"
  using watchdog_cases [of fmt now h "fst (evaluate_watchdog fmt now h)" "snd (evaluate_watchdog fmt now h)"] by simp

lemma step_instance:
  "rh_server_instance (relay_step fmt e h) = (if is_begin_server e then next_id (rh_server_instance h) else rh_server_instance h)"
  by (cases e) (auto simp: relay_defs split: option.splits)

lemma run_instance:
  "rh_server_instance (fold (relay_step fmt) es h) = (next_id ^^ length (filter is_begin_server es)) (rh_server_instance h)"
proof (induction es arbitrary: h)
  case (Cons e es)
  then show ?case by (simp add: step_instance funpow_swap1)
qed simp

lemma unat_next_id: "unat (next_id g) = (if unat g = 2 ^ 64 - 1 then 1 else unat g + 1)"
proof (cases "g = - 1")
  case True
  then show ?thesis by (simp add: next_id_def unsigned_minus_1_eq_mask mask_eq_exp_minus_1)
next
  case False
  then have "unat (g + 1) = unat g + 1" by (metis Suc_eq_plus1 add.commute unatSuc add_eq_0_iff2)
  moreover have "unat g \<noteq> 2 ^ 64 - 1"
  proof
    assume "unat g = 2 ^ 64 - 1"
    also have "\<dots> = unat (- 1 :: u64)" by (simp add: unsigned_minus_1_eq_mask mask_eq_exp_minus_1)
    finally show False using False by (simp add: word_unat_eq_iff)
  qed
  ultimately show ?thesis by (simp add: next_id_def max_def word_le_nat_alt)
qed

lemma next_id_pos:
  assumes "g \<noteq> 0"
  shows "(unat (next_id g) - 1) mod (2 ^ 64 - 1) = (unat g - 1 + 1) mod (2 ^ 64 - 1)"
  using assms unsigned_less [of g, where ?'a = nat] by (auto simp: unat_next_id) (metis Suc_pred unat_gt_0)

lemma next_id_iter:
  "g \<noteq> 0 \<Longrightarrow> (unat ((next_id ^^ n) g) - 1) mod (2 ^ 64 - 1) = (unat g - 1 + n) mod (2 ^ 64 - 1)"
proof (induction n)
  case (Suc n)
  have "(next_id ^^ n) g \<noteq> 0" using Suc.prems by (cases n) auto
  from next_id_pos [OF this] Suc show ?case by (simp add: mod_simps) (metis add_Suc_right mod_Suc_eq)
qed simp

lemma next_id_fresh:
  assumes "0 < n" "n < 2 ^ 64 - 1"
  shows "(next_id ^^ n) g \<noteq> g"
proof (cases "g = 0")
  case True
  with assms show ?thesis by (cases n) auto
next
  case False
  show ?thesis
  proof
    assume "(next_id ^^ n) g = g"
    then have "(unat g - 1 + n) mod (2 ^ 64 - 1) = (unat g - 1 + 0) mod (2 ^ 64 - 1)"
      using next_id_iter [OF False, of n] by simp
    then have "(2 ^ 64 - 1) dvd (unat g - 1 + n) - (unat g - 1 + 0)" by (rule mod_eq_dvd_iff_nat [THEN iffD1, rotated]) simp
    with assms show False by (auto dest: dvd_imp_le)
  qed
qed

section \<open>The first fault\<close>

definition keeps_fault :: "relay_event \<Rightarrow> bool" where
  "keeps_fault e \<longleftrightarrow> \<not> is_begin_server e \<and> e \<noteq> EvStop"

lemma faulted_step:
  assumes "rh_first_fault h = Some f" "keeps_fault e"
  shows "rh_first_fault (relay_step fmt e h) = Some f
    \<and> rh_state (relay_step fmt e h) \<in> {rh_state h, RelayRecovering, RelayFailed}"
proof (cases e)
  case (EvWatchdog now)
  with assms watchdog_cases [of fmt now h "fst (evaluate_watchdog fmt now h)" "snd (evaluate_watchdog fmt now h)"]
  show ?thesis by (auto split: option.splits)
qed (use assms in \<open>auto simp: relay_defs keeps_fault_def split: option.split\<close>)

lemma faulted_run:
  "rh_first_fault h = Some f \<Longrightarrow> list_all keeps_fault es \<Longrightarrow>
     rh_first_fault (fold (relay_step fmt) es h) = Some f
     \<and> rh_state (fold (relay_step fmt) es h) \<in> {rh_state h, RelayRecovering, RelayFailed}"
proof (induction es arbitrary: h)
  case (Cons e es)
  have e: "keeps_fault e" "list_all keeps_fault es" using Cons.prems(2) by simp_all
  from faulted_step [OF Cons.prems(1) e(1)]
  have step: "rh_first_fault (relay_step fmt e h) = Some f"
    "rh_state (relay_step fmt e h) \<in> {rh_state h, RelayRecovering, RelayFailed}" by blast+
  from Cons.IH [OF step(1) e(2)] step(2) show ?case by (simp only: fold_Cons comp_apply insert_iff empty_iff) metis
qed simp

section \<open>The watchdog\<close>

text \<open>Events that neither deliver a buffer nor replace the data pipeline.\<close>

fun silent :: "relay_event \<Rightarrow> bool" where
  "silent (EvBuffer _ _ _) = False"
| "silent (EvBeginData _) = False"
| "silent (EvEndData _ _) = False"
| "silent (EvBeginServer _) = False"
| "silent EvStop = False"
| "silent _ = True"

definition waiting :: "instant \<Rightarrow> relay_health \<Rightarrow> bool" where
  "waiting t h \<longleftrightarrow> rh_first_fault h \<noteq> None
     \<or> (rh_ingest h = IngestRtsp \<and> rh_active h \<noteq> None \<and> rh_last_buffer_at h = Some t)"

lemma silent_step:
  assumes "waiting t h" "silent e"
  shows "waiting t (relay_step fmt e h)"
proof (cases "rh_first_fault h")
  case (Some f)
  have "keeps_fault e" using assms(2) by (cases e) (auto simp: keeps_fault_def)
  from faulted_step [OF Some this] show ?thesis by (simp add: waiting_def)
next
  case None
  show ?thesis
  proof (cases e)
    case (EvWatchdog now)
    with None assms watchdog_cases [of fmt now h "fst (evaluate_watchdog fmt now h)" "snd (evaluate_watchdog fmt now h)"]
    show ?thesis by (auto simp: waiting_def split: option.splits)
  qed (use None assms in \<open>auto simp: relay_defs waiting_def split: option.split\<close>)
qed

lemma silent_run: "waiting t h \<Longrightarrow> list_all silent es \<Longrightarrow> waiting t (fold (relay_step fmt) es h)"
  by (induction es arbitrary: h) (auto intro: silent_step)

lemma waiting_watchdog:
  assumes "waiting t h" "t + STALL_CONFIRMATION \<le> now"
  shows "rh_first_fault (snd (evaluate_watchdog fmt now h)) \<noteq> None"
  using assms by (auto simp: evaluate_watchdog_def record_fault_locked_def waiting_def Let_def split: option.splits)

section \<open>Back-off\<close>

lemma sat_inc_le: "a \<le> sat_inc a"
  by (auto simp: sat_inc_def word_le_nat_alt) (metis add.commute le_Suc_eq unatSuc add_eq_0_iff2 order_refl)

lemma attempt_step:
  assumes "rh_recovery_attempt (relay_step fmt e h) < rh_recovery_attempt h"
  shows "\<exists>now since. e = EvWatchdog now \<and> rh_state h = Streaming \<and> rh_healthy_since h = Some since
    \<and> HEALTHY_RESET_WINDOW \<le> now - since"
proof (cases e)
  case (EvWatchdog now)
  with assms watchdog_cases [of fmt now h "fst (evaluate_watchdog fmt now h)" "snd (evaluate_watchdog fmt now h)"]
  show ?thesis by (auto simp: reset_backoff_def split: if_splits option.splits)
qed (use assms sat_inc_le [of "rh_recovery_attempt h"] in \<open>auto simp: relay_defs split: option.split_asm if_split_asm\<close>)

lemma attempt_run:
  "rh_recovery_attempt (fold (relay_step fmt) es h) < rh_recovery_attempt h \<Longrightarrow>
     \<exists>bs now cs since. es = bs @ EvWatchdog now # cs \<and> rh_state (fold (relay_step fmt) bs h) = Streaming
       \<and> rh_healthy_since (fold (relay_step fmt) bs h) = Some since \<and> HEALTHY_RESET_WINDOW \<le> now - since"
proof (induction es rule: rev_induct)
  case (snoc e es)
  let ?h = "fold (relay_step fmt) es h"
  show ?case
  proof (cases "rh_recovery_attempt ?h < rh_recovery_attempt h")
    case True
    from snoc.IH [OF this] show ?thesis by (metis append.assoc append_Cons)
  next
    case False
    then have "rh_recovery_attempt (relay_step fmt e ?h) < rh_recovery_attempt ?h" using snoc.prems by simp
    from attempt_step [OF this] show ?thesis by blast
  qed
qed simp

lemma recovery_delay_sorted: "sorted RECOVERY_DELAYS"
  by (simp add: RECOVERY_DELAYS_def)

lemma recovery_delay_mono: "a \<le> b \<Longrightarrow> recovery_delay a \<le> recovery_delay b"
  unfolding recovery_delay_def
  by (rule sorted_nth_mono [OF recovery_delay_sorted]) (auto simp: word_le_nat_alt RECOVERY_DELAYS_def)

lemma recovery_delay_le: "recovery_delay a \<le> 60000"
proof -
  have "recovery_delay a \<le> RECOVERY_DELAYS ! (length RECOVERY_DELAYS - 1)"
    unfolding recovery_delay_def by (rule sorted_nth_mono [OF recovery_delay_sorted]) (auto simp: RECOVERY_DELAYS_def)
  then show ?thesis by (simp add: RECOVERY_DELAYS_def)
qed

section \<open>The client address\<close>

text \<open>Percent decoding, as a client reads a query value.\<close>

fun query_decode :: "string \<Rightarrow> string option" where
  "query_decode [] = Some []"
| "query_decode (c # cs) =
     (if c = CHR ''%''
      then (case cs of
              a # b # ds \<Rightarrow>
                (case (to_digit 16 a, to_digit 16 b) of
                   (Some x, Some y) \<Rightarrow> map_option ((#) (char_of (16 * x + y))) (query_decode ds)
                 | _ \<Rightarrow> None)
            | _ \<Rightarrow> None)
      else map_option ((#) c) (query_decode cs))"

lemma to_digit_hex_upper: "d < 16 \<Longrightarrow> to_digit 16 (hex_upper d) = Some d"
  by (auto simp: to_digit_def hex_upper_def Let_def)

lemma high_nibble [simp]: "(of_char c :: nat) div 16 < 16"
  by (rule less_mult_imp_div_less) simp

lemma query_decode_byte: "query_decode (encode_byte c @ s) = map_option ((#) c) (query_decode s)"
proof (cases "unreserved c")
  case True
  then have "c \<noteq> CHR ''%''" by (auto simp: unreserved_def)
  with True show ?thesis by (simp add: encode_byte_def)
next
  case False
  let ?n = "of_char c :: nat"
  have "to_digit 16 (hex_upper (?n div 16)) = Some (?n div 16)" "to_digit 16 (hex_upper (?n mod 16)) = Some (?n mod 16)"
    by (simp_all add: to_digit_hex_upper)
  with False show ?thesis by (simp add: encode_byte_def)
qed

lemma hex_upper_unreserved: "d < 16 \<Longrightarrow> unreserved (hex_upper d)"
  by (auto simp: unreserved_def hex_upper_def Let_def)

lemma encode_byte_safe: "c' \<in> set (encode_byte c) \<Longrightarrow> unreserved c' \<or> c' = CHR ''%''"
  by (auto simp: encode_byte_def hex_upper_unreserved split: if_splits)

section \<open>Properties\<close>

text \<open>C13: a listener that was replaced cannot touch the health of its successors: through any events
  with at least one and fewer than \<open>2\<^sup>6\<^sup>4 - 1\<close> replacements, every callback that carries the old
  instance changes nothing, and the rules of the health record hold.\<close>

theorem late_callbacks_are_inert:
  assumes "h = fold (relay_step fmt) before (relay_health_new g k)"
    and "0 < length (filter is_begin_server es)" "length (filter is_begin_server es) < 2 ^ 64 - 1"
    and "event_instance e = Some (rh_server_instance h)"
  shows "relay_step fmt e (fold (relay_step fmt) es h) = fold (relay_step fmt) es h
    \<and> relay_inv (fold (relay_step fmt) es h)"
proof -
  have "rh_server_instance (fold (relay_step fmt) es h) \<noteq> rh_server_instance h"
    unfolding run_instance by (rule next_id_fresh [OF assms(2,3)])
  from stale_instance_inert [OF assms(4) this] have "relay_step fmt e (fold (relay_step fmt) es h) = fold (relay_step fmt) es h" .
  moreover have "relay_inv (fold (relay_step fmt) (before @ es) (relay_health_new g k))" by (rule relay.reach_inv) blast
  ultimately show ?thesis by (simp add: assms(1))
qed

theorem late_callbacks_are_inert_witness:
  "let h = fold (relay_step (\<lambda>_. [])) [EvBeginServer False, EvBeginData 1] (relay_health_new 1 IngestRtsp);
       h' = fold (relay_step (\<lambda>_. [])) [EvBeginServer True] h
   in relay_step (\<lambda>_. []) (EvBuffer 1 1 5) h' = h' \<and> snd (observe_buffer 1 1 5 h) \<noteq> h"
proof -
  let ?h = "fold (relay_step (\<lambda>_. [])) [EvBeginServer False, EvBeginData 1] (relay_health_new 1 IngestRtsp)"
  have i: "rh_server_instance ?h = 1" by code_simp
  have "snd (observe_buffer 1 1 5 ?h) \<noteq> ?h" by code_simp
  moreover have "relay_step (\<lambda>_. []) (EvBuffer 1 1 5) (fold (relay_step (\<lambda>_. [])) [EvBeginServer True] ?h)
      = fold (relay_step (\<lambda>_. [])) [EvBeginServer True] ?h"
    by (rule conjunct1 [OF late_callbacks_are_inert [OF refl]]) (simp_all only: i, simp_all)
  ultimately show ?thesis by (simp only: Let_def simp_thms)
qed





text \<open>C38: recovery never hammers and never waits for ever: delays grow with the attempt and stay within
  a minute, and over any events the attempt count falls only at a watchdog tick after thirty
  seconds of healthy streaming.\<close>

theorem backoff_is_disciplined:
  assumes "rh_recovery_attempt (fold (relay_step fmt) es h) < rh_recovery_attempt h"
  shows "recovery_delay (rh_recovery_attempt (fold (relay_step fmt) es h)) \<le> recovery_delay (rh_recovery_attempt h)
    \<and> recovery_delay (rh_recovery_attempt h) \<le> 60000
    \<and> (\<exists>bs now cs since. es = bs @ EvWatchdog now # cs \<and> rh_state (fold (relay_step fmt) bs h) = Streaming
       \<and> rh_healthy_since (fold (relay_step fmt) bs h) = Some since \<and> HEALTHY_RESET_WINDOW \<le> now - since)"
  using attempt_run [OF assms] recovery_delay_mono [OF order_less_imp_le [OF assms]] recovery_delay_le by blast

theorem backoff_is_disciplined_witness:
  "recovery_delay (rh_recovery_attempt (fold (relay_step (\<lambda>_. [])) [EvSchedule, EvSchedule] (relay_health_new 1 IngestRtsp))) \<le> 60000"
proof -
  let ?h = "fold (relay_step (\<lambda>_. [])) [EvSchedule, EvSchedule] (relay_health_new 1 IngestRtsp)"
  have "rh_recovery_attempt (fold (relay_step (\<lambda>_. [])) [EvBeginServer True, EvBeginData 1, EvBuffer 1 1 7, EvWatchdog 30007] ?h)
      < rh_recovery_attempt ?h"
    by (simp add: relay_defs relay_health_new_def evaluate_watchdog_def reset_backoff_def next_id_def sat_inc_def
        HEALTHY_RESET_WINDOW_def STALL_WINDOW_def STALL_CONFIRMATION_def max_def)
  from backoff_is_disciplined [OF this] show ?thesis by blast
qed

text \<open>C40: the stream identifier survives the client address: percent decoding the query value gives
  it back, and the encoding contains only unreserved characters and percent signs, so it cannot
  end the query or add a parameter.\<close>

theorem stream_id_roundtrip:
  "query_decode (encode_query_value s) = Some s \<and> list_all (\<lambda>c. unreserved c \<or> c = CHR ''%'') (encode_query_value s)"
proof (induction s)
  case (Cons c s)
  have "encode_query_value (c # s) = encode_byte c @ encode_query_value s" by (simp add: encode_query_value_def)
  moreover have "list_all (\<lambda>c. unreserved c \<or> c = CHR ''%'') (encode_byte c)"
    using encode_byte_safe by (auto simp: list_all_iff)
  ultimately show ?case using Cons query_decode_byte [of c "encode_query_value s"] by simp
qed (simp add: encode_query_value_def)

end
