(* ===== verification/Playback_Health.thy ===== *)
theory Playback_Health
  imports Relay_Laws
begin

text \<open>
  The health record of the preview (\<open>PlaybackHealth\<close> in \<open>streaming/relay.rs\<close>): one attempt at a time,
  retired by its first fault, retried on a growing delay. Callbacks of the media threads, the
  supervisor and the user commands each take the record's lock, so every interleaving is a sequence
  of the operations below; the watchdog takes the lock twice and is two of them.
\<close>

section \<open>Data\<close>

datatype playback_state = PbStopped | PbStarting | PbPlaying | PbRecovering | PbFailed

datatype playback_fault_kind = BusError | PbEos | FirstFrameTimeout | FrameStall | DeviceLoss | PbConfiguration

record playback_fault =
  pf_kind :: playback_fault_kind
  pf_domain :: "string option"
  pf_code :: "int option"
  pf_reason :: string
  pf_retryable :: bool

definition playback_fault_new :: "playback_fault_kind \<Rightarrow> string \<Rightarrow> bool \<Rightarrow> playback_fault" where
  "playback_fault_new kind reason retryable =
     \<lparr>pf_kind = kind, pf_domain = None, pf_code = None, pf_reason = reason, pf_retryable = retryable\<rparr>"

record playback_health =
  ph_state :: playback_state
  ph_generation :: u64
  ph_active :: bool
  ph_first_fault :: "playback_fault option"
  ph_fault :: "playback_fault option"
  ph_started :: "instant option"
  ph_last_buffer :: "instant option"
  ph_healthy_since :: "instant option"
  ph_attempt :: u32
  ph_next_retry :: "instant option"

record playback_snapshot =
  pn_state :: playback_state
  pn_fault :: "playback_fault option"
  pn_attempt :: u32
  pn_next_retry_secs :: "nat option"
  pn_generation :: u64
  pn_active :: bool

section \<open>Operations\<close>

definition playback_health_new :: "instant \<Rightarrow> playback_health" where
  "playback_health_new now = \<lparr>ph_state = PbStarting, ph_generation = 0, ph_active = False, ph_first_fault = None,
     ph_fault = None, ph_started = None, ph_last_buffer = None, ph_healthy_since = None, ph_attempt = 0,
     ph_next_retry = Some now\<rparr>"

definition playback_snapshot_of :: "instant \<Rightarrow> playback_health \<Rightarrow> playback_snapshot" where
  "playback_snapshot_of now h = \<lparr>pn_state = ph_state h, pn_fault = ph_fault h, pn_attempt = ph_attempt h,
     pn_next_retry_secs = map_option (\<lambda>t. let d = t - now in d div 1000 + (if d mod 1000 \<noteq> 0 then 1 else 0)) (ph_next_retry h),
     pn_generation = ph_generation h, pn_active = ph_active h\<rparr>"

definition playback_due :: "instant \<Rightarrow> playback_health \<Rightarrow> bool" where
  "playback_due now h \<longleftrightarrow> (case ph_next_retry h of None \<Rightarrow> False | Some t \<Rightarrow> t \<le> now)"

definition begin_attempt :: "playback_health \<Rightarrow> u64 \<times> playback_health" where
  "begin_attempt h =
     (let g = next_id (ph_generation h)
      in (g, h\<lparr>ph_generation := g, ph_active := True, ph_first_fault := None, ph_started := None,
               ph_last_buffer := None, ph_healthy_since := None, ph_next_retry := None\<rparr>))"

definition pipeline_started :: "u64 \<Rightarrow> instant \<Rightarrow> playback_health \<Rightarrow> playback_health" where
  "pipeline_started g now h = (if ph_active h \<and> ph_generation h = g then h\<lparr>ph_started := Some now\<rparr> else h)"

definition observe_frame :: "u64 \<Rightarrow> instant \<Rightarrow> playback_health \<Rightarrow> bool \<times> playback_health" where
  "observe_frame g now h =
     (if \<not> ph_active h \<or> ph_generation h \<noteq> g then (False, h)
      else
        let since = (case ph_last_buffer h of
                       Some seen \<Rightarrow> if 3000 \<le> now - seen then None else ph_healthy_since h
                     | None \<Rightarrow> ph_healthy_since h)
        in (True, h\<lparr>ph_last_buffer := Some now,
              ph_healthy_since := (case since of None \<Rightarrow> Some now | Some t \<Rightarrow> Some t),
              ph_state := PbPlaying, ph_fault := None\<rparr>))"

definition record_playback_fault :: "u64 \<Rightarrow> playback_fault \<Rightarrow> playback_health \<Rightarrow> bool \<times> playback_health" where
  "record_playback_fault g fault h =
     (if \<not> ph_active h \<or> ph_generation h \<noteq> g then (False, h)
      else (True, h\<lparr>ph_active := False, ph_first_fault := Some fault,
              ph_state := (if pf_retryable fault then PbRecovering else PbFailed),
              ph_fault := Some fault, ph_healthy_since := None, ph_next_retry := None\<rparr>))"

text \<open>The first of the two lock sections of the watchdog: the verdict and, when it was reached for a
  running attempt, the generation it is about.\<close>

definition watchdog_verdict :: "instant \<Rightarrow> instant \<Rightarrow> playback_health \<Rightarrow> playback_fault option" where
  "watchdog_verdict now stall h =
     (case ph_last_buffer h of
        Some seen \<Rightarrow>
          if stall \<le> now - seen then Some (playback_fault_new FrameStall ''No usable frames for 3 seconds'' True) else None
      | None \<Rightarrow>
          (case ph_started h of
             Some t \<Rightarrow>
               if FIRST_BUFFER_TIMEOUT \<le> now - t
               then Some (playback_fault_new FirstFrameTimeout ''No first frame within 15 seconds'' True) else None
           | None \<Rightarrow> None))"

definition watchdog_check ::
    "instant \<Rightarrow> instant \<Rightarrow> playback_health \<Rightarrow> (playback_fault option \<times> u64 option) \<times> playback_health" where
  "watchdog_check now stall h =
     (case ph_first_fault h of
        Some fault \<Rightarrow> ((Some fault, None), h)
      | None \<Rightarrow>
          if \<not> ph_active h then ((None, None), h)
          else
            let fault = watchdog_verdict now stall h;
                healthy = (case ph_healthy_since h of None \<Rightarrow> False | Some t \<Rightarrow> HEALTHY_RESET_WINDOW \<le> now - t)
            in ((fault, Some (ph_generation h)), if fault = None \<and> healthy then h\<lparr>ph_attempt := 0\<rparr> else h))"

definition playback_watchdog :: "instant \<Rightarrow> instant \<Rightarrow> playback_health \<Rightarrow> playback_fault option \<times> playback_health" where
  "playback_watchdog now stall h =
     (let ((fault, generation), h') = watchdog_check now stall h
      in (fault, case (fault, generation) of
                   (Some f, Some g) \<Rightarrow> snd (record_playback_fault g f h')
                 | _ \<Rightarrow> h'))"

definition schedule_recovery :: "instant \<Rightarrow> playback_health \<Rightarrow> playback_health" where
  "schedule_recovery now h =
     (if ph_state h \<noteq> PbRecovering \<or> ph_next_retry h \<noteq> None then h
      else
        let attempt = sat_inc (ph_attempt h)
        in h\<lparr>ph_attempt := attempt, ph_next_retry := Some (now + recovery_delay attempt)\<rparr>)"

definition wake_ready :: "instant \<Rightarrow> playback_health \<Rightarrow> playback_health" where
  "wake_ready now h =
     (if ph_state h = PbRecovering \<and> ph_next_retry h \<noteq> None then h\<lparr>ph_next_retry := Some now\<rparr> else h)"

definition retry :: "instant \<Rightarrow> playback_health \<Rightarrow> playback_health" where
  "retry now h =
     (if ph_state h \<in> {PbFailed, PbRecovering}
      then h\<lparr>ph_state := PbRecovering, ph_active := False, ph_next_retry := Some now, ph_first_fault := None\<rparr>
      else h)"

definition playback_stop :: "playback_health \<Rightarrow> playback_health" where
  "playback_stop h = h\<lparr>ph_active := False, ph_state := PbStopped, ph_next_retry := None, ph_first_fault := None\<rparr>"

section \<open>Events\<close>

datatype playback_event =
    PbBegin
  | PbPipeline u64 instant
  | PbFrame u64 instant
  | PbFault u64 playback_fault
  | PbCheck instant instant
  | PbSchedule instant
  | PbWake instant
  | PbRetry instant
  | PbStop

text \<open>The supervisor schedules a recovery only when no attempt is running, and it alone begins attempts.\<close>

fun playback_event_step :: "playback_event \<Rightarrow> playback_health \<Rightarrow> playback_health" where
  "playback_event_step PbBegin h = snd (begin_attempt h)"
| "playback_event_step (PbPipeline g now) h = pipeline_started g now h"
| "playback_event_step (PbFrame g now) h = snd (observe_frame g now h)"
| "playback_event_step (PbFault g fault) h = snd (record_playback_fault g fault h)"
| "playback_event_step (PbCheck now stall) h = snd (watchdog_check now stall h)"
| "playback_event_step (PbSchedule now) h = (if ph_active h then h else schedule_recovery now h)"
| "playback_event_step (PbWake now) h = wake_ready now h"
| "playback_event_step (PbRetry now) h = retry now h"
| "playback_event_step PbStop h = playback_stop h"

fun frame_generation :: "playback_event \<Rightarrow> u64 option" where
  "frame_generation (PbPipeline g _) = Some g"
| "frame_generation (PbFrame g _) = Some g"
| "frame_generation (PbFault g _) = Some g"
| "frame_generation _ = None"

lemmas playback_defs = begin_attempt_def pipeline_started_def observe_frame_def record_playback_fault_def
  schedule_recovery_def wake_ready_def retry_def playback_stop_def Let_def

text \<open>A check of the watchdog resets at most the attempt count.\<close>

lemma watchdog_check_state:
  "snd (watchdog_check now stall h) = h \<or>
     (snd (watchdog_check now stall h) = h\<lparr>ph_attempt := 0\<rparr>
      \<and> (\<exists>t. ph_healthy_since h = Some t \<and> HEALTHY_RESET_WINDOW \<le> now - t) \<and> ph_active h)"
  by (auto simp: watchdog_check_def Let_def split: option.splits)

text \<open>The watchdog is its two sections in sequence.\<close>

lemma watchdog_two_sections:
  "\<exists>es. snd (playback_watchdog now stall h) = fold playback_event_step (PbCheck now stall # es) h
     \<and> (es = [] \<or> (\<exists>f. es = [PbFault (ph_generation h) f]))"
proof -
  obtain fault generation h' where c: "watchdog_check now stall h = ((fault, generation), h')" by (metis surj_pair)
  then have g: "generation = None \<or> generation = Some (ph_generation h)"
    by (auto simp: watchdog_check_def Let_def split: option.splits if_splits)
  show ?thesis
  proof (cases "fault = None \<or> generation = None")
    case True
    with c have "snd (playback_watchdog now stall h) = fold playback_event_step [PbCheck now stall] h"
      by (auto simp: playback_watchdog_def split: option.splits)
    then show ?thesis by blast
  next
    case False
    then obtain f where "fault = Some f" by (cases fault) auto
    with c g False have "snd (playback_watchdog now stall h) = fold playback_event_step [PbCheck now stall, PbFault (ph_generation h) f] h"
      by (auto simp: playback_watchdog_def)
    then show ?thesis by blast
  qed
qed

section \<open>Invariant\<close>

text \<open>Only a starting or recovering preview has a retry time; a healthy interval belongs to an attempt
  that saw a frame.\<close>

definition playback_inv :: "playback_health \<Rightarrow> bool" where
  "playback_inv h \<longleftrightarrow> (ph_next_retry h \<noteq> None \<longrightarrow> ph_state h \<in> {PbStarting, PbRecovering} \<and> \<not> ph_active h)
     \<and> (ph_first_fault h \<noteq> None \<longrightarrow> \<not> ph_active h \<and> ph_state h \<in> {PbRecovering, PbFailed})
     \<and> (ph_active h \<longrightarrow> ph_generation h \<noteq> 0)
     \<and> (ph_healthy_since h \<noteq> None \<longrightarrow> ph_last_buffer h \<noteq> None)"

lemma playback_inv_attempt [simp]: "playback_inv (h\<lparr>ph_attempt := n\<rparr>) = playback_inv h"
  by (simp add: playback_inv_def)

lemma playback_step_inv: "playback_inv h \<Longrightarrow> playback_inv (playback_event_step e h)"
proof (cases e)
  case (PbCheck now stall)
  assume "playback_inv h"
  with PbCheck watchdog_check_state [of now stall h] show ?thesis by auto
qed (auto simp: playback_inv_def playback_defs split: option.splits if_splits)

interpretation playback: guarded_machine "\<lambda>h. \<exists>t. h = playback_health_new t" playback_event_step playback_inv
proof
  fix h assume "\<exists>t. h = playback_health_new t"
  then show "playback_inv h" by (auto simp: playback_health_new_def playback_inv_def)
qed (rule playback_step_inv)

section \<open>Generations\<close>

lemma playback_generation_step:
  "ph_generation (playback_event_step e h) = (if e = PbBegin then next_id (ph_generation h) else ph_generation h)"
proof (cases e)
  case (PbCheck now stall)
  with watchdog_check_state [of now stall h] show ?thesis by auto
qed (auto simp: playback_defs split: option.splits)

lemma playback_generation_run:
  "ph_generation (fold playback_event_step es h) = (next_id ^^ count_list es PbBegin) (ph_generation h)"
proof (induction es arbitrary: h)
  case (Cons e es)
  then show ?case by (simp add: playback_generation_step funpow_swap1)
qed simp

lemma stale_frame_inert:
  "frame_generation e = Some g \<Longrightarrow> ph_generation h \<noteq> g \<Longrightarrow> playback_event_step e h = h"
  by (cases e) (auto simp: playback_defs)

section \<open>Retirement\<close>

lemma retired_step:
  assumes "\<not> ph_active h" "e \<noteq> PbBegin"
  shows "\<not> ph_active (playback_event_step e h)
    \<and> (ph_state h \<noteq> PbPlaying \<longrightarrow> ph_state (playback_event_step e h) \<noteq> PbPlaying)"
proof (cases e)
  case (PbCheck now stall)
  with assms watchdog_check_state [of now stall h] show ?thesis by auto
qed (use assms in \<open>auto simp: playback_defs split: option.splits\<close>)

lemma retired_run:
  "\<not> ph_active h \<Longrightarrow> PbBegin \<notin> set es \<Longrightarrow>
     \<not> ph_active (fold playback_event_step es h)
     \<and> (ph_state h \<noteq> PbPlaying \<longrightarrow> ph_state (fold playback_event_step es h) \<noteq> PbPlaying)"
proof (induction es arbitrary: h)
  case (Cons e es)
  have e: "e \<noteq> PbBegin" "PbBegin \<notin> set es" using Cons.prems(2) by auto
  note step = retired_step [OF Cons.prems(1) e(1)]
  with Cons.IH [OF conjunct1 [OF step] e(2)] show ?case by simp
qed simp

text \<open>Events that are neither a new attempt nor the user's retry.\<close>

definition unprompted :: "playback_event \<Rightarrow> bool" where
  "unprompted e \<longleftrightarrow> e \<noteq> PbBegin \<and> (\<forall>now. e \<noteq> PbRetry now)"

definition given_up :: "playback_health \<Rightarrow> bool" where
  "given_up h \<longleftrightarrow> ph_state h \<in> {PbFailed, PbStopped} \<and> \<not> ph_active h \<and> ph_next_retry h = None"

lemma given_up_step:
  assumes "given_up h" "unprompted e"
  shows "given_up (playback_event_step e h) \<and> ph_attempt (playback_event_step e h) = ph_attempt h"
proof (cases e)
  case (PbCheck now stall)
  with assms watchdog_check_state [of now stall h] show ?thesis by (auto simp: given_up_def)
qed (use assms in \<open>auto simp: given_up_def unprompted_def playback_defs split: option.splits\<close>)

lemma given_up_run:
  "given_up h \<Longrightarrow> list_all unprompted es \<Longrightarrow>
     given_up (fold playback_event_step es h) \<and> ph_attempt (fold playback_event_step es h) = ph_attempt h"
proof (induction es arbitrary: h)
  case (Cons e es)
  have e: "unprompted e" "list_all unprompted es" using Cons.prems(2) by simp_all
  note step = given_up_step [OF Cons.prems(1) e(1)]
  with Cons.IH [OF conjunct1 [OF step] e(2)] show ?case by simp
qed simp

section \<open>Watchdog\<close>

text \<open>The last sign of life of an attempt, and the time it may stay silent after it.\<close>

definition silent_since :: "instant \<Rightarrow> playback_health \<Rightarrow> (instant \<times> instant) option" where
  "silent_since stall h =
     (case ph_last_buffer h of
        Some t \<Rightarrow> Some (t, stall)
      | None \<Rightarrow> map_option (\<lambda>t. (t, FIRST_BUFFER_TIMEOUT)) (ph_started h))"

lemma watchdog_verdict_iff:
  "watchdog_verdict now stall h \<noteq> None \<longleftrightarrow> (case silent_since stall h of None \<Rightarrow> False | Some (t, d) \<Rightarrow> d \<le> now - t)"
  by (auto simp: watchdog_verdict_def silent_since_def split: option.splits)

lemma watchdog_verdict_retryable: "watchdog_verdict now stall h = Some f \<Longrightarrow> pf_retryable f"
  by (auto simp: watchdog_verdict_def playback_fault_new_def split: option.splits if_splits)

lemma running_watchdog:
  assumes "ph_first_fault h = None" "ph_active h"
  shows "fst (playback_watchdog now stall h) = watchdog_verdict now stall h"
    and "watchdog_verdict now stall h = Some f \<Longrightarrow> snd (playback_watchdog now stall h) = snd (record_playback_fault (ph_generation h) f h)"
    and "watchdog_verdict now stall h = None \<Longrightarrow> snd (playback_watchdog now stall h) \<in> {h, h\<lparr>ph_attempt := 0\<rparr>}"
  using assms by (auto simp: playback_watchdog_def watchdog_check_def Let_def split: option.splits)

section \<open>Properties\<close>

text \<open>C16: a retired preview attempt cannot come back: once an attempt is inactive, then whatever events
  follow short of a new attempt, no frame is accepted, no fault replaces the first one, and a
  preview that was not playing does not become so; and through any events with at least one and
  fewer than \<open>2\<^sup>6\<^sup>4 - 1\<close> new attempts, every callback that carries the old generation changes nothing.\<close>

theorem retired_attempt_stays_retired:
  assumes "\<not> ph_active h" "PbBegin \<notin> set es" "0 < count_list ns PbBegin" "count_list ns PbBegin < 2 ^ 64 - 1"
    and "frame_generation e = Some (ph_generation h)"
  shows "let h' = fold playback_event_step es h
     in \<not> fst (observe_frame g now h') \<and> \<not> fst (record_playback_fault g fault h')
       \<and> (ph_state h \<noteq> PbPlaying \<longrightarrow> ph_state h' \<noteq> PbPlaying)
       \<and> playback_event_step e (fold playback_event_step ns h) = fold playback_event_step ns h"
proof -
  note r = retired_run [OF assms(1,2)]
  have "ph_generation (fold playback_event_step ns h) \<noteq> ph_generation h"
    unfolding playback_generation_run by (rule next_id_fresh [OF assms(3,4)])
  from stale_frame_inert [OF assms(5) this] r show ?thesis
    by (simp add: observe_frame_def record_playback_fault_def Let_def)
qed

theorem retired_attempt_stays_retired_witness:
  "let h = snd (record_playback_fault 1 (playback_fault_new PbEos ''eos'' True) (snd (begin_attempt (playback_health_new 0))))
   in \<not> fst (observe_frame 1 9 (fold playback_event_step [PbFrame 1 8, PbSchedule 8] h))
     \<and> playback_event_step (PbFrame 1 9) (fold playback_event_step [PbBegin] h) = fold playback_event_step [PbBegin] h"
proof -
  let ?h = "snd (record_playback_fault 1 (playback_fault_new PbEos ''eos'' True) (snd (begin_attempt (playback_health_new 0))))"
  have h: "\<not> ph_active ?h" "frame_generation (PbFrame 1 9) = Some (ph_generation ?h)" by code_simp+
  show ?thesis
    using retired_attempt_stays_retired [OF h(1) _ _ _ h(2), of "[PbFrame 1 8, PbSchedule 8]" "[PbBegin]" 1 9]
    by (simp only: Let_def) simp
qed

text \<open>C17: a preview that failed for good waits for the user: after a fault that is not retryable,
  whatever events follow short of the user's retry and a new attempt, it is never due for a new
  attempt, stays failed or stopped and counts no further attempt; the user's retry makes it due.\<close>

theorem permanent_failure_waits_for_retry:
  assumes "ph_active h" "ph_generation h = g" "\<not> pf_retryable fault" "list_all unprompted es"
    and "h' = fold playback_event_step es (snd (record_playback_fault g fault h))"
  shows "\<not> playback_due now h' \<and> ph_state h' \<in> {PbFailed, PbStopped} \<and> ph_attempt h' = ph_attempt h
    \<and> (ph_state h' = PbFailed \<longrightarrow> playback_due now (retry now h') \<and> ph_state (retry now h') = PbRecovering)"
proof -
  let ?f = "snd (record_playback_fault g fault h)"
  have "given_up ?f" "ph_attempt ?f = ph_attempt h"
    using assms(1-3) by (simp_all add: record_playback_fault_def given_up_def)
  from given_up_run [OF this(1) assms(4)] this(2)
  have "given_up h'" "ph_attempt h' = ph_attempt h" by (simp_all add: assms(5))
  then show ?thesis by (auto simp: given_up_def playback_due_def retry_def)
qed

theorem permanent_failure_waits_for_retry_witness:
  "\<not> playback_due 99 (fold playback_event_step [PbWake 7, PbSchedule 8, PbFrame 1 9]
     (snd (record_playback_fault 1 (playback_fault_new PbConfiguration ''c'' False) (snd (begin_attempt (playback_health_new 0))))))"
proof -
  let ?h = "snd (begin_attempt (playback_health_new 0))"
  have "ph_active ?h" "ph_generation ?h = 1" "\<not> pf_retryable (playback_fault_new PbConfiguration ''c'' False)" by code_simp+
  from permanent_failure_waits_for_retry [OF this, of "[PbWake 7, PbSchedule 8, PbFrame 1 9]", OF _ refl, of 99]
  show ?thesis by (simp add: unprompted_def del: fold_simps)
qed

text \<open>C18: the preview watchdog fires exactly when it should: on a running attempt it reports a fault if
  and only if the last frame is as old as the stall limit, or the pipeline has been running for
  fifteen seconds without a first frame; the fault retires the attempt, is retryable, and the
  recovery it schedules is due after the delay of its attempt, at most a minute later.\<close>

theorem preview_watchdog_exact:
  assumes "ph_first_fault h = None" "ph_active h" "h' = snd (playback_watchdog now stall h)"
  shows "(fst (playback_watchdog now stall h) \<noteq> None \<longleftrightarrow>
        (case silent_since stall h of None \<Rightarrow> False | Some (t, d) \<Rightarrow> d \<le> now - t))
    \<and> (fst (playback_watchdog now stall h) = None \<longrightarrow> ph_active h' \<and> ph_state h' = ph_state h)
    \<and> (\<forall>f. fst (playback_watchdog now stall h) = Some f \<longrightarrow> ph_first_fault h' = Some f \<and> \<not> ph_active h' \<and>
        ph_state h' = PbRecovering \<and>
        (\<exists>t. ph_next_retry (schedule_recovery now h') = Some t \<and> t = now + recovery_delay (sat_inc (ph_attempt h)) \<and>
          t \<le> now + 60000 \<and> playback_due t (schedule_recovery now h')))"
proof -
  note w = running_watchdog [OF assms(1,2), of now stall]
  have silent: "fst (playback_watchdog now stall h) \<noteq> None \<longleftrightarrow>
      (case silent_since stall h of None \<Rightarrow> False | Some (t, d) \<Rightarrow> d \<le> now - t)"
    unfolding w(1) by (rule watchdog_verdict_iff)
  have none: "fst (playback_watchdog now stall h) = None \<longrightarrow> ph_active h' \<and> ph_state h' = ph_state h"
    using w(3) assms by (auto simp: w(1))
  have some: "ph_first_fault h' = Some f \<and> \<not> ph_active h' \<and> ph_state h' = PbRecovering \<and>
        (\<exists>t. ph_next_retry (schedule_recovery now h') = Some t \<and> t = now + recovery_delay (sat_inc (ph_attempt h)) \<and>
          t \<le> now + 60000 \<and> playback_due t (schedule_recovery now h'))"
    if "fst (playback_watchdog now stall h) = Some f" for f
  proof -
    have v: "watchdog_verdict now stall h = Some f" using that w(1) by simp
    from w(2) [OF v] have "h' = snd (record_playback_fault (ph_generation h) f h)" by (simp add: assms(3))
    with watchdog_verdict_retryable [OF v] assms(2) recovery_delay_le [of "sat_inc (ph_attempt h)"] show ?thesis
      by (simp add: record_playback_fault_def schedule_recovery_def playback_due_def Let_def)
  qed
  from silent none some show ?thesis by blast
qed

theorem preview_watchdog_exact_witness:
  "fst (playback_watchdog 3005 3000 (snd (observe_frame 1 5 (snd (begin_attempt (playback_health_new 0)))))) \<noteq> None"
proof -
  let ?h = "snd (observe_frame 1 5 (snd (begin_attempt (playback_health_new 0))))"
  have "ph_first_fault ?h = None" "ph_active ?h" "ph_last_buffer ?h = Some 5" by code_simp+
  with conjunct1 [OF preview_watchdog_exact [OF this(1,2) refl, of 3005 3000]] show ?thesis
    by (simp add: silent_since_def)
qed

end
