(* ===== verification/Tasks.thy ===== *)
theory Tasks
  imports Prelude
begin

text \<open>
  Asynchronous tasks over a shared state. A task is a sequence of atomic sections (what the code does
  between two points where other tasks may run: a lock scope, an atomic operation, the completion
  of an awaited call); every section sees the current state and an answer of the outside world. A
  section that waits for a lock is not enabled while the lock is taken. The scheduler interleaves
  tasks in any order, starts new ones at any time, and may drop a task between two sections, which
  releases what it holds. The locale \<open>task_system\<close> is the contract between a service and this
  scheduler: an invariant and, for each task, what its sections may change, so that the sections of
  one task can be verified without looking at the others.
\<close>

section \<open>Programs\<close>

datatype ('e, 's, 'a) prog =
    Ret 'a
  | Act "'e \<Rightarrow> 's \<Rightarrow> ('s \<times> ('e, 's, 'a) prog) option"

primrec prog_bind :: "('e, 's, 'a) prog \<Rightarrow> ('a \<Rightarrow> ('e, 's, 'b) prog) \<Rightarrow> ('e, 's, 'b) prog" where
  "prog_bind (Ret x) k = k x"
| "prog_bind (Act f) k = Act (\<lambda>e s. map_option (map_prod id (\<lambda>p. prog_bind p k)) (f e s))"

text \<open>One atomic section: with an answer of the world, on the state alone, as a pure answer, as an
  update, and as a section that waits until it is enabled.\<close>

definition perform :: "('e \<Rightarrow> 's \<Rightarrow> 'a \<times> 's) \<Rightarrow> ('e, 's, 'a) prog" where
  "perform f = Act (\<lambda>e s. Some (snd (f e s), Ret (fst (f e s))))"

definition atomically :: "('s \<Rightarrow> 'a \<times> 's) \<Rightarrow> ('e, 's, 'a) prog" where
  "atomically f = perform (\<lambda>_. f)"

definition ask :: "('e \<Rightarrow> 'a) \<Rightarrow> ('e, 's, 'a) prog" where
  "ask g = perform (\<lambda>e s. (g e, s))"

definition look :: "('s \<Rightarrow> 'a) \<Rightarrow> ('e, 's, 'a) prog" where
  "look g = perform (\<lambda>_ s. (g s, s))"

definition modify :: "('s \<Rightarrow> 's) \<Rightarrow> ('e, 's, unit) prog" where
  "modify f = perform (\<lambda>_ s. ((), f s))"

definition await :: "('s \<Rightarrow> bool) \<Rightarrow> ('s \<Rightarrow> 's) \<Rightarrow> ('e, 's, unit) prog" where
  "await g f = Act (\<lambda>_ s. if g s then Some (f s, Ret ()) else None)"

lemma prog_bind_simps [simp]:
  "prog_bind (perform f) k = Act (\<lambda>e s. Some (snd (f e s), k (fst (f e s))))"
  "prog_bind (await g h) k = Act (\<lambda>_ s. if g s then Some (h s, k ()) else None)"
  by (auto simp: perform_def await_def fun_eq_iff)

lemma prog_bind_assoc: "prog_bind (prog_bind p k) l = prog_bind p (\<lambda>x. prog_bind (k x) l)"
proof (induction p)
  case (Act f)
  have "map_option (map_prod id (\<lambda>p. prog_bind p l)) (map_option (map_prod id (\<lambda>p. prog_bind p k)) (f e s))
      = map_option (map_prod id (\<lambda>p. prog_bind p (\<lambda>x. prog_bind (k x) l))) (f e s)" for e s
  proof (cases "f e s")
    case (Some r)
    have "f e \<in> range f" "Some r \<in> range (f e)" using Some [symmetric] by auto
    from Act.IH [OF this, of r "snd r"] Some show ?thesis by (cases r) simp
  qed simp
  then show ?case by simp
qed simp

section \<open>Scheduling\<close>

type_synonym task_id = nat

type_synonym ('e, 's) tasks = "task_id \<Rightarrow> ('e, 's, unit) prog option"

datatype ('e, 'c, 'x) schedule =
    Run task_id 'e
  | Spawn task_id 'c
  | Drop task_id
  | Outside 'x

definition idle :: "('e, 's, 'a) prog option \<Rightarrow> bool" where
  "idle p \<longleftrightarrow> (case p of None \<Rightarrow> True | Some (Ret _) \<Rightarrow> True | Some (Act _) \<Rightarrow> False)"

text \<open>Task 0 stands for everything that is not a task: callbacks and the operating system.\<close>

fun task_step ::
    "('c \<Rightarrow> task_id \<Rightarrow> ('e, 's, unit) prog) \<Rightarrow> (task_id \<Rightarrow> 's \<Rightarrow> 's) \<Rightarrow> ('x \<Rightarrow> 's \<Rightarrow> 's)
      \<Rightarrow> ('e, 'c, 'x) schedule \<Rightarrow> 's \<times> ('e, 's) tasks \<Rightarrow> 's \<times> ('e, 's) tasks" where
  "task_step main release outside (Run t e) (s, ts) =
     (case ts t of
        Some (Act f) \<Rightarrow> (case f e s of Some (s', p) \<Rightarrow> (s', ts(t \<mapsto> p)) | None \<Rightarrow> (s, ts))
      | _ \<Rightarrow> (s, ts))"
| "task_step main release outside (Spawn t c) (s, ts) =
     (if t \<noteq> 0 \<and> idle (ts t) then (s, ts(t \<mapsto> main c t)) else (s, ts))"
| "task_step main release outside (Drop t) (s, ts) =
     (if ts t = None then (s, ts) else (release t s, ts(t := None)))"
| "task_step main release outside (Outside x) (s, ts) = (outside x s, ts)"

text \<open>A task that runs alone, with the answers of the world in the order it asks; no result means that it
  waits for a lock for ever. The counter is the number of answers used so far.\<close>

primrec alone :: "('e, 's, 'a) prog \<Rightarrow> (nat \<Rightarrow> 'e) \<Rightarrow> nat \<Rightarrow> 's \<Rightarrow> ('a \<times> nat \<times> 's) option" where
  "alone (Ret x) E n s = Some (x, n, s)"
| "alone (Act f) E n s = Option.bind (map_option (map_prod id (\<lambda>p. alone p E (Suc n))) (f (E n) s)) (\<lambda>(s', k). k s')"

lemma alone_bind: "alone (prog_bind p k) E n s = Option.bind (alone p E n s) (\<lambda>(x, m, s'). alone (k x) E m s')"
proof (induction p arbitrary: n s)
  case (Act f)
  show ?case
  proof (cases "f (E n) s")
    case (Some r)
    have "f (E n) \<in> range f" "Some r \<in> range (f (E n))" using Some [symmetric] by auto
    from Act.IH [OF this, of r "snd r"] Some show ?thesis by (cases r) simp
  qed simp
qed simp

lemma alone_simps [simp]:
  "alone (perform f) E n s = Some (fst (f (E n) s), Suc n, snd (f (E n) s))"
  "alone (atomically h) E n s = Some (fst (h s), Suc n, snd (h s))"
  "alone (ask a) E n s = Some (a (E n), Suc n, s)"
  "alone (look b) E n s = Some (b s, Suc n, s)"
  "alone (modify m) E n s = Some ((), Suc n, m s)"
  "alone (await g m) E n s = (if g s then Some ((), Suc n, m s) else None)"
  by (simp_all add: perform_def atomically_def ask_def look_def modify_def await_def)

text \<open>A schedule that only runs one task does what the task does alone.\<close>

lemma alone_schedule:
  "alone p (\<lambda>_. e) n s = Some (x, m, s') \<Longrightarrow> ts t = Some p \<Longrightarrow>
   n \<le> m \<and> fold (task_step main release outside) (replicate (m - n) (Run t e)) (s, ts) = (s', ts(t \<mapsto> Ret x))"
proof (induction p arbitrary: n s ts)
  case (Ret x)
  then show ?case by (auto simp: fun_upd_idem)
next
  case (Act f)
  from Act.prems obtain v q where f: "f e s = Some (v, q)" and q: "alone q (\<lambda>_. e) (Suc n) v = Some (x, m, s')"
    by (auto simp: bind_eq_Some_conv)
  have r: "f e \<in> range f" "Some (v, q) \<in> range (f e)" using f [symmetric] by auto
  have IH: "Suc n \<le> m \<and> fold (task_step main release outside) (replicate (m - Suc n) (Run t e)) (v, ts(t \<mapsto> q)) = (s', ts(t \<mapsto> q, t \<mapsto> Ret x))"
    by (rule Act.IH [OF r, of "(v, q)" q]) (use q in auto)
  then have n: "m - n = Suc (m - Suc n)" by linarith
  show ?case unfolding n using IH f Act.prems(2) by (auto simp: fun_eq_iff)
qed

text \<open>Who takes a step.\<close>

fun actor :: "('e, 'c, 'x) schedule \<Rightarrow> task_id" where
  "actor (Run t _) = t"
| "actor (Spawn t _) = t"
| "actor (Drop t) = t"
| "actor (Outside _) = 0"

section \<open>Rely and guarantee\<close>

locale task_system =
  fixes inv :: "'s \<Rightarrow> bool"
    and may :: "task_id \<Rightarrow> 's \<Rightarrow> 's \<Rightarrow> bool"
begin

definition stable :: "task_id \<Rightarrow> ('s \<Rightarrow> bool) \<Rightarrow> bool" where
  "stable t P \<longleftrightarrow> (\<forall>u s s'. u \<noteq> t \<longrightarrow> inv s \<longrightarrow> inv s' \<longrightarrow> may u s s' \<longrightarrow> P s \<longrightarrow> P s')"

inductive verified :: "task_id \<Rightarrow> ('s \<Rightarrow> bool) \<Rightarrow> ('e, 's, 'a) prog \<Rightarrow> ('a \<Rightarrow> 's \<Rightarrow> bool) \<Rightarrow> bool"
  for t :: task_id where
  verified_Ret: "(\<And>s. inv s \<Longrightarrow> P s \<Longrightarrow> Q x s) \<Longrightarrow> verified t P (Ret x) Q"
| verified_Act: "(\<And>e s s' p. inv s \<Longrightarrow> P s \<Longrightarrow> f e s = Some (s', p) \<Longrightarrow>
      inv s' \<and> may t s s' \<and> (\<exists>P'. stable t P' \<and> P' s' \<and> verified t P' p Q)) \<Longrightarrow> verified t P (Act f) Q"

lemma stable_const [simp, intro]: "stable t (\<lambda>_. b)"
  by (simp add: stable_def)

lemma stable_conj [intro]: "stable t P \<Longrightarrow> stable t Q \<Longrightarrow> stable t (\<lambda>s. P s \<and> Q s)"
  unfolding stable_def by blast

lemma stable_imp_const [intro]: "stable t P \<Longrightarrow> stable t (\<lambda>s. b \<longrightarrow> P s)"
  unfolding stable_def by blast

lemma verified_RetD: "verified t P (Ret x) Q \<Longrightarrow> inv s \<Longrightarrow> P s \<Longrightarrow> Q x s"
  by (erule verified.cases) simp_all

lemma verified_ActD:
  assumes "verified t P (Act f) Q" "inv s" "P s" "f e s = Some (s', p)"
  shows "inv s' \<and> may t s s' \<and> (\<exists>P'. stable t P' \<and> P' s' \<and> verified t P' p Q)"
  using assms(1)
proof cases
  case verified_Act
  from verified_Act [OF assms(2-4)] show ?thesis .
qed

lemma verified_pre:
  assumes "verified t P p Q" "\<And>s. inv s \<Longrightarrow> P' s \<Longrightarrow> P s"
  shows "verified t P' p Q"
proof (cases p)
  case (Ret x)
  with assms show ?thesis by (auto intro: verified_Ret dest: verified_RetD)
next
  case (Act f)
  show ?thesis unfolding Act
    by (rule verified_Act) (rule verified_ActD [OF assms(1) [unfolded Act]], simp_all add: assms(2))
qed

lemma verified_post:
  assumes "verified t P p Q" "\<And>x s. inv s \<Longrightarrow> Q x s \<Longrightarrow> Q' x s"
  shows "verified t P p Q'"
  using assms
proof induction
  case (verified_Ret P Q x)
  then show ?case by (auto intro: verified.verified_Ret)
next
  case (verified_Act P f Q)
  show ?case
  proof (rule verified.verified_Act)
    fix e s s' p
    assume "inv s" "P s" "f e s = Some (s', p)"
    from verified_Act.IH [OF this] verified_Act.prems
    show "inv s' \<and> may t s s' \<and> (\<exists>P'. stable t P' \<and> P' s' \<and> verified t P' p Q')" by metis
  qed
qed

lemma verified_bind:
  assumes "verified t P p R" "\<And>x. verified t (R x) (k x) Q"
  shows "verified t P (prog_bind p k) Q"
  using assms
proof induction
  case (verified_Ret P R x)
  then show ?case using verified_pre [OF verified_Ret.prems] by simp
next
  case (verified_Act P f R)
  show ?case unfolding prog_bind.simps
  proof (rule verified.verified_Act)
    fix e s s' q
    assume a: "inv s" "P s" "map_option (map_prod id (\<lambda>p. prog_bind p k)) (f e s) = Some (s', q)"
    then obtain p where p: "f e s = Some (s', p)" "q = prog_bind p k" by auto
    from verified_Act.IH [OF a(1,2) p(1)] verified_Act.prems
    show "inv s' \<and> may t s s' \<and> (\<exists>P'. stable t P' \<and> P' s' \<and> verified t P' q Q)" unfolding p(2) by metis
  qed
qed

lemma verified_perform:
  fixes f :: "'e \<Rightarrow> 's \<Rightarrow> 'a \<times> 's"
  assumes "\<And>e s. inv s \<Longrightarrow> P s \<Longrightarrow> inv (snd (f e s)) \<and> may t s (snd (f e s)) \<and> Q (fst (f e s)) (snd (f e s))"
    and "\<And>x. stable t (Q x)"
  shows "verified t P (perform f) Q"
  unfolding perform_def
proof (rule verified_Act)
  fix e s s' and p :: "('e, 's, 'a) prog"
  assume a: "inv s" "P s" "Some (snd (f e s), Ret (fst (f e s))) = Some (s', p)"
  then have "inv s' \<and> may t s s' \<and> Q (fst (f e s)) s'" "p = Ret (fst (f e s))" using assms(1) by auto
  moreover have "verified t (Q x) (Ret x) Q" for x by (rule verified_Ret)
  ultimately show "inv s' \<and> may t s s' \<and> (\<exists>P'. stable t P' \<and> P' s' \<and> verified t P' p Q)" using assms(2) by blast
qed

lemma verified_atomically:
  assumes "\<And>s. inv s \<Longrightarrow> P s \<Longrightarrow> inv (snd (f s)) \<and> may t s (snd (f s)) \<and> Q (fst (f s)) (snd (f s))"
    and "\<And>x. stable t (Q x)"
  shows "verified t P (atomically f) Q"
  unfolding atomically_def by (rule verified_perform) (use assms in auto)

lemma verified_modify:
  assumes "\<And>s. inv s \<Longrightarrow> P s \<Longrightarrow> inv (f s) \<and> may t s (f s) \<and> Q (f s)" and "stable t Q"
  shows "verified t P (modify f) (\<lambda>_. Q)"
  unfolding modify_def by (rule verified_perform) (use assms in auto)

lemma verified_await:
  assumes "\<And>s. inv s \<Longrightarrow> P s \<Longrightarrow> g s \<Longrightarrow> inv (f s) \<and> may t s (f s) \<and> Q (f s)" and "stable t Q"
  shows "verified t P (await g f :: ('e, 's, unit) prog) (\<lambda>_. Q)"
  unfolding await_def
proof (rule verified_Act)
  fix e s s' and p :: "('e, 's, unit) prog"
  assume "inv s" "P s" "(if g s then Some (f s, Ret ()) else None) = Some (s', p)"
  then have "inv s' \<and> may t s s' \<and> Q s'" "p = Ret ()" using assms(1) by (auto split: if_splits)
  moreover have "verified t Q (Ret ()) (\<lambda>_. Q)" by (rule verified_Ret)
  ultimately show "inv s' \<and> may t s s' \<and> (\<exists>P'. stable t P' \<and> P' s' \<and> verified t P' p (\<lambda>_. Q))" using assms(2) by blast
qed

lemma verified_if:
  "(b \<Longrightarrow> verified t P p Q) \<Longrightarrow> (\<not> b \<Longrightarrow> verified t P q Q) \<Longrightarrow> verified t P (if b then p else q) Q"
  by simp

lemma verified_when: "(\<And>s. inv s \<Longrightarrow> P s \<Longrightarrow> b) \<Longrightarrow> (b \<Longrightarrow> verified t P p Q) \<Longrightarrow> verified t P p Q"
proof (cases "\<exists>s. inv s \<and> P s")
  case False
  assume "\<And>s. inv s \<Longrightarrow> P s \<Longrightarrow> b"
  show "verified t P p Q"
  proof (cases p)
    case (Ret x)
    show ?thesis unfolding Ret by (rule verified_Ret) (use False in blast)
  next
    case (Act f)
    show ?thesis unfolding Act by (rule verified_Act) (use False in blast)
  qed
qed blast

lemma verified_ex:
  assumes "\<And>x. verified t (P x) p Q"
  shows "verified t (\<lambda>s. \<exists>x. P x s) p Q"
proof (cases p)
  case (Ret y)
  show ?thesis unfolding Ret
  proof (rule verified_Ret)
    fix s
    assume i: "inv s" and "\<exists>x. P x s"
    then obtain x where x: "P x s" by blast
    show "Q y s" by (rule verified_RetD [OF assms [of x, unfolded Ret] i x])
  qed
next
  case (Act f)
  show ?thesis unfolding Act
  proof (rule verified_Act)
    fix e s s' q
    assume i: "inv s" and "\<exists>x. P x s" and f: "f e s = Some (s', q)"
    then obtain x where x: "P x s" by blast
    show "inv s' \<and> may t s s' \<and> (\<exists>P'. stable t P' \<and> P' s' \<and> verified t P' q Q)"
      by (rule verified_ActD [OF assms [of x, unfolded Act] i x f])
  qed
qed

text \<open>Every task keeps an assertion that no other task can break.\<close>

definition secure :: "'s \<times> ('e, 's) tasks \<Rightarrow> bool" where
  "secure w \<longleftrightarrow> inv (fst w)
     \<and> (\<forall>t p. snd w t = Some p \<longrightarrow> (\<exists>P. stable t P \<and> P (fst w) \<and> verified t P p (\<lambda>_ _. True)))"

lemma secure_keep:
  assumes "secure (s, ts)" "inv s'" "may u s s'" "t \<noteq> u" "ts t = Some p"
  shows "\<exists>P. stable t P \<and> P s' \<and> verified t P p (\<lambda>_ _. True)"
proof -
  from assms(1,5) obtain P where P: "inv s" "stable t P" "P s" "verified t P p (\<lambda>_ _. True)" by (auto simp: secure_def)
  from P(2) have "P s'" unfolding stable_def using P(1,3) assms(2-4) by metis
  with P show ?thesis by blast
qed

end

locale task_service = task_system inv may
  for inv :: "'s \<Rightarrow> bool" and may :: "task_id \<Rightarrow> 's \<Rightarrow> 's \<Rightarrow> bool" +
  fixes main :: "'c \<Rightarrow> task_id \<Rightarrow> ('e, 's, unit) prog"
    and release :: "task_id \<Rightarrow> 's \<Rightarrow> 's"
    and outside :: "'x \<Rightarrow> 's \<Rightarrow> 's"
  assumes main_verified: "t \<noteq> 0 \<Longrightarrow> verified t (\<lambda>_. True) (main c t) (\<lambda>_ _. True)"
    and release_may: "inv s \<Longrightarrow> inv (release t s) \<and> may t s (release t s)"
    and outside_may: "inv s \<Longrightarrow> inv (outside x s) \<and> may 0 s (outside x s)"
begin

lemma secure_step:
  assumes "secure (s, ts)" "ts 0 = None"
  shows "secure (task_step main release outside ev (s, ts)) \<and> snd (task_step main release outside ev (s, ts)) 0 = None"
proof -
  from assms(1) have i: "inv s" by (simp add: secure_def)
  show ?thesis
  proof (cases ev)
    case (Run t e)
    show ?thesis
    proof (cases "\<exists>f s' p. ts t = Some (Act f) \<and> f e s = Some (s', p)")
      case True
      then obtain f s' p where f: "ts t = Some (Act f)" "f e s = Some (s', p)" by blast
      from assms(1) f(1) obtain P where P: "P s" "verified t P (Act f) (\<lambda>_ _. True)" by (auto simp: secure_def)
      from verified_ActD [OF P(2) i P(1) f(2)] have s': "inv s'" "may t s s'"
        and p: "\<exists>P'. stable t P' \<and> P' s' \<and> verified t P' p (\<lambda>_ _. True)" by blast+
      have "\<exists>P. stable u P \<and> P s' \<and> verified u P q (\<lambda>_ _. True)" if "(ts(t \<mapsto> p)) u = Some q" for u q
        using that p secure_keep [OF assms(1) s'] by (cases "u = t") auto
      moreover have "t \<noteq> 0" using f(1) assms(2) by (cases t) auto
      ultimately show ?thesis using Run f s'(1) assms(2) by (simp add: secure_def)
    next
      case False
      then have "task_step main release outside ev (s, ts) = (s, ts)"
        using Run by (auto split: option.splits prog.splits)
      with assms show ?thesis by simp
    qed
  next
    case (Spawn t c)
    have "secure (s, ts(t \<mapsto> main c t))" if "t \<noteq> 0"
      using assms(1) main_verified [OF that, of c] by (auto simp: secure_def)
    then show ?thesis using Spawn assms by auto
  next
    case (Drop t)
    have "\<exists>P. stable u P \<and> P (release t s) \<and> verified u P q (\<lambda>_ _. True)" if "(ts(t := None)) u = Some q" for u q
      using that secure_keep [OF assms(1) conjunct1 [OF release_may [OF i]] conjunct2 [OF release_may [OF i]]]
      by (cases "u = t") auto
    then have "secure (release t s, ts(t := None))" using release_may [OF i] by (simp add: secure_def)
    then show ?thesis using Drop assms by auto
  next
    case (Outside x)
    have "\<exists>P. stable u P \<and> P (outside x s) \<and> verified u P q (\<lambda>_ _. True)" if "ts u = Some q" for u q
      using that assms(2) secure_keep [OF assms(1) conjunct1 [OF outside_may [OF i]] conjunct2 [OF outside_may [OF i]]]
      by (cases "u = 0") auto
    then show ?thesis using Outside outside_may [OF i] assms(2) by (simp add: secure_def)
  qed
qed

lemma schedule_secure:
  assumes "inv s"
  shows "secure (fold (task_step main release outside) evs (s, \<lambda>_. None))
    \<and> snd (fold (task_step main release outside) evs (s, \<lambda>_. None)) 0 = None"
proof -
  have "secure w \<and> snd w 0 = None \<Longrightarrow> secure (fold (task_step main release outside) evs w)
      \<and> snd (fold (task_step main release outside) evs w) 0 = None" for w
  proof (induction evs arbitrary: w)
    case (Cons ev evs)
    with secure_step [of "fst w" "snd w" ev] show ?case by simp
  qed simp
  from this [of "(s, \<lambda>_. None)"] assms show ?thesis by (simp add: secure_def)
qed

text \<open>The invariant holds in every state of every schedule.\<close>

theorem schedule_inv: "inv s \<Longrightarrow> inv (fst (fold (task_step main release outside) evs (s, \<lambda>_. None)))"
  using schedule_secure by (simp add: secure_def)

text \<open>Every step of every schedule is one that its task may take.\<close>

theorem schedule_may:
  assumes "inv s" "w = fold (task_step main release outside) evs (s, \<lambda>_. None)"
  shows "fst (task_step main release outside ev w) = fst w \<or> may (actor ev) (fst w) (fst (task_step main release outside ev w))"
proof -
  obtain s' ts where w: "w = (s', ts)" by (cases w)
  with schedule_secure [OF assms(1), of evs] have sec: "secure (s', ts)" "inv s'" by (simp_all add: assms(2) [symmetric] secure_def)
  show ?thesis
  proof (cases ev)
    case (Run t e)
    show ?thesis
    proof (cases "\<exists>f s2 p. ts t = Some (Act f) \<and> f e s' = Some (s2, p)")
      case True
      then obtain f s2 p where f: "ts t = Some (Act f)" "f e s' = Some (s2, p)" by blast
      with sec(1) obtain P where "P s'" "verified t P (Act f) (\<lambda>_ _. True)" by (auto simp: secure_def)
      from verified_ActD [OF this(2) sec(2) this(1) f(2)] f show ?thesis by (auto simp: w Run)
    next
      case False
      then show ?thesis by (auto simp: w Run split: option.splits prog.splits)
    qed
  next
    case (Drop t)
    then show ?thesis using release_may [OF sec(2)] by (auto simp: w)
  next
    case (Outside x)
    then show ?thesis using outside_may [OF sec(2)] by (auto simp: w)
  qed (auto simp: w)
qed

end

end
