(* ===== verification/Stream_State.thy ===== *)
theory Stream_State
  imports Playback_Health Camera_Readiness Caller_Registry Tasks
begin

text \<open>
  The state shared by the preview and the re-stream service (\<open>streaming/state.rs\<close>), the admission of
  UDP ports (\<open>streaming/udp.rs\<close>), the status snapshot (\<open>streaming/status.rs\<close>) and the redaction of
  error texts (\<open>streaming/source.rs\<close>). Health records are shared by reference in the code; here they
  live in a list and a reference is an index. A pipeline or listener is a GStreamer object: the model
  keeps what the code asks of it and whether it is running.
\<close>

section \<open>Data\<close>

datatype source_mode = UdpMode u16 | RtspMode

datatype firewall_rule = RuleRtsp | RuleSrt

datatype rule_action = Created | Updated | Unchanged

datatype firewall_outcome =
    FwInactive
  | FwApplied string rule_action bool "string list"
  | FwUnavailable string
  | FwFailed string string bool

record playback_data =
  pd_target :: "camera_target option"
  pd_settings :: "app_settings option"
  pd_health :: "nat option"
  pd_intent_epoch :: "u64 option"
  pd_instance :: "(u64 \<times> u64) option"
  pd_window :: "nat option"
  pd_adapter :: "(string option \<times> u32 option) option"
  pd_ready :: "(u32 \<times> ipv4) option"
  pd_recording_report :: "string option"
  pd_recording_finalized_path :: "string option"
  pd_playback :: "nat option"
  pd_recording :: bool
  pd_recording_path :: "string option"
  pd_start_time :: "instant option"
  pd_source :: "source_mode option"

definition playback_data_default :: playback_data where
  "playback_data_default = \<lparr>pd_target = None, pd_settings = None, pd_health = None, pd_intent_epoch = None,
     pd_instance = None, pd_window = None, pd_adapter = None, pd_ready = None, pd_recording_report = None,
     pd_recording_finalized_path = None, pd_playback = None, pd_recording = False, pd_recording_path = None,
     pd_start_time = None, pd_source = None\<rparr>"

text \<open>A pipeline knows its source, the attempt it belongs to and whether a recording branch is attached.\<close>

record pipeline =
  pl_source :: source_mode
  pl_health :: nat
  pl_generation :: u64
  pl_recording :: "string option"
  pl_muted :: bool

record restream_server =
  sv_protocol :: restream_protocol
  sv_health :: nat
  sv_generation :: u64
  sv_instance :: u64
  sv_udp_port :: "u16 option"

record relay_data =
  rd_firewall :: firewall_outcome
  rd_firewall_generation :: "(u64 \<times> firewall_rule) option"
  rd_target :: "camera_target option"
  rd_selected_protocol :: restream_protocol
  rd_server :: "restream_server option"
  rd_desired :: bool
  rd_spec :: "start_spec option"
  rd_health :: "nat option"
  rd_intent_epoch :: "u64 option"
  rd_start_time :: "instant option"

definition relay_data_new :: "restream_protocol \<Rightarrow> relay_data" where
  "relay_data_new selected = \<lparr>rd_firewall = FwInactive, rd_firewall_generation = None, rd_target = None,
     rd_selected_protocol = selected, rd_server = None, rd_desired = False, rd_spec = None, rd_health = None,
     rd_intent_epoch = None, rd_start_time = None\<rparr>"

record stream_state =
  st_playback :: playback_data
  st_relay :: relay_data

section \<open>UDP admission\<close>

definition relay_claims :: "relay_data \<Rightarrow> u16 \<Rightarrow> bool" where
  "relay_claims r port \<longleftrightarrow> (rd_desired r \<and> Option.bind (rd_spec r) udp_ingest_port = Some port)
     \<or> Option.bind (rd_server r) sv_udp_port = Some port"

definition guard_playback :: "stream_state \<Rightarrow> u16 \<Rightarrow> unit result" where
  "guard_playback st port =
     (if relay_claims (st_relay st) port
      then Inl (Stream (''UDP port '' @ show_nat (unat port) @ '' is already claimed by the re-stream server. Stop it first or switch the input to RTSP.''))
      else Inr ())"

definition guard_relay :: "stream_state \<Rightarrow> u16 \<Rightarrow> unit result" where
  "guard_relay st port =
     (if pd_source (st_playback st) = Some (UdpMode port)
      then Inl (Stream (''UDP port '' @ show_nat (unat port) @ '' is already claimed by the running preview - only one consumer can receive a UDP stream. Stop the stream first, or switch the input to RTSP.''))
      else Inr ())"

section \<open>The world of the two services\<close>

text \<open>Beside the shared state: the atomic counters, the health records, the locks with the task that
  holds them, the queue of supervisor events and the revision of the bind topology. What runs outside
  is kept too: the pipelines and listeners that exist, and the firewall rules that may be enabled.
  \<open>w_pb_held\<close> and \<open>w_rs_held\<close> name the pipeline or listener in a local variable of the task that holds
  the lifecycle lock, \<open>w_rs_ports\<close> the UDP port each relay health record was reserved for, and
  \<open>w_rs_owners\<close> the tasks that advanced the re-stream epoch, in order.\<close>

record stream_world =
  w_state :: stream_state
  w_pb_epoch :: u64
  w_pb_heap :: "playback_health list"
  w_pb_lock :: "task_id option"
  w_pipes :: "pipeline list"
  w_running :: "nat list"
  w_pb_held :: "nat option"
  w_rs_epoch :: u64
  w_rs_owners :: "task_id list"
  w_rs_generation :: u64
  w_rs_heap :: "relay_health list"
  w_rs_ports :: "u16 option list"
  w_rs_transaction :: "task_id option"
  w_rs_lock :: "task_id option"
  w_listeners :: "restream_server list"
  w_rs_held :: "restream_server option"
  w_events :: "relay_supervisor_event list"
  w_revision :: u64
  w_rules :: "firewall_rule list"

definition stream_world_new :: "restream_protocol \<Rightarrow> stream_world" where
  "stream_world_new selected = \<lparr>w_state = \<lparr>st_playback = playback_data_default, st_relay = relay_data_new selected\<rparr>,
     w_pb_epoch = 0, w_pb_heap = [], w_pb_lock = None, w_pipes = [], w_running = [], w_pb_held = None,
     w_rs_epoch = 0, w_rs_owners = [], w_rs_generation = 0, w_rs_heap = [], w_rs_ports = [], w_rs_transaction = None, w_rs_lock = None,
     w_listeners = [], w_rs_held = None, w_events = [], w_revision = 0, w_rules = []\<rparr>"

abbreviation w_pb :: "stream_world \<Rightarrow> playback_data" where
  "w_pb w \<equiv> st_playback (w_state w)"

abbreviation w_rs :: "stream_world \<Rightarrow> relay_data" where
  "w_rs w \<equiv> st_relay (w_state w)"

definition set_pb :: "(playback_data \<Rightarrow> playback_data) \<Rightarrow> stream_world \<Rightarrow> stream_world" where
  "set_pb f w = w\<lparr>w_state := (w_state w)\<lparr>st_playback := f (w_pb w)\<rparr>\<rparr>"

definition set_rs :: "(relay_data \<Rightarrow> relay_data) \<Rightarrow> stream_world \<Rightarrow> stream_world" where
  "set_rs f w = w\<lparr>w_state := (w_state w)\<lparr>st_relay := f (w_rs w)\<rparr>\<rparr>"

definition on_preview :: "nat \<Rightarrow> (playback_health \<Rightarrow> playback_health) \<Rightarrow> stream_world \<Rightarrow> stream_world" where
  "on_preview i f w = w\<lparr>w_pb_heap := (w_pb_heap w)[i := f (w_pb_heap w ! i)]\<rparr>"

definition on_relay :: "nat \<Rightarrow> (relay_health \<Rightarrow> relay_health) \<Rightarrow> stream_world \<Rightarrow> stream_world" where
  "on_relay i f w = w\<lparr>w_rs_heap := (w_rs_heap w)[i := f (w_rs_heap w ! i)]\<rparr>"

definition send_event :: "relay_supervisor_event \<Rightarrow> stream_world \<Rightarrow> stream_world" where
  "send_event ev w = w\<lparr>w_events := w_events w @ [ev]\<rparr>"

text \<open>\<open>fetch_add(1)\<close> followed by \<open>wrapping_add(1)\<close>: the new value.\<close>

definition fetch_pb_epoch :: "stream_world \<Rightarrow> u64 \<times> stream_world" where
  "fetch_pb_epoch w = (w_pb_epoch w + 1, w\<lparr>w_pb_epoch := w_pb_epoch w + 1\<rparr>)"

definition fetch_rs_epoch :: "task_id \<Rightarrow> stream_world \<Rightarrow> u64 \<times> stream_world" where
  "fetch_rs_epoch t w = (w_rs_epoch w + 1, w\<lparr>w_rs_epoch := w_rs_epoch w + 1, w_rs_owners := w_rs_owners w @ [t]\<rparr>)"

text \<open>Answers of the world around the services: the clock, GStreamer, the readiness service, the
  operating system, the user's files.\<close>

record stream_env =
  en_now :: instant
  en_gst :: "unit result"
  en_hwnd :: "nat option"
  en_selection :: "(string option \<times> u32 option) option"
  en_preflight :: "camera_target option \<Rightarrow> ready_path option result"
  en_stale :: bool
  en_call :: "unit result"
  en_path :: "string result"
  en_free :: "u64 option"
  en_settings :: app_settings
  en_commit :: "app_settings result"
  en_native :: "native_adapter list result"
  en_interfaces :: "interface_info list result"
  en_adopted :: "string set"
  en_outcome :: firewall_outcome
  en_enabled :: bool
  en_build :: "build_failure_kind \<times> unit result"
  en_timer :: bool
  en_probe :: "relay_fault option"
  en_fmt :: "instant \<Rightarrow> string"

type_synonym 'a stream_prog = "(stream_env, stream_world, 'a) prog"

section \<open>Redaction\<close>

fun find_sub :: "string \<Rightarrow> string \<Rightarrow> nat option" where
  "find_sub pat s =
     (if take (length pat) s = pat then Some 0
      else (case s of [] \<Rightarrow> None | _ # cs \<Rightarrow> map_option Suc (find_sub pat cs)))"

definition redact_url :: "string \<Rightarrow> string" where
  "redact_url url =
     (case find_sub ''://'' url of
        None \<Rightarrow> url
      | Some i \<Rightarrow>
          let scheme_end = i + 3; authority = drop scheme_end url
          in case find_sub ''@'' authority of
               None \<Rightarrow> url
             | Some at \<Rightarrow>
                 (case find_sub '':'' (take at authority) of
                    None \<Rightarrow> url
                  | Some colon \<Rightarrow> take (scheme_end + colon + 1) url @ ''***'' @ drop (scheme_end + at) url))"

text \<open>\<open>str::replace\<close> of a pattern that is not empty.\<close>

function str_replace :: "string \<Rightarrow> string \<Rightarrow> string \<Rightarrow> string" where
  "str_replace pat rep s =
     (if s = [] then []
      else if pat \<noteq> [] \<and> take (length pat) s = pat then rep @ str_replace pat rep (drop (length pat) s)
      else hd s # str_replace pat rep (tl s))"
  by auto
termination by (relation "measure (\<lambda>(_, _, s). length s)") auto

declare str_replace.simps [simp del] find_sub.simps [simp del]

definition redact_relay_text :: "string \<Rightarrow> string \<Rightarrow> string" where
  "redact_relay_text s mount = (let redacted = redact_url s in if mount = [] then redacted else str_replace mount ''/stream-***'' redacted)"

section \<open>Status\<close>

definition MAX_RTSP_CLIENTS :: u32 where "MAX_RTSP_CLIENTS = 10"

record stream_status =
  ss_bind_scope :: bind_scope
  ss_firewall :: firewall_outcome
  ss_playing :: bool
  ss_playback_desired :: bool
  ss_playback_state :: playback_state
  ss_playback_fault :: "playback_fault option"
  ss_playback_recovery_attempt :: u32
  ss_playback_next_retry_secs :: "nat option"
  ss_recording_report :: "string option"
  ss_recording_finalized_path :: "string option"
  ss_selected_protocol :: restream_protocol
  ss_active_protocol :: "restream_protocol option"
  ss_server_running :: bool
  ss_desired :: bool
  ss_relay_state :: relay_state
  ss_relay_error :: "string option"
  ss_recovery_attempt :: u32
  ss_server_url :: "string option"
  ss_display_url :: "string option"
  ss_recording :: bool
  ss_uptime_secs :: nat
  ss_bandwidth :: u64
  ss_connected_clients :: u32
  ss_client_limit :: u32
  ss_error :: "string option"
  ss_audio :: "bool \<times> string option"

definition stream_status_idle :: "restream_protocol \<Rightarrow> stream_status" where
  "stream_status_idle selected = \<lparr>ss_bind_scope = bind_scope_default, ss_firewall = FwInactive, ss_playing = False,
     ss_playback_desired = False, ss_playback_state = PbStopped, ss_playback_fault = None,
     ss_playback_recovery_attempt = 0, ss_playback_next_retry_secs = None, ss_recording_report = None,
     ss_recording_finalized_path = None, ss_selected_protocol = selected, ss_active_protocol = None,
     ss_server_running = False, ss_desired = False, ss_relay_state = RelayStopped, ss_relay_error = None,
     ss_recovery_attempt = 0, ss_server_url = None, ss_display_url = None, ss_recording = False, ss_uptime_secs = 0,
     ss_bandwidth = 0, ss_connected_clients = 0, ss_client_limit = MAX_RTSP_CLIENTS, ss_error = None,
     ss_audio = (False, None)\<rparr>"

definition client_limit :: "restream_server \<Rightarrow> u32" where
  "client_limit sv = (case sv_protocol sv of OutputRtsp \<Rightarrow> MAX_RTSP_CLIENTS | OutputSrt \<Rightarrow> of_nat MAX_SRT_CALLERS)"

text \<open>The listener the status reports on is the stored one, and only if it belongs to the current
  health record.\<close>

definition current_server :: "stream_world \<Rightarrow> restream_server option" where
  "current_server w =
     (case (rd_server (w_rs w), rd_health (w_rs w)) of
        (Some sv, Some i) \<Rightarrow> if sv_generation sv = rh_server_generation (w_rs_heap w ! i) then Some sv else None
      | _ \<Rightarrow> None)"

definition server_loop_alive :: "stream_world \<Rightarrow> restream_server \<Rightarrow> bool" where
  "server_loop_alive w sv = loop_alive_for (sv_instance sv) (w_rs_heap w ! sv_health sv)"

text \<open>Bandwidth (an \<open>f64\<close>, as its bits) and client count of a listener and the audio state of a
  pipeline are read from GStreamer.\<close>

definition compute_status ::
    "(restream_server \<Rightarrow> u64 \<times> u32) \<Rightarrow> (nat \<Rightarrow> bool \<times> string option) \<Rightarrow> instant \<Rightarrow> stream_world \<Rightarrow> stream_status" where
  "compute_status stats audio now w =
     (let pb = w_pb w; rs = w_rs w;
          health = map_option ((!) (w_rs_heap w)) (rd_health rs);
          server = current_server w;
          alive = (case (server, health) of (Some sv, Some h) \<Rightarrow> server_loop_alive w sv \<and> rh_loop_alive h | _ \<Rightarrow> False);
          preview = map_option (\<lambda>i. playback_snapshot_of now (w_pb_heap w ! i)) (pd_health pb)
      in \<lparr>ss_bind_scope = (if alive then (case rd_spec rs of Some sp \<Rightarrow> sp_bind_scope sp | None \<Rightarrow> bind_scope_default) else bind_scope_default),
          ss_firewall = rd_firewall rs,
          ss_playing = (case preview of Some h \<Rightarrow> pn_state h = PbPlaying | None \<Rightarrow> False),
          ss_playback_desired = (pd_settings pb \<noteq> None),
          ss_playback_state = (case preview of Some h \<Rightarrow> pn_state h | None \<Rightarrow> PbStopped),
          ss_playback_fault = Option.bind preview pn_fault,
          ss_playback_recovery_attempt = (case preview of Some h \<Rightarrow> pn_attempt h | None \<Rightarrow> 0),
          ss_playback_next_retry_secs = Option.bind preview pn_next_retry_secs,
          ss_recording_report = pd_recording_report pb,
          ss_recording_finalized_path = pd_recording_finalized_path pb,
          ss_selected_protocol = rd_selected_protocol rs,
          ss_active_protocol = (case rd_spec rs of Some sp \<Rightarrow> Some (spec_protocol sp) | None \<Rightarrow> map_option sv_protocol (rd_server rs)),
          ss_server_running = alive,
          ss_desired = rd_desired rs,
          ss_relay_state = (if rd_desired rs then (case health of Some h \<Rightarrow> rh_state h | None \<Rightarrow> RelayStarting) else RelayStopped),
          ss_relay_error = (if rd_desired rs then Option.bind health rh_error else None),
          ss_recovery_attempt = (if rd_desired rs then (case health of Some h \<Rightarrow> rh_recovery_attempt h | None \<Rightarrow> 0) else 0),
          ss_server_url = (if rd_desired rs then map_option client_url (rd_spec rs) else None),
          ss_display_url = (if rd_desired rs then map_option display_url (rd_spec rs) else None),
          ss_recording = pd_recording pb,
          ss_uptime_secs = (case rd_start_time rs of Some t \<Rightarrow> (now - t) div 1000 | None \<Rightarrow> 0),
          ss_bandwidth = (case server of Some sv \<Rightarrow> fst (stats sv) | None \<Rightarrow> 0),
          ss_connected_clients = (case server of Some sv \<Rightarrow> snd (stats sv) | None \<Rightarrow> 0),
          ss_client_limit = (case server of Some sv \<Rightarrow> client_limit sv | None \<Rightarrow> MAX_RTSP_CLIENTS),
          ss_error = map_option pf_reason (Option.bind preview pn_fault),
          ss_audio = (case pd_playback pb of Some p \<Rightarrow> audio p | None \<Rightarrow> (False, None))\<rparr>)"

text \<open>The watch channel: subscribers are notified only of a change.\<close>

definition publish_status_if_changed :: "stream_status \<Rightarrow> stream_status \<Rightarrow> bool \<times> stream_status" where
  "publish_status_if_changed current next = (if current = next then (False, current) else (True, next))"

section \<open>Redaction hides the password\<close>

lemma find_sub_char:
  "c \<notin> set a \<Longrightarrow> find_sub [c] (a @ c # b) = Some (length a)"
proof (induction a)
  case (Cons x a)
  then show ?case by (subst find_sub.simps) auto
qed (simp add: find_sub.simps)

lemma find_sub_none: "pat \<noteq> [] \<Longrightarrow> (\<And>a b. s \<noteq> a @ pat @ b) \<Longrightarrow> find_sub pat s = None"
proof (induction s)
  case (Cons x s)
  have "take (length pat) (x # s) \<noteq> pat" using Cons.prems(2) [of "[]"] by (metis append_Nil append_take_drop_id)
  moreover have "find_sub pat s = None" using Cons.IH Cons.prems by (metis append_Cons)
  ultimately show ?case by (subst find_sub.simps) simp
qed (simp add: find_sub.simps)

lemma find_sub_scheme:
  "CHR '':'' \<notin> set a \<Longrightarrow> find_sub ''://'' (a @ ''://'' @ b) = Some (length a)"
proof (induction a)
  case (Cons x a)
  then show ?case by (subst find_sub.simps) auto
qed (simp add: find_sub.simps)

section \<open>Properties\<close>



text \<open>the status never shows what is not there: a running server is reported only for the stored
  listener of the current health record whose loop is alive, with its own client limit; when no
  re-stream is desired, the status is stopped, with no address, error or attempt; and without a
  preview intent nothing is reported as playing or failed.\<close>

theorem status_is_coherent:
  "let s = compute_status stats audio now w in
     (ss_server_running s \<longrightarrow> (\<exists>sv i. rd_server (w_rs w) = Some sv \<and> rd_health (w_rs w) = Some i
        \<and> sv_generation sv = rh_server_generation (w_rs_heap w ! i) \<and> rh_loop_alive (w_rs_heap w ! i)
        \<and> server_loop_alive w sv \<and> ss_client_limit s = client_limit sv))
     \<and> (\<not> rd_desired (w_rs w) \<longrightarrow> ss_relay_state s = RelayStopped \<and> ss_relay_error s = None
        \<and> ss_recovery_attempt s = 0 \<and> ss_server_url s = None \<and> ss_display_url s = None)
     \<and> (pd_health (w_pb w) = None \<longrightarrow> \<not> ss_playing s \<and> ss_playback_state s = PbStopped \<and> ss_error s = None)
     \<and> (\<forall>current. snd (publish_status_if_changed current s) = s
        \<and> (fst (publish_status_if_changed current s) \<longleftrightarrow> current \<noteq> s))"
proof -
  have run: "ss_server_running (compute_status stats audio now w) \<Longrightarrow>
      \<exists>sv i. rd_server (w_rs w) = Some sv \<and> rd_health (w_rs w) = Some i
        \<and> sv_generation sv = rh_server_generation (w_rs_heap w ! i) \<and> rh_loop_alive (w_rs_heap w ! i)
        \<and> server_loop_alive w sv \<and> ss_client_limit (compute_status stats audio now w) = client_limit sv"
    by (auto simp: compute_status_def current_server_def Let_def split: option.splits if_splits)
  have off: "\<not> rd_desired (w_rs w) \<Longrightarrow> ss_relay_state (compute_status stats audio now w) = RelayStopped
      \<and> ss_relay_error (compute_status stats audio now w) = None \<and> ss_recovery_attempt (compute_status stats audio now w) = 0
      \<and> ss_server_url (compute_status stats audio now w) = None \<and> ss_display_url (compute_status stats audio now w) = None"
    by (simp add: compute_status_def Let_def)
  have preview: "pd_health (w_pb w) = None \<Longrightarrow> \<not> ss_playing (compute_status stats audio now w)
      \<and> ss_playback_state (compute_status stats audio now w) = PbStopped \<and> ss_error (compute_status stats audio now w) = None"
    by (simp add: compute_status_def Let_def)
  have pub: "snd (publish_status_if_changed c s) = s \<and> (fst (publish_status_if_changed c s) \<longleftrightarrow> c \<noteq> s)" for c s
    by (simp add: publish_status_if_changed_def)
  show ?thesis unfolding Let_def using run off preview pub by blast
qed

theorem status_is_coherent_witness:
  "\<not> ss_server_running (compute_status (\<lambda>_. (0, 0)) (\<lambda>_. (False, None)) 0 (stream_world_new OutputRtsp))
     \<and> ss_relay_state (compute_status (\<lambda>_. (0, 0)) (\<lambda>_. (False, None)) 0 (stream_world_new OutputRtsp)) = RelayStopped"
  using status_is_coherent [of "\<lambda>_. (0, 0)" "\<lambda>_. (False, None)" 0 "stream_world_new OutputRtsp"]
  by (simp add: stream_world_new_def relay_data_new_def Let_def)

end
