(* ===== verification/Playback_Service.thy ===== *)
theory Playback_Service
  imports Stream_State
begin

text \<open>
  The preview service (\<open>streaming/playback.rs\<close>): the user commands and one turn of the supervisor, each
  as a task over the shared state. A section is what runs under one acquisition of the state lock
  together with the atomic operations beside it; waking the supervisor and publishing the status
  change nothing here, because the supervisor may take a turn and the status may be read at any time.
\<close>

section \<open>Locks\<close>

definition lock_pb :: "task_id \<Rightarrow> unit stream_prog" where
  "lock_pb t = await (\<lambda>w. w_pb_lock w = None) (\<lambda>w. w\<lparr>w_pb_lock := Some t\<rparr>)"

definition unlock_pb :: "unit stream_prog" where
  "unlock_pb = modify (\<lambda>w. w\<lparr>w_pb_lock := None\<rparr>)"

text \<open>A guard is released on every way out of its scope.\<close>

definition with_pb_lock :: "task_id \<Rightarrow> 'a stream_prog \<Rightarrow> 'a stream_prog" where
  "with_pb_lock t body = prog_bind (lock_pb t) (\<lambda>_. prog_bind body (\<lambda>x. prog_bind unlock_pb (\<lambda>_. Ret x)))"

section \<open>Sources\<close>

definition same_playback_source :: "app_settings \<Rightarrow> app_settings \<Rightarrow> bool" where
  "same_playback_source a b \<longleftrightarrow>
     sc_protocol (stream_cfg a) = sc_protocol (stream_cfg b)
     \<and> sc_camera_ip (stream_cfg a) = sc_camera_ip (stream_cfg b)
     \<and> sc_camera_mac (stream_cfg a) = sc_camera_mac (stream_cfg b)
     \<and> sc_rtsp_port (stream_cfg a) = sc_rtsp_port (stream_cfg b)
     \<and> sc_rtsp_path (stream_cfg a) = sc_rtsp_path (stream_cfg b)
     \<and> sc_udp_port (stream_cfg a) = sc_udp_port (stream_cfg b)
     \<and> username (credentials_cfg a) = username (credentials_cfg b)
     \<and> password (credentials_cfg a) = password (credentials_cfg b)"

definition source_mode_of :: "app_settings \<Rightarrow> source_mode" where
  "source_mode_of s = (case sc_protocol (stream_cfg s) of InputUdp \<Rightarrow> UdpMode (sc_udp_port (stream_cfg s)) | InputRtsp \<Rightarrow> RtspMode)"

section \<open>Commands\<close>

definition stop_health :: "nat option \<Rightarrow> stream_world \<Rightarrow> stream_world" where
  "stop_health h w = (case h of None \<Rightarrow> w | Some i \<Rightarrow> on_preview i playback_stop w)"

definition new_health :: "instant \<Rightarrow> stream_world \<Rightarrow> nat \<times> stream_world" where
  "new_health now w = (length (w_pb_heap w), w\<lparr>w_pb_heap := w_pb_heap w @ [playback_health_new now]\<rparr>)"

text \<open>The lock scope of \<open>start_playback\<close>. A stop that advances the epoch between the check and the
  exchange makes the exchange fail with the same error.\<close>

definition publish_playback_intent ::
    "app_settings \<Rightarrow> nat option \<Rightarrow> u64 \<Rightarrow> stream_env \<Rightarrow> stream_world \<Rightarrow> unit result \<times> stream_world" where
  "publish_playback_intent settings window start_epoch e w =
     (let claim = (if sc_protocol (stream_cfg settings) = InputUdp
                   then guard_playback (w_state w) (sc_udp_port (stream_cfg settings)) else Inr ())
      in case claim of
           Inl err \<Rightarrow> (Inl err, w)
         | Inr _ \<Rightarrow>
             if (case pd_settings (w_pb w) of Some s \<Rightarrow> same_playback_source s settings | None \<Rightarrow> False) then (Inr (), w)
             else if w_pb_epoch w \<noteq> start_epoch then (Inl (Stream ''Playback start superseded by Stop''), w)
             else
               let epoch = start_epoch + 1;
                   (i, w') = new_health (en_now e) (stop_health (pd_health (w_pb w)) (w\<lparr>w_pb_epoch := epoch\<rparr>))
               in (Inr (), set_pb (\<lambda>d. d\<lparr>pd_settings := Some settings, pd_health := Some i, pd_intent_epoch := Some epoch,
                     pd_target := stream_target (stream_cfg settings),
                     pd_window := (case window of Some h \<Rightarrow> Some h | None \<Rightarrow> en_hwnd e),
                     pd_adapter := None, pd_ready := None, pd_source := Some (source_mode_of settings)\<rparr>) w'))"

definition start_playback :: "app_settings \<Rightarrow> nat option \<Rightarrow> unit result stream_prog" where
  "start_playback settings window =
     prog_bind (look w_pb_epoch) (\<lambda>start_epoch.
     case build_input_url (stream_cfg settings) of
       Inl err \<Rightarrow> Ret (Inl err)
     | Inr _ \<Rightarrow>
         prog_bind (ask en_gst) (\<lambda>gst.
         case gst of
           Inl err \<Rightarrow> Ret (Inl err)
         | Inr _ \<Rightarrow> perform (publish_playback_intent settings window start_epoch)))"

text \<open>The corrected settings a manual retry applies: credentials, path and port, never the camera.\<close>

definition retry_settings :: "app_settings \<Rightarrow> app_settings \<Rightarrow> app_settings" where
  "retry_settings current desired =
     (let d = desired\<lparr>credentials_cfg := credentials_cfg current\<rparr>
      in if sc_protocol (stream_cfg d) = InputRtsp
         then d\<lparr>stream_cfg := (stream_cfg d)\<lparr>sc_rtsp_path := sc_rtsp_path (stream_cfg current),
                                              sc_rtsp_port := sc_rtsp_port (stream_cfg current)\<rparr>\<rparr>
         else d)"

definition apply_retry_settings ::
    "bool \<Rightarrow> app_settings option \<Rightarrow> u64 \<Rightarrow> stream_env \<Rightarrow> stream_world \<Rightarrow> stream_world" where
  "apply_retry_settings manual settings requested e w =
     (case (manual, settings, pd_settings (w_pb w)) of
        (True, Some current, Some old) \<Rightarrow>
          let desired = retry_settings current old
          in if same_playback_source old desired then w
             else
               let epoch = requested + 1;
                   (i, w') = new_health (en_now e) (stop_health (pd_health (w_pb w)) (w\<lparr>w_pb_epoch := epoch\<rparr>))
               in set_pb (\<lambda>d. d\<lparr>pd_health := Some i, pd_settings := Some desired, pd_intent_epoch := Some epoch\<rparr>) w'
      | _ \<Rightarrow> w)"

definition retry_section ::
    "bool \<Rightarrow> app_settings option \<Rightarrow> u64 \<Rightarrow> stream_env \<Rightarrow> stream_world \<Rightarrow> unit result \<times> stream_world" where
  "retry_section manual settings requested e w =
     (if w_pb_epoch w \<noteq> requested then (Inl (Stream ''Playback Retry superseded by Stop''), w)
      else
        let w' = apply_retry_settings manual settings requested e w
        in case pd_health (w_pb w') of
             None \<Rightarrow> (Inl (Stream ''No desired playback to retry''), w')
           | Some i \<Rightarrow> (Inr (), on_preview i (if manual then retry (en_now e) else wake_ready (en_now e)) w'))"

definition retry_playback :: "bool \<Rightarrow> app_settings option \<Rightarrow> unit result stream_prog" where
  "retry_playback manual settings =
     prog_bind (look w_pb_epoch) (\<lambda>requested. perform (retry_section manual settings requested))"

section \<open>Retiring a pipeline\<close>

text \<open>The caller holds the lifecycle lock. The pipeline moves from the state to a local variable, is
  finalised and stopped.\<close>

definition take_pipeline :: "stream_world \<Rightarrow> (nat option \<times> bool \<times> string option) \<times> stream_world" where
  "take_pipeline w =
     (let d = w_pb w
      in ((pd_playback d, pd_recording d, pd_recording_path d),
          (set_pb (\<lambda>d. d\<lparr>pd_recording := False, pd_recording_path := None, pd_instance := None, pd_start_time := None,
                       pd_playback := None\<rparr>) w)\<lparr>w_pb_held := pd_playback d\<rparr>))"

definition detach_recording :: "nat \<Rightarrow> stream_env \<Rightarrow> stream_world \<Rightarrow> unit result \<times> stream_world" where
  "detach_recording p e w =
     (if p < length (w_pipes w) \<and> pl_recording (w_pipes w ! p) = None then (Inl (Stream ''Recording bin not found''), w)
      else (en_call e, (case en_call e of
              Inl _ \<Rightarrow> w | Inr _ \<Rightarrow> w\<lparr>w_pipes := (w_pipes w)[p := (w_pipes w ! p)\<lparr>pl_recording := None\<rparr>]\<rparr>)))"

definition stop_pipeline :: "nat \<Rightarrow> stream_world \<Rightarrow> stream_world" where
  "stop_pipeline p w = w\<lparr>w_running := removeAll p (w_running w), w_pb_held := None\<rparr>"

definition report_recording :: "bool \<Rightarrow> unit result \<Rightarrow> string option \<Rightarrow> stream_world \<Rightarrow> stream_world" where
  "report_recording lost finalized path w =
     (let reason = (if lost then ''recording stopped: stream lost'' else ''recording stopped'')
      in set_pb (\<lambda>d. d\<lparr>pd_recording_report := Some (case finalized of
             Inr _ \<Rightarrow> reason
           | Inl err \<Rightarrow> reason @ ''; finalize incomplete: '' @ redact_url (app_error_to_string err)),
           pd_recording_finalized_path := path\<rparr>) w)"

definition retire_playback :: "bool \<Rightarrow> unit stream_prog" where
  "retire_playback lost =
     prog_bind (atomically take_pipeline) (\<lambda>(pipeline, recording, path).
     prog_bind (if recording
                then (case pipeline of
                        Some p \<Rightarrow> perform (detach_recording p)
                      | None \<Rightarrow> Ret (Inl (Stream ''Recording pipeline unavailable'')))
                else Ret (Inr ())) (\<lambda>finalized.
     prog_bind (case pipeline of Some p \<Rightarrow> modify (stop_pipeline p) | None \<Rightarrow> Ret ()) (\<lambda>_.
     if recording then modify (report_recording lost finalized path) else Ret ())))"

definition clear_intent :: "u64 \<Rightarrow> stream_world \<Rightarrow> stream_world" where
  "clear_intent stop_epoch w =
     (if (case pd_intent_epoch (w_pb w) of None \<Rightarrow> True | Some intent \<Rightarrow> intent < stop_epoch)
      then set_pb (\<lambda>d. d\<lparr>pd_health := None, pd_settings := None, pd_intent_epoch := None, pd_target := None,
             pd_adapter := None, pd_ready := None\<rparr>) (stop_health (pd_health (w_pb w)) w)
      else w)"

definition stop_playback :: "task_id \<Rightarrow> unit result stream_prog" where
  "stop_playback t =
     prog_bind (atomically fetch_pb_epoch) (\<lambda>stop_epoch.
     prog_bind (modify (clear_intent stop_epoch)) (\<lambda>_.
     with_pb_lock t (
       prog_bind (look (\<lambda>w. case pd_instance (w_pb w) of None \<Rightarrow> True | Some (epoch, _) \<Rightarrow> epoch < stop_epoch)) (\<lambda>old.
       prog_bind (if old then retire_playback False else Ret ()) (\<lambda>_.
       prog_bind (modify (\<lambda>w. if pd_settings (w_pb w) = None then set_pb (\<lambda>d. d\<lparr>pd_source := None\<rparr>) w else w)) (\<lambda>_.
       Ret (Inr ())))))))"

section \<open>Recording\<close>

definition RECORDING_MIN_FREE_BYTES :: u64 where
  "RECORDING_MIN_FREE_BYTES = 536870912"

definition recording_space_ok :: "u64 \<Rightarrow> bool" where
  "recording_space_ok free \<longleftrightarrow> RECORDING_MIN_FREE_BYTES \<le> free"

definition em_dash :: string where
  "em_dash = [CHR 0xE2, CHR 0x80, CHR 0x94]"

definition reserve_recording :: "string \<Rightarrow> stream_world \<Rightarrow> nat result \<times> stream_world" where
  "reserve_recording path w =
     (if pd_recording (w_pb w) then (Inl (Stream ''Already recording''), w)
      else if \<not> (case pd_health (w_pb w) of Some i \<Rightarrow> ph_state (w_pb_heap w ! i) = PbPlaying | None \<Rightarrow> False)
      then (Inl (Stream ''Playback has no usable frames to record''), w)
      else
        let w' = set_pb (\<lambda>d. d\<lparr>pd_recording_report := None, pd_recording_finalized_path := None\<rparr>) w
        in case pd_playback (w_pb w') of
             None \<Rightarrow> (Inl (Stream ''No active playback to record''), w')
           | Some p \<Rightarrow> (Inr p, set_pb (\<lambda>d. d\<lparr>pd_recording := True, pd_recording_path := Some path\<rparr>) w'))"

definition attach_recording :: "nat \<Rightarrow> string \<Rightarrow> stream_env \<Rightarrow> stream_world \<Rightarrow> unit result \<times> stream_world" where
  "attach_recording p path e w =
     (en_call e, (case en_call e of
        Inl _ \<Rightarrow> w | Inr _ \<Rightarrow> w\<lparr>w_pipes := (w_pipes w)[p := (w_pipes w ! p)\<lparr>pl_recording := Some path\<rparr>]\<rparr>))"

definition forget_recording :: "stream_world \<Rightarrow> stream_world" where
  "forget_recording = set_pb (\<lambda>d. d\<lparr>pd_recording := False, pd_recording_path := None\<rparr>)"

definition start_recording :: "task_id \<Rightarrow> unit result stream_prog" where
  "start_recording t = with_pb_lock t (
     prog_bind (ask en_free) (\<lambda>free.
     if (case free of Some f \<Rightarrow> \<not> recording_space_ok f | None \<Rightarrow> False)
     then Ret (Inl (Stream (''Not enough disk space to record '' @ em_dash @ '' '' @ show_nat (unat (the free) div 1048576) @ '' MB free, ''
                              @ show_nat (unat RECORDING_MIN_FREE_BYTES div 1048576) @ '' MB required'')))
     else
     prog_bind (ask en_path) (\<lambda>path.
     case path of
       Inl err \<Rightarrow> Ret (Inl err)
     | Inr path_str \<Rightarrow>
         prog_bind (atomically (reserve_recording path_str)) (\<lambda>reserved.
         case reserved of
           Inl err \<Rightarrow> Ret (Inl err)
         | Inr p \<Rightarrow>
             prog_bind (perform (attach_recording p path_str)) (\<lambda>attached.
             case attached of
               Inl err \<Rightarrow> prog_bind (modify forget_recording) (\<lambda>_. Ret (Inl err))
             | Inr _ \<Rightarrow> Ret (Inr ()))))))"

definition recording_target :: "stream_world \<Rightarrow> (nat \<times> string) result" where
  "recording_target w =
     (if \<not> pd_recording (w_pb w) then Inl (Stream ''Not currently recording'')
      else (case pd_playback (w_pb w) of
              None \<Rightarrow> Inl (Stream ''No active playback'')
            | Some p \<Rightarrow> Inr (p, case pd_recording_path (w_pb w) of Some path \<Rightarrow> path | None \<Rightarrow> ''unknown'')))"

definition stop_recording :: "task_id \<Rightarrow> string result stream_prog" where
  "stop_recording t = with_pb_lock t (
     prog_bind (look recording_target) (\<lambda>r.
     case r of
       Inl err \<Rightarrow> Ret (Inl err)
     | Inr (p, path) \<Rightarrow>
         prog_bind (perform (detach_recording p)) (\<lambda>detached.
         case detached of
           Inl err \<Rightarrow> Ret (Inl (Stream (''Failed to finalize recording '' @ path @ '': '' @ app_error_to_string err)))
         | Inr _ \<Rightarrow> prog_bind (modify forget_recording) (\<lambda>_. Ret (Inr path)))))"

definition mute_section :: "bool \<Rightarrow> stream_world \<Rightarrow> nat option \<times> stream_world" where
  "mute_section muted w =
     (pd_playback (w_pb w), set_pb (\<lambda>d. d\<lparr>pd_settings := map_option (\<lambda>s. s\<lparr>stream_cfg := (stream_cfg s)\<lparr>sc_audio_muted := muted\<rparr>\<rparr>) (pd_settings d)\<rparr>) w)"

definition set_audio_muted :: "bool \<Rightarrow> unit stream_prog" where
  "set_audio_muted muted =
     prog_bind (atomically (mute_section muted)) (\<lambda>pipeline.
     case pipeline of
       None \<Rightarrow> Ret ()
     | Some p \<Rightarrow> modify (\<lambda>w. w\<lparr>w_pipes := (w_pipes w)[p := (w_pipes w ! p)\<lparr>pl_muted := muted\<rparr>]\<rparr>))"

section \<open>One turn of the supervisor\<close>

definition playback_intent :: "stream_world \<Rightarrow> (u64 \<times> nat \<times> app_settings \<times> camera_target option \<times> nat option) option" where
  "playback_intent w =
     (case (pd_intent_epoch (w_pb w), pd_health (w_pb w), pd_settings (w_pb w)) of
        (Some epoch, Some health, Some settings) \<Rightarrow> Some (epoch, health, settings, pd_target (w_pb w), pd_window (w_pb w))
      | _ \<Rightarrow> None)"

definition playback_is_current :: "u64 \<Rightarrow> nat \<Rightarrow> stream_world \<Rightarrow> bool" where
  "playback_is_current epoch h w \<longleftrightarrow> w_pb_epoch w = epoch \<and> pd_intent_epoch (w_pb w) = Some epoch
     \<and> pd_health (w_pb w) = Some h \<and> pd_settings (w_pb w) \<noteq> None"

text \<open>A fault of the running attempt, whatever its generation: only the supervisor changes it.\<close>

definition fault_now :: "nat \<Rightarrow> playback_fault \<Rightarrow> stream_world \<Rightarrow> stream_world" where
  "fault_now h fault = on_preview h (\<lambda>x. snd (record_playback_fault (ph_generation x) fault x))"

definition device_loss :: "string \<Rightarrow> playback_fault" where
  "device_loss reason = playback_fault_new DeviceLoss reason True"

definition adapter_section ::
    "u64 \<Rightarrow> nat \<Rightarrow> string option \<times> u32 option \<Rightarrow> stream_world \<Rightarrow> u64 option \<times> stream_world" where
  "adapter_section epoch h selected_id w =
     (if w_pb_epoch w \<noteq> epoch \<or> pd_intent_epoch (w_pb w) \<noteq> Some epoch then (None, w)
      else if (case pd_adapter (w_pb w) of Some old \<Rightarrow> old \<noteq> selected_id | None \<Rightarrow> False)
      then (Some (epoch + 1), set_pb (\<lambda>d. d\<lparr>pd_intent_epoch := Some (epoch + 1), pd_adapter := Some selected_id\<rparr>)
              (fault_now h (device_loss ''Selected Ethernet adapter changed'') (w\<lparr>w_pb_epoch := epoch + 1\<rparr>)))
      else (Some epoch, set_pb (\<lambda>d. d\<lparr>pd_adapter := Some selected_id\<rparr>) w))"

definition readiness_section ::
    "nat \<Rightarrow> (u32 \<times> ipv4) option \<Rightarrow> stream_env \<Rightarrow> stream_world \<Rightarrow> (bool \<times> (u32 \<times> ipv4) option) \<times> stream_world" where
  "readiness_section h next_ready e w =
     (let previous = pd_ready (w_pb w); changed = next_ready \<noteq> None \<and> previous \<noteq> next_ready;
          w' = set_pb (\<lambda>d. d\<lparr>pd_ready := next_ready\<rparr>) w
      in ((changed, previous), if changed then on_preview h (wake_ready (en_now e)) w' else w'))"

definition ready_key :: "ready_path option result \<Rightarrow> (u32 \<times> ipv4) option" where
  "ready_key checked = (case checked of Inr (Some p) \<Rightarrow> Some (rp_index p, rp_source p) | _ \<Rightarrow> None)"

text \<open>The readiness check of a turn; it ends the turn when the intent was superseded meanwhile.\<close>

definition recheck_readiness :: "u64 \<Rightarrow> nat \<Rightarrow> camera_target option \<Rightarrow> nat option \<Rightarrow> bool stream_prog" where
  "recheck_readiness epoch h target pipeline =
     prog_bind (ask (\<lambda>e. en_preflight e target)) (\<lambda>checked.
     prog_bind (look (playback_is_current epoch h)) (\<lambda>current.
     if \<not> current then Ret False
     else
     prog_bind (perform (readiness_section h (ready_key checked))) (\<lambda>(changed, previous).
     prog_bind (case checked of
                  Inl err \<Rightarrow> if pipeline \<noteq> None then modify (fault_now h (device_loss (app_error_to_string err))) else Ret ()
                | Inr _ \<Rightarrow>
                    if changed \<and> previous \<noteq> None \<and> pipeline \<noteq> None
                    then modify (fault_now h (device_loss ''Selected Ethernet source address changed'')) else Ret ()) (\<lambda>_.
     Ret True))))"

definition STALL_THRESHOLD :: instant where "STALL_THRESHOLD = 3000"

definition watchdog_section :: "nat \<Rightarrow> stream_env \<Rightarrow> stream_world \<Rightarrow> (playback_fault option \<times> u64 option) \<times> stream_world" where
  "watchdog_section i e w =
     (let r = watchdog_check (en_now e) STALL_THRESHOLD (w_pb_heap w ! i)
      in (fst r, on_preview i (\<lambda>_. snd r) w))"

definition health_check :: "nat \<Rightarrow> unit stream_prog" where
  "health_check p =
     prog_bind (look (\<lambda>w. pl_health (w_pipes w ! p))) (\<lambda>i.
     prog_bind (perform (watchdog_section i)) (\<lambda>(fault, generation).
     case (fault, generation) of
       (Some f, Some g) \<Rightarrow> modify (on_preview i (\<lambda>x. snd (record_playback_fault g f x)))
     | _ \<Rightarrow> Ret ()))"

definition begin_section :: "nat \<Rightarrow> stream_world \<Rightarrow> u64 \<times> stream_world" where
  "begin_section h w = (let r = begin_attempt (w_pb_heap w ! h) in (fst r, on_preview h (\<lambda>_. snd r) w))"

definition fault_and_schedule :: "nat \<Rightarrow> u64 \<Rightarrow> playback_fault \<Rightarrow> unit stream_prog" where
  "fault_and_schedule h generation fault =
     prog_bind (modify (on_preview h (\<lambda>x. snd (record_playback_fault generation fault x)))) (\<lambda>_.
     perform (\<lambda>e w. ((), on_preview h (schedule_recovery (en_now e)) w)))"

text \<open>Building a pipeline: GStreamer's verdict, and for a camera source the address and a ready path.\<close>

definition build_pipeline ::
    "app_settings \<Rightarrow> ready_path option \<Rightarrow> nat \<Rightarrow> u64 \<Rightarrow> stream_env \<Rightarrow> stream_world \<Rightarrow> nat result \<times> stream_world" where
  "build_pipeline settings path h generation e w =
     (let built = (case sc_protocol (stream_cfg settings) of
                     InputUdp \<Rightarrow> en_call e
                   | InputRtsp \<Rightarrow>
                       res_bind (build_input_url (stream_cfg settings)) (\<lambda>_.
                       res_bind (en_call e) (\<lambda>_.
                       res_bind (ok_or (Stream ''Camera Ethernet path unavailable'') path) (\<lambda>_. Inr ()))))
      in case built of
           Inl err \<Rightarrow> (Inl err, w)
         | Inr _ \<Rightarrow>
             (Inr (length (w_pipes w)),
              w\<lparr>w_pipes := w_pipes w @ [\<lparr>pl_source = source_mode_of settings, pl_health = h, pl_generation = generation,
                   pl_recording = None, pl_muted = sc_audio_muted (stream_cfg settings)\<rparr>],
                w_running := length (w_pipes w) # w_running w, w_pb_held := Some (length (w_pipes w))\<rparr>))"

definition play_section :: "nat \<Rightarrow> u64 \<Rightarrow> stream_env \<Rightarrow> stream_world \<Rightarrow> unit result \<times> stream_world" where
  "play_section h generation e w = (en_call e, on_preview h (pipeline_started generation (en_now e)) w)"

text \<open>Installing a pipeline drops the one that was stored.\<close>

definition install_pipeline ::
    "u64 \<Rightarrow> u64 \<Rightarrow> ready_path option \<Rightarrow> nat \<Rightarrow> stream_env \<Rightarrow> stream_world \<Rightarrow> bool \<times> stream_world" where
  "install_pipeline epoch generation path p e w =
     (if w_pb_epoch w \<noteq> epoch \<or> pd_intent_epoch (w_pb w) \<noteq> Some epoch \<or> (path \<noteq> None \<and> en_stale e) then (False, w)
      else (True,
        (set_pb (\<lambda>d. d\<lparr>pd_target := (case path of Some x \<Rightarrow> Some (rp_target x) | None \<Rightarrow> pd_target d),
             pd_playback := Some p, pd_instance := Some (epoch, generation), pd_start_time := Some (en_now e)\<rparr>) w)
        \<lparr>w_running := (case pd_playback (w_pb w) of Some old \<Rightarrow> if old = p then w_running w else removeAll old (w_running w) | None \<Rightarrow> w_running w),
         w_pb_held := None\<rparr>))"

definition start_pipeline ::
    "u64 \<Rightarrow> nat \<Rightarrow> u64 \<Rightarrow> camera_target option \<Rightarrow> ready_path option \<Rightarrow> nat \<Rightarrow> unit stream_prog" where
  "start_pipeline epoch h generation target path p =
     prog_bind (ask (\<lambda>e. en_preflight e (case path of Some x \<Rightarrow> Some (rp_target x) | None \<Rightarrow> target))) (\<lambda>final_path.
     prog_bind (perform (\<lambda>e w. (\<not> playback_is_current epoch h w \<or> (path \<noteq> None \<and> en_stale e), w))) (\<lambda>superseded.
     if superseded
     then prog_bind (fault_and_schedule h generation (device_loss ''Ethernet session changed during playback build'')) (\<lambda>_.
          modify (stop_pipeline p))
     else case final_path of
       Inl err \<Rightarrow>
         prog_bind (fault_and_schedule h generation (device_loss (app_error_to_string err))) (\<lambda>_. modify (stop_pipeline p))
     | Inr _ \<Rightarrow>
         prog_bind (perform (play_section h generation)) (\<lambda>played.
         prog_bind (case played of
                      Inl err \<Rightarrow> modify (on_preview h (\<lambda>x. snd (record_playback_fault generation
                        (playback_fault_new PbConfiguration (app_error_to_string err) False) x)))
                    | Inr _ \<Rightarrow> Ret ()) (\<lambda>_.
         prog_bind (perform (install_pipeline epoch generation path p)) (\<lambda>installed.
         if installed then Ret ()
         else prog_bind (fault_and_schedule h generation (device_loss ''Ethernet session changed during playback start'')) (\<lambda>_.
              modify (stop_pipeline p)))))))"

definition attempt_playback ::
    "u64 \<Rightarrow> nat \<Rightarrow> app_settings \<Rightarrow> camera_target option \<Rightarrow> unit stream_prog" where
  "attempt_playback epoch h settings target =
     prog_bind (atomically (begin_section h)) (\<lambda>generation.
     prog_bind (ask (\<lambda>e. en_preflight e target)) (\<lambda>preflight.
     case preflight of
       Inl err \<Rightarrow> fault_and_schedule h generation (device_loss (app_error_to_string err))
     | Inr path \<Rightarrow>
         prog_bind (look (playback_is_current epoch h)) (\<lambda>current.
         if \<not> current then Ret ()
         else
         prog_bind (perform (build_pipeline settings path h generation)) (\<lambda>built.
         case built of
           Inl err \<Rightarrow> modify (on_preview h (\<lambda>x. snd (record_playback_fault generation
             (playback_fault_new PbConfiguration (redact_url (app_error_to_string err)) False) x)))
         | Inr p \<Rightarrow> start_pipeline epoch h generation target path p))))"

definition retire_or_attempt ::
    "u64 \<Rightarrow> nat \<Rightarrow> app_settings \<Rightarrow> camera_target option \<Rightarrow> nat option \<Rightarrow> unit stream_prog" where
  "retire_or_attempt epoch h settings target pipeline =
     prog_bind (perform (\<lambda>e w. (playback_snapshot_of (en_now e) (w_pb_heap w ! h), w))) (\<lambda>snap.
     prog_bind (look (\<lambda>w. pd_instance (w_pb w))) (\<lambda>instance_now.
     prog_bind (if pipeline \<noteq> None \<and> (instance_now \<noteq> Some (epoch, pn_generation snap) \<or> \<not> pn_active snap)
                then prog_bind (retire_playback True) (\<lambda>_. look (playback_is_current epoch h))
                else Ret True) (\<lambda>current.
     if \<not> current \<or> pn_state snap = PbFailed then Ret ()
     else
     prog_bind (if \<not> pn_active snap \<and> pn_next_retry_secs snap = None
                then perform (\<lambda>e w. ((), on_preview h (schedule_recovery (en_now e)) w)) else Ret ()) (\<lambda>_.
     prog_bind (perform (\<lambda>e w. (playback_due (en_now e) (w_pb_heap w ! h), w))) (\<lambda>due.
     if due then attempt_playback epoch h settings target else Ret ())))))"

definition playback_turn :: "unit stream_prog" where
  "playback_turn =
     prog_bind (look playback_intent) (\<lambda>intent.
     case intent of
       None \<Rightarrow> Ret ()
     | Some (epoch, h, settings, target, window) \<Rightarrow>
         prog_bind (look (playback_is_current epoch h)) (\<lambda>current.
         if \<not> current then Ret ()
         else
         prog_bind (ask en_selection) (\<lambda>selection.
         prog_bind (case (target, selection) of
                      (Some _, Some selected_id) \<Rightarrow> atomically (adapter_section epoch h selected_id)
                    | _ \<Rightarrow> Ret (Some epoch)) (\<lambda>authority.
         case authority of
           None \<Rightarrow> Ret ()
         | Some epoch \<Rightarrow>
             prog_bind (look (\<lambda>w. pd_playback (w_pb w))) (\<lambda>pipeline.
             prog_bind (look (\<lambda>w. ph_state (w_pb_heap w ! h))) (\<lambda>state.
             prog_bind (if target \<noteq> None \<and> state \<noteq> PbFailed then recheck_readiness epoch h target pipeline else Ret True) (\<lambda>current.
             if \<not> current then Ret ()
             else
             prog_bind (case pipeline of Some p \<Rightarrow> health_check p | None \<Rightarrow> Ret ()) (\<lambda>_.
             retire_or_attempt epoch h settings target pipeline))))))))"

definition playback_step :: "task_id \<Rightarrow> unit stream_prog" where
  "playback_step t = with_pb_lock t playback_turn"

end
