(* ===== verification/Relay_Service.thy ===== *)
theory Relay_Service
  imports Playback_Service
begin

text \<open>
  The re-stream service (\<open>streaming/relay_service.rs\<close>): starting, stopping, settings and protocol
  transactions, topology changes, the supervisor with its recovery loop, and the firewall leases, each
  as a task over the shared state. Settings are read as the world gives them, since other tasks may
  change them at any time.
\<close>

section \<open>Locks and counters\<close>

definition lock_rs :: "task_id \<Rightarrow> unit stream_prog" where
  "lock_rs t = await (\<lambda>w. w_rs_lock w = None) (\<lambda>w. w\<lparr>w_rs_lock := Some t\<rparr>)"

definition unlock_rs :: "unit stream_prog" where
  "unlock_rs = modify (\<lambda>w. w\<lparr>w_rs_lock := None\<rparr>)"

definition with_rs_lock :: "task_id \<Rightarrow> 'a stream_prog \<Rightarrow> 'a stream_prog" where
  "with_rs_lock t body = prog_bind (lock_rs t) (\<lambda>_. prog_bind body (\<lambda>x. prog_bind unlock_rs (\<lambda>_. Ret x)))"

definition with_transaction :: "task_id \<Rightarrow> 'a stream_prog \<Rightarrow> 'a stream_prog" where
  "with_transaction t body =
     prog_bind (await (\<lambda>w. w_rs_transaction w = None) (\<lambda>w. w\<lparr>w_rs_transaction := Some t\<rparr>)) (\<lambda>_.
     prog_bind body (\<lambda>x. prog_bind (modify (\<lambda>w. w\<lparr>w_rs_transaction := None\<rparr>)) (\<lambda>_. Ret x)))"

definition cas_rs_epoch :: "task_id \<Rightarrow> u64 \<Rightarrow> stream_world \<Rightarrow> bool \<times> stream_world" where
  "cas_rs_epoch t expected w =
     (if w_rs_epoch w = expected then (True, snd (fetch_rs_epoch t w)) else (False, w))"

section \<open>Results\<close>

record restream_server_info =
  ri_bind_scope :: bind_scope
  ri_firewall :: firewall_outcome
  ri_protocol :: restream_protocol
  ri_server_url :: string
  ri_display_url :: string

record operation_result =
  op_selected_protocol :: restream_protocol
  op_desired :: bool
  op_server_info :: "restream_server_info option"

record stop_intent =
  si_epoch :: u64
  si_target_generation :: "u64 option"
  si_firewall_generation :: "u64 option"
  si_was_desired :: bool

definition info_from_spec :: "start_spec \<Rightarrow> firewall_outcome \<Rightarrow> restream_server_info" where
  "info_from_spec sp fw = \<lparr>ri_bind_scope = sp_bind_scope sp, ri_firewall = fw, ri_protocol = spec_protocol sp,
     ri_server_url = client_url sp, ri_display_url = display_url sp\<rparr>"

definition current_operation_result :: "stream_world \<Rightarrow> operation_result" where
  "current_operation_result w = \<lparr>op_selected_protocol = rd_selected_protocol (w_rs w), op_desired = rd_desired (w_rs w),
     op_server_info = (if rd_desired (w_rs w)
       then map_option (\<lambda>sp. info_from_spec sp (rd_firewall (w_rs w))) (rd_spec (w_rs w)) else None)\<rparr>"

section \<open>Specification\<close>

definition optional_bind_interface :: "string \<Rightarrow> string option" where
  "optional_bind_interface v = (if v = [] then None else Some v)"

definition resolved_srt_passphrase :: "srt_passphrase_state \<Rightarrow> string result" where
  "resolved_srt_passphrase p =
     (case p of
        Unencrypted \<Rightarrow> Inr []
      | Available v \<Rightarrow> Inr v
      | srt_passphrase_state.Unavailable _ \<Rightarrow> res_bind (validate_srt_startable_from_state p) (\<lambda>_. Inr []))"

definition validate_selected_restream_startable :: "app_settings \<Rightarrow> unit result" where
  "validate_selected_restream_startable s =
     (if restream_protocol_sel s = OutputSrt then validate_srt_startable s else Inr ())"

definition validate_restream_switch_target :: "app_settings \<Rightarrow> bool \<Rightarrow> unit result" where
  "validate_restream_switch_target s was_desired =
     (if \<not> was_desired then Inr ()
      else if \<not> rs_enabled (rtsp_server s) then Inl (Validation ''Re-stream Server Enable must be on before switching'')
      else validate_selected_restream_startable s)"

definition selected_restream_runtime_changed :: "app_settings \<Rightarrow> app_settings \<Rightarrow> bool" where
  "selected_restream_runtime_changed old prospective =
     (case restream_protocol_sel old of
        OutputRtsp \<Rightarrow> rtsp_server old \<noteq> rtsp_server prospective
      | OutputSrt \<Rightarrow> srt_server old \<noteq> srt_server prospective)"

definition resolve_selected_restream_output :: "app_settings \<Rightarrow> (string option \<times> resolved_output) result" where
  "resolve_selected_restream_output s =
     res_bind (validate_selected_restream_startable s) (\<lambda>_.
     case restream_protocol_sel s of
       OutputRtsp \<Rightarrow> Inr (optional_bind_interface (rs_bind_interface (rtsp_server s)),
         OutRtsp (rs_port (rtsp_server s)) (''/stream-'' @ rs_token (rtsp_server s)))
     | OutputSrt \<Rightarrow>
         res_bind (resolved_srt_passphrase (ss_passphrase (srt_server s))) (\<lambda>passphrase.
         Inr (optional_bind_interface (ss_bind_interface (srt_server s)),
           OutSrt (ss_port (srt_server s)) passphrase (ss_latency_ms (srt_server s)) (ss_stream_id (srt_server s)))))"

definition is_apipa :: "string \<Rightarrow> bool" where
  "is_apipa addr \<longleftrightarrow> take 8 addr = ''169.254.''"

definition first_usable_ip :: "ip_info list \<Rightarrow> string set \<Rightarrow> string option" where
  "first_usable_ip ips adopted = List.find (\<lambda>addr. addr \<notin> adopted \<and> \<not> is_apipa addr) (map ip_address ips)"

definition select_display_ip :: "interface_info list \<Rightarrow> string set \<Rightarrow> string option" where
  "select_display_ip interfaces adopted =
     (let physical = filter (\<lambda>i. if_is_up i \<and> \<not> if_is_vpn i \<and> \<not> if_is_virtual i) interfaces;
          ordered = filter if_is_wifi physical @ filter (\<lambda>i. if_is_ethernet i \<and> \<not> if_is_wifi i) physical
      in case List.map_filter (\<lambda>i. first_usable_ip (if_ips i) adopted) ordered of [] \<Rightarrow> None | ip # _ \<Rightarrow> Some ip)"

definition get_display_ip :: "interface_info list result \<Rightarrow> string set \<Rightarrow> string option" where
  "get_display_ip interfaces adopted = (case interfaces of Inl _ \<Rightarrow> None | Inr rows \<Rightarrow> select_display_ip rows adopted)"

definition resolve_binding ::
    "string option \<Rightarrow> string option \<Rightarrow> string set \<Rightarrow> (native_identity option \<times> bind_scope) result stream_prog" where
  "resolve_binding nm saved adopted =
     prog_bind (look w_revision) (\<lambda>revision.
     prog_bind (ask en_native) (\<lambda>native. Ret (bind_resolve revision native nm saved adopted)))"

definition saved_bind_id :: "app_settings \<Rightarrow> string option" where
  "saved_bind_id s = (case restream_protocol_sel s of
     OutputRtsp \<Rightarrow> rs_bind_interface_id (rtsp_server s) | OutputSrt \<Rightarrow> ss_bind_interface_id (srt_server s))"

definition resolved_source_of :: "app_settings \<Rightarrow> resolved_source result" where
  "resolved_source_of s = (case sc_protocol (stream_cfg s) of
     InputRtsp \<Rightarrow> res_bind (build_input_url (stream_cfg s)) (\<lambda>url. Inr (SrcRtsp url))
   | InputUdp \<Rightarrow> Inr (SrcUdp (sc_udp_port (stream_cfg s))))"

definition scope_address :: "bind_scope \<Rightarrow> string option" where
  "scope_address scope = (case scope of InterfaceScope _ _ address _ _ \<Rightarrow> Some address | _ \<Rightarrow> None)"

definition make_spec ::
    "app_settings \<Rightarrow> string option \<Rightarrow> resolved_output \<Rightarrow> resolved_source \<Rightarrow> native_identity option \<times> bind_scope
      \<Rightarrow> string option \<Rightarrow> start_spec" where
  "make_spec s bind_interface output source resolved display =
     (let bind_address = scope_address (snd resolved)
      in \<lparr>sp_source = source, sp_output = output,
          sp_bind_interface = (case fst resolved of Some i \<Rightarrow> Some (ni_alias i) | None \<Rightarrow> bind_interface),
          sp_bind_identity = fst resolved, sp_bind_scope = snd resolved, sp_bind_address = bind_address,
          sp_advertised_ip = (case bind_address of Some ip \<Rightarrow> ip
            | None \<Rightarrow> (case display of Some ip \<Rightarrow> ip | None \<Rightarrow> ''0.0.0.0'')),
          sp_username = username (credentials_cfg s), sp_password = password (credentials_cfg s)\<rparr>)"

definition resolve_restream_start_spec :: "app_settings \<Rightarrow> string set \<Rightarrow> start_spec result stream_prog" where
  "resolve_restream_start_spec s adopted =
     (case res_bind (resolve_selected_restream_output s) (\<lambda>(bi, output).
             res_bind (resolved_source_of s) (\<lambda>source. Inr (bi, output, source))) of
        Inl err \<Rightarrow> Ret (Inl err)
      | Inr (bind_interface, output, source) \<Rightarrow>
          if bind_interface \<noteq> None \<and> saved_bind_id s = None
          then Ret (Inl (Stream ''Choose the unavailable saved bind interface again to establish its identity''))
          else
          prog_bind (resolve_binding bind_interface (saved_bind_id s) adopted) (\<lambda>resolved.
          case (case resolved of
                  Inr r \<Rightarrow> Inr r
                | Inl err \<Rightarrow> if bind_interface = None then Inr (None, UnknownScope (app_error_to_string err)) else Inl err) of
            Inl err \<Rightarrow> Ret (Inl err)
          | Inr r \<Rightarrow>
              prog_bind (ask en_interfaces) (\<lambda>interfaces.
              Ret (Inr (make_spec s bind_interface output source r (get_display_ip interfaces adopted))))))"

section \<open>Currency\<close>

definition relay_state_is_generation :: "u64 \<Rightarrow> stream_world \<Rightarrow> bool" where
  "relay_state_is_generation g w \<longleftrightarrow> rd_desired (w_rs w)
     \<and> (case rd_health (w_rs w) of Some i \<Rightarrow> rh_server_generation (w_rs_heap w ! i) = g | None \<Rightarrow> False)"

definition relay_is_current :: "u64 \<Rightarrow> u64 \<Rightarrow> stream_world \<Rightarrow> bool" where
  "relay_is_current epoch g w \<longleftrightarrow> w_rs_epoch w = epoch \<and> rd_intent_epoch (w_rs w) = Some epoch \<and> relay_state_is_generation g w"

definition restream_intent_is_current :: "u64 \<Rightarrow> stream_world \<Rightarrow> bool" where
  "restream_intent_is_current epoch w \<longleftrightarrow> w_rs_epoch w = epoch \<and> rd_desired (w_rs w) \<and> rd_intent_epoch (w_rs w) = Some epoch"

definition current_relay_context :: "u64 \<Rightarrow> stream_world \<Rightarrow> (u64 \<times> nat) option" where
  "current_relay_context g w =
     (if \<not> relay_state_is_generation g w then None
      else (case (rd_intent_epoch (w_rs w), rd_health (w_rs w)) of
              (Some epoch, Some i) \<Rightarrow> if w_rs_epoch w \<noteq> epoch then None else Some (epoch, i)
            | _ \<Rightarrow> None))"

definition scope_revision :: "bind_scope \<Rightarrow> stream_world \<Rightarrow> u64" where
  "scope_revision scope w =
     (case scope of
        AllAddresses _ _ revision \<Rightarrow> revision
      | InterfaceScope _ _ _ _ revision \<Rightarrow> revision
      | UnknownScope _ \<Rightarrow> w_revision w)"

definition scope_current :: "start_spec \<Rightarrow> stream_world \<Rightarrow> bool" where
  "scope_current sp w \<longleftrightarrow> w_revision w = scope_revision (sp_bind_scope sp) w"

definition resolved_start_is_healthy_noop ::
    "bool \<Rightarrow> start_spec option \<Rightarrow> start_spec \<Rightarrow> relay_state option \<Rightarrow> u64 option \<Rightarrow> u64 option \<Rightarrow> bool \<Rightarrow> bool" where
  "resolved_start_is_healthy_noop desired current candidate state health_generation listener_generation alive \<longleftrightarrow>
     desired \<and> (case current of Some c \<Rightarrow> spec_eq c (candidate\<lparr>sp_bind_scope := sp_bind_scope c\<rparr>) | None \<Rightarrow> False)
     \<and> state \<in> {Some Listening, Some Streaming}
     \<and> health_generation = listener_generation \<and> health_generation \<noteq> None \<and> alive"

definition restream_stop_target :: "bool \<Rightarrow> u64 option \<Rightarrow> u64 option \<Rightarrow> u64 option" where
  "restream_stop_target stops_desired desired_generation live_generation =
     (if stops_desired then live_generation
      else if live_generation \<noteq> desired_generation then live_generation else None)"

text \<open>The gate every upstream connection of a listener passes.\<close>

definition guard_relay_upstream :: "nat \<Rightarrow> u64 \<Rightarrow> ready_path result \<Rightarrow> stream_world \<Rightarrow> ready_path result" where
  "guard_relay_upstream i expected ready w =
     (if w_rs_generation w \<noteq> expected \<or> \<not> upstream_allowed (w_rs_heap w ! i)
      then Inl (Stream ''Relay connection superseded or retired'') else ready)"

section \<open>Firewall leases\<close>

definition firewall_role :: "restream_protocol \<Rightarrow> firewall_rule" where
  "firewall_role p = (case p of OutputRtsp \<Rightarrow> RuleRtsp | OutputSrt \<Rightarrow> RuleSrt)"

text \<open>The two requests to the Windows policy. Enabling may succeed or fail with any verdict. Disabling
  reports \<open>Inactive\<close> only after the rule was verified to be disabled.\<close>

definition ensure_rule :: "firewall_rule \<Rightarrow> stream_env \<Rightarrow> stream_world \<Rightarrow> firewall_outcome \<times> stream_world" where
  "ensure_rule role e w = (en_outcome e, w\<lparr>w_rules := (if en_enabled e then [role] else []) @ removeAll role (w_rules w)\<rparr>)"

definition disable_rule :: "firewall_rule \<Rightarrow> stream_env \<Rightarrow> stream_world \<Rightarrow> firewall_outcome \<times> stream_world" where
  "disable_rule role e w =
     (en_outcome e, if en_outcome e = FwInactive \<or> \<not> en_enabled e then w\<lparr>w_rules := removeAll role (w_rules w)\<rparr> else w)"

definition lease_of :: "u64 \<Rightarrow> stream_world \<Rightarrow> firewall_rule option" where
  "lease_of generation w =
     (case rd_firewall_generation (w_rs w) of
        Some (current, role) \<Rightarrow> if current = generation then Some role else None
      | None \<Rightarrow> None)"

definition record_retirement :: "u64 \<Rightarrow> firewall_rule \<Rightarrow> firewall_outcome \<Rightarrow> stream_world \<Rightarrow> stream_world" where
  "record_retirement generation role verdict w =
     (if rd_firewall_generation (w_rs w) = Some (generation, role)
      then set_rs (\<lambda>r. r\<lparr>rd_firewall_generation := (if verdict = FwInactive then None else rd_firewall_generation r),
             rd_firewall := verdict\<rparr>) w
      else w)"

definition retire_firewall :: "u64 \<Rightarrow> bool stream_prog" where
  "retire_firewall generation =
     prog_bind (look (lease_of generation)) (\<lambda>lease.
     case lease of
       None \<Rightarrow> Ret True
     | Some role \<Rightarrow>
         prog_bind (perform (disable_rule role)) (\<lambda>verdict.
         prog_bind (modify (record_retirement generation role verdict)) (\<lambda>_.
         Ret (verdict = FwInactive))))"

definition lease_section :: "u64 \<Rightarrow> firewall_rule \<Rightarrow> stream_world \<Rightarrow> bool \<times> stream_world" where
  "lease_section generation role w =
     (if \<not> relay_state_is_generation generation w then (False, w)
      else (True, set_rs (\<lambda>r. r\<lparr>rd_firewall_generation := Some (generation, role)\<rparr>) w))"

definition record_outcome :: "u64 \<Rightarrow> firewall_rule \<Rightarrow> firewall_outcome \<Rightarrow> stream_world \<Rightarrow> stream_world" where
  "record_outcome generation role verdict w =
     (if rd_firewall_generation (w_rs w) = Some (generation, role)
      then set_rs (\<lambda>r. r\<lparr>rd_firewall := verdict\<rparr>) w else w)"

definition apply_firewall :: "start_spec \<Rightarrow> u64 \<Rightarrow> firewall_outcome stream_prog" where
  "apply_firewall sp generation =
     prog_bind (look (\<lambda>w. rd_firewall_generation (w_rs w))) (\<lambda>prior.
     prog_bind (case prior of Some (g, _) \<Rightarrow> retire_firewall g | None \<Rightarrow> Ret True) (\<lambda>retired.
     if \<not> retired then look (\<lambda>w. rd_firewall (w_rs w))
     else
     prog_bind (atomically (lease_section generation (firewall_role (spec_protocol sp)))) (\<lambda>leased.
     if \<not> leased then Ret FwInactive
     else
     prog_bind (perform (ensure_rule (firewall_role (spec_protocol sp)))) (\<lambda>verdict.
     prog_bind (modify (record_outcome generation (firewall_role (spec_protocol sp)) verdict)) (\<lambda>_.
     Ret verdict)))))"

definition startup_firewall_status :: "firewall_outcome \<Rightarrow> unit stream_prog" where
  "startup_firewall_status verdict =
     modify (\<lambda>w. if rd_firewall_generation (w_rs w) = None then set_rs (\<lambda>r. r\<lparr>rd_firewall := verdict\<rparr>) w else w)"

section \<open>Intents\<close>

definition publish_start_section :: "u64 \<Rightarrow> stream_env \<Rightarrow> stream_world \<Rightarrow> (u64 \<times> bool) option \<times> stream_world" where
  "publish_start_section epoch e w =
     (if w_rs_epoch w \<noteq> epoch then (None, w)
      else
        let preserve = rd_desired (w_rs w) \<and> rd_spec (w_rs w) \<noteq> None \<and> rd_health (w_rs w) \<noteq> None
        in (Some (epoch, preserve), set_rs (\<lambda>r. r\<lparr>rd_desired := True, rd_intent_epoch := Some epoch,
              rd_start_time := (if preserve then rd_start_time r else Some (en_now e))\<rparr>) w))"

definition publish_restream_start_intent :: "u64 \<Rightarrow> (u64 \<times> bool) option stream_prog" where
  "publish_restream_start_intent epoch = perform (publish_start_section epoch)"

definition begin_restream_start_intent :: "task_id \<Rightarrow> (u64 \<times> bool) option stream_prog" where
  "begin_restream_start_intent t = prog_bind (atomically (fetch_rs_epoch t)) publish_restream_start_intent"

definition begin_restream_start_intent_if_current :: "task_id \<Rightarrow> u64 \<Rightarrow> (u64 \<times> bool) option stream_prog" where
  "begin_restream_start_intent_if_current t expected =
     prog_bind (atomically (cas_rs_epoch t expected)) (\<lambda>ok.
     if ok then publish_restream_start_intent (expected + 1) else Ret None)"

definition clear_desired :: "relay_data \<Rightarrow> relay_data" where
  "clear_desired r = r\<lparr>rd_desired := False, rd_spec := None, rd_health := None, rd_intent_epoch := None, rd_start_time := None\<rparr>"

definition stop_relay_health :: "stream_world \<Rightarrow> stream_world" where
  "stop_relay_health w = (case rd_health (w_rs w) of Some i \<Rightarrow> on_relay i relay_stop w | None \<Rightarrow> w)"

definition cancel_section :: "u64 \<Rightarrow> bool \<Rightarrow> stream_world \<Rightarrow> u64 option \<times> stream_world" where
  "cancel_section epoch preserve w =
     (if w_rs_epoch w \<noteq> epoch \<or> rd_intent_epoch (w_rs w) \<noteq> Some epoch then (None, w)
      else if preserve
      then ((case rd_health (w_rs w) of
               Some i \<Rightarrow> if rh_state (w_rs_heap w ! i) \<in> {RelayFailed, RelayRecovering}
                         then Some (rh_server_generation (w_rs_heap w ! i)) else None
             | None \<Rightarrow> None), w)
      else (None, set_rs clear_desired (stop_relay_health w)))"

definition cancel_restream_start_intent :: "u64 \<Rightarrow> bool \<Rightarrow> unit stream_prog" where
  "cancel_restream_start_intent epoch preserve =
     prog_bind (look (\<lambda>w. w_rs_epoch w = epoch)) (\<lambda>current.
     if \<not> current then Ret ()
     else
     prog_bind (atomically (cancel_section epoch preserve)) (\<lambda>retry_generation.
     case retry_generation of
       Some g \<Rightarrow> modify (send_event (RetryRequested g))
     | None \<Rightarrow> Ret ()))"

definition publish_stop_section :: "u64 \<Rightarrow> stream_world \<Rightarrow> stop_intent option \<times> stream_world" where
  "publish_stop_section epoch w =
     (if w_rs_epoch w \<noteq> epoch then (None, w)
      else
        let r = w_rs w;
            desired_generation = map_option (\<lambda>i. rh_server_generation (w_rs_heap w ! i)) (rd_health r);
            live_generation = map_option sv_generation (rd_server r);
            leased = map_option fst (rd_firewall_generation r);
            target = (case restream_stop_target (rd_desired r) desired_generation live_generation of Some g \<Rightarrow> Some g | None \<Rightarrow> leased)
        in (Some \<lparr>si_epoch = epoch, si_target_generation = target, si_firewall_generation = leased, si_was_desired = rd_desired r\<rparr>,
            if rd_desired r then set_rs (\<lambda>r. (clear_desired r)\<lparr>rd_target := None\<rparr>) (stop_relay_health w) else w))"

definition begin_restream_stop_intent :: "task_id \<Rightarrow> stop_intent option stream_prog" where
  "begin_restream_stop_intent t = prog_bind (atomically (fetch_rs_epoch t)) (\<lambda>epoch. atomically (publish_stop_section epoch))"

definition begin_restream_stop_intent_if_current :: "task_id \<Rightarrow> u64 \<Rightarrow> stop_intent option stream_prog" where
  "begin_restream_stop_intent_if_current t expected =
     prog_bind (atomically (cas_rs_epoch t expected)) (\<lambda>ok.
     if ok then atomically (publish_stop_section (expected + 1)) else Ret None)"

section \<open>Listeners\<close>

text \<open>A listener that is taken from the state is in a local variable until it is shut down.\<close>

definition take_server :: "(restream_server \<Rightarrow> bool) \<Rightarrow> stream_world \<Rightarrow> restream_server option \<times> stream_world" where
  "take_server which w =
     (case rd_server (w_rs w) of
        Some sv \<Rightarrow>
          if which sv then (Some sv, (set_rs (\<lambda>r. r\<lparr>rd_server := None\<rparr>) w)\<lparr>w_rs_held := Some sv\<rparr>) else (None, w)
      | None \<Rightarrow> (None, w))"

definition shutdown_server :: "restream_server \<Rightarrow> stream_world \<Rightarrow> stream_world" where
  "shutdown_server sv w = w\<lparr>w_listeners := removeAll sv (w_listeners w), w_rs_held := None\<rparr>"

definition begin_instance :: "nat \<Rightarrow> bool \<Rightarrow> stream_world \<Rightarrow> u64 \<times> stream_world" where
  "begin_instance i recovering w =
     (let r = begin_server_instance recovering (w_rs_heap w ! i) in (fst r, on_relay i (\<lambda>_. snd r) w))"

definition build_listener ::
    "start_spec \<Rightarrow> nat \<Rightarrow> u64 \<Rightarrow> stream_env \<Rightarrow> stream_world
      \<Rightarrow> ((build_failure_kind \<times> app_error) + restream_server) \<times> stream_world" where
  "build_listener sp i inst e w =
     (case snd (en_build e) of
        Inl err \<Rightarrow> (Inl (fst (en_build e), err), w)
      | Inr _ \<Rightarrow>
          let sv = \<lparr>sv_protocol = spec_protocol sp, sv_health = i, sv_generation = rh_server_generation (w_rs_heap w ! i),
                    sv_instance = inst, sv_udp_port = udp_ingest_port sp\<rparr>
          in (Inr sv, w\<lparr>w_listeners := sv # w_listeners w, w_rs_held := Some sv\<rparr>))"

definition build_restream_server ::
    "start_spec \<Rightarrow> nat \<Rightarrow> bool \<Rightarrow> (u64 \<times> ((build_failure_kind \<times> app_error) + restream_server)) stream_prog" where
  "build_restream_server sp i recovering =
     prog_bind (atomically (begin_instance i recovering)) (\<lambda>inst.
     prog_bind (perform (build_listener sp i inst)) (\<lambda>built. Ret (inst, built)))"

text \<open>Storing a listener drops the one that was stored.\<close>

definition install_server ::
    "u64 \<Rightarrow> u64 \<Rightarrow> start_spec \<Rightarrow> bool \<Rightarrow> restream_server \<Rightarrow> stream_world \<Rightarrow> bool \<times> stream_world" where
  "install_server epoch generation sp publish_spec sv w =
     (if relay_is_current epoch generation w \<and> scope_current sp w
      then (True, (set_rs (\<lambda>r. r\<lparr>rd_spec := (if publish_spec then Some sp else rd_spec r), rd_server := Some sv\<rparr>) w)
             \<lparr>w_listeners := (case rd_server (w_rs w) of
                Some old \<Rightarrow> if old = sv then w_listeners w else removeAll old (w_listeners w) | None \<Rightarrow> w_listeners w),
              w_rs_held := None\<rparr>)
      else (False, w))"

section \<open>Start\<close>

datatype reservation =
    StartSuperseded
  | HealthyNoop firewall_outcome
  | PortDenied app_error
  | Reserved nat u64

definition healthy_noop :: "start_spec \<Rightarrow> stream_world \<Rightarrow> bool" where
  "healthy_noop sp w =
     (let r = w_rs w; health = map_option ((!) (w_rs_heap w)) (rd_health r)
      in resolved_start_is_healthy_noop (rd_desired r) (rd_spec r) sp (map_option rh_state health)
           (map_option rh_server_generation health) (map_option sv_generation (rd_server r))
           (case rd_server r of Some sv \<Rightarrow> server_loop_alive w sv | None \<Rightarrow> False))"

definition reserve_generation ::
    "start_spec \<Rightarrow> camera_target option \<Rightarrow> stream_env \<Rightarrow> stream_world \<Rightarrow> reservation \<times> stream_world" where
  "reserve_generation sp target e w =
     (let g = w_rs_generation w + 1; i = length (w_rs_heap w)
      in (Reserved i g,
          (set_rs (\<lambda>r. r\<lparr>rd_target := target, rd_spec := Some sp, rd_health := Some i, rd_start_time := Some (en_now e)\<rparr>) w)
          \<lparr>w_rs_generation := g, w_rs_heap := w_rs_heap w @ [relay_health_new g (ingest_kind sp)],
           w_rs_ports := w_rs_ports w @ [udp_ingest_port sp]\<rparr>))"

definition reserve_section ::
    "start_spec \<Rightarrow> camera_target option \<Rightarrow> u64 \<Rightarrow> stream_env \<Rightarrow> stream_world \<Rightarrow> reservation \<times> stream_world" where
  "reserve_section sp target epoch e w =
     (if w_rs_epoch w \<noteq> epoch then (StartSuperseded, w)
      else if healthy_noop sp w \<and> rd_target (w_rs w) = target then (HealthyNoop (rd_firewall (w_rs w)), w)
      else (case (case udp_ingest_port sp of Some port \<Rightarrow> guard_relay (w_state w) port | None \<Rightarrow> Inr ()) of
              Inl err \<Rightarrow> (PortDenied err, w)
            | Inr _ \<Rightarrow> reserve_generation sp target e w))"

definition superseded :: app_error where
  "superseded = Stream ''Re-stream server start was superseded by a newer request''"

definition superseded_by_stop :: app_error where
  "superseded_by_stop = Stream ''Re-stream server start was superseded by a stop''"

definition take_old_server :: "u64 \<Rightarrow> u64 \<Rightarrow> stream_world \<Rightarrow> restream_server option option \<times> stream_world" where
  "take_old_server epoch generation w =
     (if \<not> relay_state_is_generation generation w \<or> rd_intent_epoch (w_rs w) \<noteq> Some epoch then (None, w)
      else map_prod Some id (take_server (\<lambda>_. True) w))"

text \<open>A failure after the reservation is recorded in the health and hands the generation to the
  supervisor.\<close>

definition fail_and_retry :: "nat \<Rightarrow> u64 \<Rightarrow> (relay_health \<Rightarrow> relay_health) \<Rightarrow> app_error \<Rightarrow> 'a result stream_prog" where
  "fail_and_retry i generation mark err =
     prog_bind (modify (on_relay i mark)) (\<lambda>_.
     prog_bind (modify (send_event (RetryRequested generation))) (\<lambda>_. Ret (Inl err)))"

definition abandon :: "nat \<Rightarrow> u64 \<Rightarrow> u64 \<Rightarrow> string \<Rightarrow> app_error \<Rightarrow> 'a result stream_prog" where
  "abandon i epoch generation reason err =
     prog_bind (retire_firewall generation) (\<lambda>_.
     prog_bind (look (\<lambda>w. w_rs_epoch w = epoch)) (\<lambda>current.
     if current then fail_and_retry i generation (mark_resolution_failed reason) err else Ret (Inl err)))"

definition install_candidate ::
    "start_spec \<Rightarrow> nat \<Rightarrow> u64 \<Rightarrow> u64 \<Rightarrow> firewall_outcome \<Rightarrow> restream_server_info result stream_prog" where
  "install_candidate sp i epoch generation fw =
     prog_bind (build_restream_server sp i False) (\<lambda>(inst, built).
     case built of
       Inl (kind, err) \<Rightarrow>
         prog_bind (retire_firewall generation) (\<lambda>_.
         fail_and_retry i generation (mark_build_failed inst (redact_relay_text (app_error_to_string err) (mount_path sp)) False) err)
     | Inr sv \<Rightarrow>
         prog_bind (atomically (install_server epoch generation sp False sv)) (\<lambda>installed.
         if installed then Ret (Inr (info_from_spec sp fw))
         else
           prog_bind (modify (shutdown_server sv)) (\<lambda>_.
           abandon i epoch generation ''Bind topology changed during listener construction'' superseded)))"

definition replace_listener ::
    "start_spec \<Rightarrow> camera_target option \<Rightarrow> nat \<Rightarrow> u64 \<Rightarrow> u64 \<Rightarrow> unit result \<Rightarrow> restream_server_info result stream_prog" where
  "replace_listener sp target i epoch generation gst =
     prog_bind (look (relay_is_current epoch generation)) (\<lambda>current.
     if \<not> current then Ret (Inl superseded)
     else
     prog_bind (atomically (take_old_server epoch generation)) (\<lambda>taken.
     case taken of
       None \<Rightarrow> Ret (Inl superseded)
     | Some old \<Rightarrow>
         prog_bind (case old of
                      Some sv \<Rightarrow> prog_bind (modify (shutdown_server sv)) (\<lambda>_. retire_firewall (sv_generation sv))
                    | None \<Rightarrow> Ret True) (\<lambda>_.
         prog_bind (look (relay_is_current epoch generation)) (\<lambda>current.
         if \<not> current then Ret (Inl superseded)
         else case gst of
           Inl err \<Rightarrow>
             prog_bind (atomically (begin_instance i False)) (\<lambda>inst.
             fail_and_retry i generation
               (mark_build_failed inst (redact_relay_text (app_error_to_string err) (mount_path sp)) False) err)
         | Inr _ \<Rightarrow>
             prog_bind (ask (\<lambda>e. en_preflight e target)) (\<lambda>preflight.
             case preflight of
               Inl err \<Rightarrow> fail_and_retry i generation (mark_resolution_failed (app_error_to_string err)) err
             | Inr _ \<Rightarrow>
                 prog_bind (look (scope_current sp)) (\<lambda>unchanged.
                 if \<not> unchanged
                 then fail_and_retry i generation (mark_resolution_failed ''Bind topology changed during preflight; resolving again'')
                        (Stream ''Bind topology changed; listener recovery is pending'')
                 else
                 prog_bind (apply_firewall sp generation) (\<lambda>fw.
                 prog_bind (look (\<lambda>w. relay_is_current epoch generation w \<and> scope_current sp w)) (\<lambda>current.
                 if \<not> current
                 then abandon i epoch generation ''Bind topology changed during policy reconciliation''
                        (Stream ''Listener start superseded during Windows rule reconciliation'')
                 else install_candidate sp i epoch generation fw))))))))"

definition start_restream_server_inner ::
    "task_id \<Rightarrow> app_settings \<Rightarrow> string set \<Rightarrow> u64 \<Rightarrow> bool \<Rightarrow> restream_server_info result stream_prog" where
  "start_restream_server_inner t settings adopted epoch preserve =
     (let target = stream_target (stream_cfg settings);
          cancelled = (\<lambda>err. prog_bind (cancel_restream_start_intent epoch preserve) (\<lambda>_. Ret (Inl err)))
      in
      prog_bind (ask (\<lambda>e. en_preflight e target)) (\<lambda>preflight.
      case preflight of
        Inl err \<Rightarrow> cancelled err
      | Inr path \<Rightarrow>
          let target = (case path of Some p \<Rightarrow> Some (rp_target p) | None \<Rightarrow> target) in
          prog_bind (resolve_restream_start_spec settings adopted) (\<lambda>resolved.
          case resolved of
            Inl err \<Rightarrow> cancelled err
          | Inr sp \<Rightarrow>
              prog_bind (look (\<lambda>w. w_rs_epoch w = epoch)) (\<lambda>current.
              if \<not> current then Ret (Inl superseded_by_stop)
              else
              prog_bind (perform (reserve_section sp target epoch)) (\<lambda>reserved.
              case reserved of
                StartSuperseded \<Rightarrow> Ret (Inl superseded_by_stop)
              | HealthyNoop fw \<Rightarrow> Ret (Inr (info_from_spec sp fw))
              | PortDenied err \<Rightarrow> cancelled err
              | Reserved i generation \<Rightarrow>
                  prog_bind (ask en_gst) (\<lambda>gst.
                  with_rs_lock t (replace_listener sp target i epoch generation gst)))))))"

definition restream_disabled :: app_error where
  "restream_disabled = Validation ''Re-stream Server Enable must be on before starting''"

definition check_startable :: "app_settings \<Rightarrow> app_settings result" where
  "check_startable settings =
     res_bind (validate_prospective_settings settings) (\<lambda>s.
     if \<not> rs_enabled (rtsp_server s) then Inl restream_disabled
     else res_bind (validate_selected_restream_startable s) (\<lambda>_. Inr s))"

definition start_restream_server :: "task_id \<Rightarrow> string set \<Rightarrow> restream_server_info result stream_prog" where
  "start_restream_server t adopted =
     prog_bind (ask en_settings) (\<lambda>initial.
     case check_startable initial of
       Inl err \<Rightarrow> Ret (Inl err)
     | Inr _ \<Rightarrow>
         prog_bind (begin_restream_start_intent t) (\<lambda>intent.
         case intent of
           None \<Rightarrow> Ret (Inl superseded)
         | Some (epoch, preserve) \<Rightarrow>
             with_transaction t (
               prog_bind (look (restream_intent_is_current epoch)) (\<lambda>current.
               if \<not> current then Ret (Inl superseded)
               else
               prog_bind (ask en_settings) (\<lambda>settings.
               case validate_prospective_settings settings of
                 Inl err \<Rightarrow> prog_bind (cancel_restream_start_intent epoch preserve) (\<lambda>_. Ret (Inl err))
               | Inr s \<Rightarrow>
                   if \<not> rs_enabled (rtsp_server s)
                   then prog_bind (cancel_restream_start_intent epoch False) (\<lambda>_. Ret (Inl restream_disabled))
                   else (case validate_selected_restream_startable s of
                           Inl err \<Rightarrow> prog_bind (cancel_restream_start_intent epoch preserve) (\<lambda>_. Ret (Inl err))
                         | Inr _ \<Rightarrow> start_restream_server_inner t s adopted epoch preserve))))))"

section \<open>Stop\<close>

definition finish_restream_stop :: "task_id \<Rightarrow> stop_intent \<Rightarrow> unit result stream_prog" where
  "finish_restream_stop t intent = with_rs_lock t (
     prog_bind (atomically (take_server (\<lambda>sv. Some (sv_generation sv) = si_target_generation intent))) (\<lambda>server.
     prog_bind (case server of Some sv \<Rightarrow> modify (shutdown_server sv) | None \<Rightarrow> Ret ()) (\<lambda>_.
     prog_bind (case si_target_generation intent of Some g \<Rightarrow> retire_firewall g | None \<Rightarrow> Ret True) (\<lambda>_.
     prog_bind (case si_firewall_generation intent of
                  Some g \<Rightarrow> if si_firewall_generation intent \<noteq> si_target_generation intent then retire_firewall g else Ret True
                | None \<Rightarrow> Ret True) (\<lambda>_.
     Ret (Inr ()))))))"

definition stop_restream_server :: "task_id \<Rightarrow> unit result stream_prog" where
  "stop_restream_server t =
     prog_bind (begin_restream_stop_intent t) (\<lambda>intent.
     with_transaction t (case intent of Some i \<Rightarrow> finish_restream_stop t i | None \<Rightarrow> Ret (Inr ())))"

section \<open>Transactions\<close>

definition restore_restream_after_transaction_error ::
    "task_id \<Rightarrow> app_settings \<Rightarrow> string set \<Rightarrow> stop_intent \<Rightarrow> app_error \<Rightarrow> app_error stream_prog" where
  "restore_restream_after_transaction_error t old adopted intent err =
     (if \<not> si_was_desired intent then Ret err
      else
      prog_bind (begin_restream_start_intent_if_current t (si_epoch intent)) (\<lambda>started.
      case started of
        None \<Rightarrow> Ret err
      | Some (epoch, preserve) \<Rightarrow>
          prog_bind (start_restream_server_inner t old adopted epoch preserve) (\<lambda>restored.
          case restored of
            Inr _ \<Rightarrow> Ret err
          | Inl restoration \<Rightarrow> Ret (Config (app_error_to_string err
              @ ''; restoring the prior re-stream output also failed: '' @ app_error_to_string restoration)))))"

definition transaction_error ::
    "task_id \<Rightarrow> app_settings \<Rightarrow> string set \<Rightarrow> stop_intent option \<Rightarrow> app_error \<Rightarrow> 'a result stream_prog" where
  "transaction_error t old adopted intent err =
     (case intent of
        Some i \<Rightarrow> prog_bind (restore_restream_after_transaction_error t old adopted i err) (\<lambda>e. Ret (Inl e))
      | None \<Rightarrow> Ret (Inl err))"

definition apply_superseded :: app_error where
  "apply_superseded = Stream ''Re-stream settings apply was superseded by a newer request''"

definition switch_superseded :: app_error where
  "switch_superseded = Stream ''Re-stream protocol switch was superseded by a newer request''"

definition claim_stop :: "task_id \<Rightarrow> app_error \<Rightarrow> u64 \<Rightarrow> stop_intent option result stream_prog" where
  "claim_stop t err expected =
     prog_bind (begin_restream_stop_intent_if_current t expected) (\<lambda>intent.
     Ret (case intent of None \<Rightarrow> Inl err | Some i \<Rightarrow> Inr (Some i)))"

definition restart_after ::
    "task_id \<Rightarrow> string set \<Rightarrow> app_settings \<Rightarrow> bool \<Rightarrow> u64 \<Rightarrow> operation_result result stream_prog" where
  "restart_after t adopted settings check epoch =
     prog_bind (begin_restream_start_intent_if_current t epoch) (\<lambda>started.
     case started of
       None \<Rightarrow> prog_bind (look current_operation_result) (\<lambda>r. Ret (Inr r))
     | Some (start_epoch, preserve) \<Rightarrow>
         (case (if check then validate_selected_restream_startable settings else Inr ()) of
            Inl err \<Rightarrow> Ret (Inl err)
          | Inr _ \<Rightarrow>
              prog_bind (start_restream_server_inner t settings adopted start_epoch preserve) (\<lambda>r.
              case r of
                Inl err \<Rightarrow> Ret (Inl err)
              | Inr _ \<Rightarrow> prog_bind (look current_operation_result) (\<lambda>r. Ret (Inr r)))))"

definition finish_stop_if :: "task_id \<Rightarrow> stop_intent option \<Rightarrow> unit stream_prog" where
  "finish_stop_if t intent = (case intent of
     Some i \<Rightarrow> prog_bind (finish_restream_stop t i) (\<lambda>_. Ret ()) | None \<Rightarrow> Ret ())"

definition apply_commit ::
    "task_id \<Rightarrow> string set \<Rightarrow> app_settings \<Rightarrow> bool \<Rightarrow> stop_intent option \<Rightarrow> operation_result result stream_prog" where
  "apply_commit t adopted old was_desired intent =
     prog_bind (finish_stop_if t intent) (\<lambda>_.
     prog_bind (ask en_commit) (\<lambda>committed.
     case committed of
       Inl err \<Rightarrow> transaction_error t old adopted intent err
     | Inr settings \<Rightarrow>
         (case intent of
            Some i \<Rightarrow>
              if was_desired \<and> rs_enabled (rtsp_server settings) then restart_after t adopted settings False (si_epoch i)
              else prog_bind (look current_operation_result) (\<lambda>r. Ret (Inr r))
          | None \<Rightarrow> prog_bind (look current_operation_result) (\<lambda>r. Ret (Inr r)))))"

definition apply_transaction ::
    "task_id \<Rightarrow> restream_settings_update \<Rightarrow> string set \<Rightarrow> u64 \<Rightarrow> stop_intent option \<Rightarrow> operation_result result stream_prog" where
  "apply_transaction t upd adopted operation_epoch intent =
     (let expected = (case intent of Some i \<Rightarrow> si_epoch i | None \<Rightarrow> operation_epoch) in
      prog_bind (look (\<lambda>w. w_rs_epoch w = expected)) (\<lambda>current.
      if \<not> current then Ret (Inl apply_superseded)
      else
      prog_bind (ask en_settings) (\<lambda>settings.
      case validate_prospective_settings settings of
        Inl err \<Rightarrow> Ret (Inl err)
      | Inr old \<Rightarrow>
          (case prospective_restream_settings old upd of
             Inl err \<Rightarrow> transaction_error t old adopted intent err
           | Inr prospective \<Rightarrow>
               prog_bind (look (\<lambda>w. rd_desired (w_rs w))) (\<lambda>desired.
               let was_desired = (case intent of Some i \<Rightarrow> si_was_desired i | None \<Rightarrow> desired);
                   changed = selected_restream_runtime_changed old prospective;
                   enabled = rs_enabled (rtsp_server prospective)
               in case (if was_desired \<and> changed \<and> enabled then validate_selected_restream_startable prospective else Inr ()) of
                    Inl err \<Rightarrow> transaction_error t old adopted intent err
                  | Inr _ \<Rightarrow>
                      if was_desired \<and> (changed \<or> \<not> enabled) \<and> intent = None
                      then prog_bind (claim_stop t apply_superseded expected) (\<lambda>claimed.
                           case claimed of
                             Inl err \<Rightarrow> Ret (Inl err)
                           | Inr i \<Rightarrow> apply_commit t adopted old (case i of Some i \<Rightarrow> si_was_desired i | None \<Rightarrow> was_desired) i)
                      else apply_commit t adopted old was_desired intent)))))"

definition apply_restream_settings ::
    "task_id \<Rightarrow> restream_settings_update \<Rightarrow> string set \<Rightarrow> operation_result result stream_prog" where
  "apply_restream_settings t upd adopted =
     prog_bind (ask en_settings) (\<lambda>initial.
     case prospective_restream_settings initial upd of
       Inl err \<Rightarrow> Ret (Inl err)
     | Inr prospective \<Rightarrow>
         prog_bind (look (\<lambda>w. (w_rs_epoch w, rd_desired (w_rs w)))) (\<lambda>(operation_epoch, was_desired).
         let changed = selected_restream_runtime_changed initial prospective;
             enabled = rs_enabled (rtsp_server prospective)
         in case (if was_desired \<and> changed \<and> enabled then validate_selected_restream_startable prospective else Inr ()) of
              Inl err \<Rightarrow> Ret (Inl err)
            | Inr _ \<Rightarrow>
                prog_bind (if was_desired \<and> (changed \<or> \<not> enabled) then claim_stop t apply_superseded operation_epoch
                           else Ret (Inr None)) (\<lambda>claimed.
                case claimed of
                  Inl err \<Rightarrow> Ret (Inl err)
                | Inr intent \<Rightarrow> with_transaction t (apply_transaction t upd adopted operation_epoch intent))))"

definition select_protocol :: "restream_protocol \<Rightarrow> stream_world \<Rightarrow> stream_world" where
  "select_protocol p = set_rs (\<lambda>r. r\<lparr>rd_selected_protocol := p\<rparr>)"

definition switch_commit ::
    "task_id \<Rightarrow> string set \<Rightarrow> restream_protocol \<Rightarrow> app_settings \<Rightarrow> bool \<Rightarrow> stop_intent \<Rightarrow> operation_result result stream_prog" where
  "switch_commit t adopted protocol old was_desired intent =
     prog_bind (finish_stop_if t (Some intent)) (\<lambda>_.
     prog_bind (ask en_commit) (\<lambda>committed.
     case committed of
       Inl err \<Rightarrow> transaction_error t old adopted (Some intent) err
     | Inr settings \<Rightarrow>
         prog_bind (modify (select_protocol protocol)) (\<lambda>_.
         if was_desired then restart_after t adopted settings True (si_epoch intent)
         else prog_bind (look current_operation_result) (\<lambda>r. Ret (Inr r)))))"

text \<open>The selector already has the requested value: the listener is restarted on the saved settings.\<close>

definition switch_same ::
    "task_id \<Rightarrow> string set \<Rightarrow> restream_protocol \<Rightarrow> app_settings \<Rightarrow> u64 \<Rightarrow> bool \<Rightarrow> stop_intent option
      \<Rightarrow> operation_result result stream_prog" where
  "switch_same t adopted protocol prospective expected was_desired intent =
     prog_bind (modify (select_protocol protocol)) (\<lambda>_.
     prog_bind (finish_stop_if t intent) (\<lambda>_.
     if was_desired
     then restart_after t adopted prospective False (case intent of Some i \<Rightarrow> si_epoch i | None \<Rightarrow> expected)
     else prog_bind (look current_operation_result) (\<lambda>r. Ret (Inr r))))"

definition switch_transaction ::
    "task_id \<Rightarrow> restream_protocol \<Rightarrow> string set \<Rightarrow> u64 \<Rightarrow> stop_intent option \<Rightarrow> operation_result result stream_prog" where
  "switch_transaction t protocol adopted operation_epoch intent =
     (let expected = (case intent of Some i \<Rightarrow> si_epoch i | None \<Rightarrow> operation_epoch) in
      prog_bind (look (\<lambda>w. w_rs_epoch w = expected)) (\<lambda>current.
      if \<not> current then Ret (Inl switch_superseded)
      else
      prog_bind (ask en_settings) (\<lambda>settings.
      case validate_prospective_settings settings of
        Inl err \<Rightarrow> Ret (Inl err)
      | Inr old \<Rightarrow>
          (case validate_prospective_settings (old\<lparr>restream_protocol_sel := protocol\<rparr>) of
             Inl err \<Rightarrow> transaction_error t old adopted intent err
           | Inr prospective \<Rightarrow>
               prog_bind (look (\<lambda>w. rd_desired (w_rs w))) (\<lambda>desired.
               let was_desired = (case intent of Some i \<Rightarrow> si_was_desired i | None \<Rightarrow> desired)
               in case validate_restream_switch_target prospective was_desired of
                    Inl err \<Rightarrow> transaction_error t old adopted intent err
                  | Inr _ \<Rightarrow>
                      if restream_protocol_sel old = protocol
                      then switch_same t adopted protocol prospective expected was_desired intent
                      else (case intent of
                              Some i \<Rightarrow> switch_commit t adopted protocol old was_desired i
                            | None \<Rightarrow>
                                prog_bind (begin_restream_stop_intent_if_current t expected) (\<lambda>claimed.
                                case claimed of
                                  None \<Rightarrow> Ret (Inl switch_superseded)
                                | Some i \<Rightarrow> switch_commit t adopted protocol old (si_was_desired i) i)))))))"

definition switch_restream_protocol ::
    "task_id \<Rightarrow> restream_protocol \<Rightarrow> string set \<Rightarrow> operation_result result stream_prog" where
  "switch_restream_protocol t protocol adopted =
     prog_bind (ask en_settings) (\<lambda>settings.
     case res_bind (validate_prospective_settings settings) (\<lambda>initial.
            res_bind (validate_prospective_settings (initial\<lparr>restream_protocol_sel := protocol\<rparr>)) (\<lambda>prospective.
            Inr (initial, prospective))) of
       Inl err \<Rightarrow> Ret (Inl err)
     | Inr (initial, prospective) \<Rightarrow>
         prog_bind (look (\<lambda>w. (w_rs_epoch w, rd_desired (w_rs w)))) (\<lambda>(operation_epoch, was_desired).
         case validate_restream_switch_target prospective was_desired of
           Inl err \<Rightarrow> Ret (Inl err)
         | Inr _ \<Rightarrow>
             prog_bind (if restream_protocol_sel initial \<noteq> protocol then claim_stop t switch_superseded operation_epoch
                        else Ret (Inr None)) (\<lambda>claimed.
             case claimed of
               Inl err \<Rightarrow> Ret (Inl err)
             | Inr intent \<Rightarrow> with_transaction t (switch_transaction t protocol adopted operation_epoch intent))))"

section \<open>Topology\<close>

definition unknown_scope :: "bind_scope \<Rightarrow> bool" where
  "unknown_scope scope = (case scope of UnknownScope _ \<Rightarrow> True | _ \<Rightarrow> False)"

definition topology_context :: "bind_scope \<Rightarrow> u64 \<Rightarrow> stream_world \<Rightarrow> (start_spec \<times> u64 \<times> u64 \<times> nat) option" where
  "topology_context scope revision w =
     (case (rd_spec (w_rs w), rd_health (w_rs w)) of
        (Some sp, Some i) \<Rightarrow>
          if \<not> rd_desired (w_rs w) then None
          else if \<not> unknown_scope scope \<and> \<not> unknown_scope (sp_bind_scope sp) \<and> scope_revision (sp_bind_scope sp) w = revision then None
          else Some (sp, rh_server_generation (w_rs_heap w ! i), rh_server_instance (w_rs_heap w ! i), i)
      | _ \<Rightarrow> None)"

definition needs_rebind :: "start_spec \<Rightarrow> native_identity option \<times> bind_scope \<Rightarrow> bool" where
  "needs_rebind sp resolved \<longleftrightarrow> sp_bind_interface sp \<noteq> None
     \<and> (case snd resolved of
          InterfaceScope _ nm address _ _ \<Rightarrow>
            Some nm \<noteq> sp_bind_interface sp \<or> Some address \<noteq> sp_bind_address sp
            \<or> map_option ni_key (fst resolved) \<noteq> map_option ni_key (sp_bind_identity sp)
        | _ \<Rightarrow> True)"

definition topology_section :: "u64 \<Rightarrow> u64 \<Rightarrow> nat \<Rightarrow> bool \<Rightarrow> bind_scope \<Rightarrow> stream_world \<Rightarrow> bool \<times> stream_world" where
  "topology_section generation inst i rebind scope w =
     (if \<not> relay_state_is_generation generation w \<or> rh_server_instance (w_rs_heap w ! i) \<noteq> inst then (False, w)
      else (True, set_rs (\<lambda>r. r\<lparr>rd_spec := map_option (\<lambda>sp. sp\<lparr>sp_bind_scope :=
             (if rebind then UnknownScope ''Resolving changed bind interface'' else scope)\<rparr>) (rd_spec r)\<rparr>) w))"

definition binding_topology_changed :: "task_id \<Rightarrow> bind_scope \<Rightarrow> u64 \<Rightarrow> unit stream_prog" where
  "binding_topology_changed t scope revision =
     prog_bind (look (topology_context scope revision)) (\<lambda>ctx.
     case ctx of
       None \<Rightarrow> Ret ()
     | Some (sp, generation, inst, i) \<Rightarrow>
         prog_bind (if sp_bind_interface sp = None \<or> unknown_scope scope then Ret (Inr (sp_bind_identity sp, scope))
                    else prog_bind (ask en_adopted) (\<lambda>adopted.
                         resolve_binding (sp_bind_interface sp) (map_option ni_guid (sp_bind_identity sp)) adopted)) (\<lambda>resolved.
         with_rs_lock t (
           prog_bind (look w_revision) (\<lambda>now_revision.
           if now_revision \<noteq> revision then Ret ()
           else
           let next_scope = (case resolved of Inr r \<Rightarrow> r | Inl err \<Rightarrow> (sp_bind_identity sp, UnknownScope (app_error_to_string err)));
               rebind = needs_rebind sp next_scope
           in prog_bind (atomically (topology_section generation inst i rebind (snd next_scope))) (\<lambda>written.
              if written \<and> rebind
              then prog_bind (modify (on_relay i (mark_resolution_failed ''Bind topology changed; resolving the saved interface identity''))) (\<lambda>_.
                   modify (send_event (RetryRequested generation)))
              else Ret ())))))"

section \<open>Recovery\<close>

definition server_of :: "u64 \<Rightarrow> restream_server \<Rightarrow> bool" where
  "server_of generation sv \<longleftrightarrow> sv_generation sv = generation"

definition retire_failed :: "u64 \<Rightarrow> u64 \<Rightarrow> bool stream_prog" where
  "retire_failed epoch generation =
     prog_bind (look (relay_is_current epoch generation)) (\<lambda>current.
     if \<not> current then Ret False
     else
     prog_bind (atomically (take_server (server_of generation))) (\<lambda>failed.
     prog_bind (case failed of Some sv \<Rightarrow> modify (shutdown_server sv) | None \<Rightarrow> Ret ()) (\<lambda>_.
     prog_bind (retire_firewall generation) (\<lambda>_. Ret True))))"

definition terminal_failure :: "u64 \<Rightarrow> stream_world \<Rightarrow> bool" where
  "terminal_failure generation w =
     (case current_relay_context generation w of
        Some (_, i) \<Rightarrow> rh_state (w_rs_heap w ! i) = RelayFailed \<and> rh_error (w_rs_heap w ! i) \<noteq> None
      | None \<Rightarrow> False)"

definition permanent_now :: "stream_world \<Rightarrow> bool" where
  "permanent_now w = (case rd_health (w_rs w) of Some i \<Rightarrow> permanent_failure (w_rs_heap w ! i) | None \<Rightarrow> False)"

datatype rebuild_plan = GiveUp | TryAgain | Rebuild start_spec

definition recovered_spec :: "start_spec \<Rightarrow> native_identity option \<times> bind_scope \<Rightarrow> start_spec" where
  "recovered_spec sp resolved =
     (case snd resolved of
        InterfaceScope _ nm address _ _ \<Rightarrow>
          sp\<lparr>sp_bind_address := Some address, sp_advertised_ip := address, sp_bind_interface := Some nm,
             sp_bind_identity := fst resolved, sp_bind_scope := snd resolved\<rparr>
      | _ \<Rightarrow> sp)"

definition plan_rebuild :: "u64 \<Rightarrow> u64 \<Rightarrow> nat \<Rightarrow> start_spec \<Rightarrow> rebuild_plan stream_prog" where
  "plan_rebuild epoch generation i base =
     prog_bind (if sp_bind_interface base = None
                then prog_bind (resolve_binding None None {}) (\<lambda>r.
                     Ret (base\<lparr>sp_bind_scope := (case r of Inr (_, scope) \<Rightarrow> scope | Inl err \<Rightarrow> UnknownScope (app_error_to_string err))\<rparr>))
                else Ret base) (\<lambda>build.
     prog_bind (look (\<lambda>w. should_reresolve_explicit_bind (w_rs_heap w ! i))) (\<lambda>reresolve.
     case sp_bind_interface base of
       Some nm \<Rightarrow>
         if sp_bind_identity base = None \<and> \<not> reresolve then Ret (Rebuild build)
         else
         prog_bind (ask en_adopted) (\<lambda>adopted.
         prog_bind (look (relay_is_current epoch generation)) (\<lambda>current.
         if \<not> current then Ret GiveUp
         else
         prog_bind (resolve_binding (Some nm) (map_option ni_guid (sp_bind_identity base)) adopted) (\<lambda>r.
         case r of
           Inr resolved \<Rightarrow> Ret (Rebuild (recovered_spec build resolved))
         | Inl err \<Rightarrow>
             prog_bind (modify (on_relay i (mark_resolution_failed (redact_relay_text
               (''Re-stream bind interface '' @ quoted nm @ '' is unavailable: '' @ app_error_to_string err) (mount_path base))))) (\<lambda>_.
             prog_bind (modify (on_relay i force_max_backoff)) (\<lambda>_. Ret TryAgain)))))
     | None \<Rightarrow> Ret (Rebuild build)))"

definition rebuild_candidate :: "u64 \<Rightarrow> u64 \<Rightarrow> nat \<Rightarrow> start_spec \<Rightarrow> bool stream_prog" where
  "rebuild_candidate epoch generation i sp =
     prog_bind (build_restream_server sp i True) (\<lambda>(inst, built).
     case built of
       Inl (kind, err) \<Rightarrow>
         prog_bind (retire_firewall generation) (\<lambda>_.
         prog_bind (modify (on_relay i (mark_build_failed inst (redact_relay_text (app_error_to_string err) (mount_path sp)) (kind = BuildBind)))) (\<lambda>_.
         Ret True))
     | Inr sv \<Rightarrow>
         prog_bind (atomically (install_server epoch generation sp True sv)) (\<lambda>installed.
         if installed then Ret False
         else
         prog_bind (modify (shutdown_server sv)) (\<lambda>_.
         prog_bind (retire_firewall generation) (\<lambda>_.
         prog_bind (look (\<lambda>w. w_rs_epoch w = epoch)) (\<lambda>current.
         if current
         then prog_bind (modify (on_relay i (mark_resolution_failed ''Bind topology changed during listener construction''))) (\<lambda>_. Ret True)
         else Ret False)))))"

text \<open>One attempt under the lifecycle lock; the result says whether to try again.\<close>

definition rebuild_listener :: "u64 \<Rightarrow> u64 \<Rightarrow> nat \<Rightarrow> start_spec \<Rightarrow> bool stream_prog" where
  "rebuild_listener epoch generation i sp =
     prog_bind (look (relay_is_current epoch generation)) (\<lambda>current.
     if \<not> current then Ret False
     else
     prog_bind (atomically (take_server (server_of generation))) (\<lambda>prior.
     prog_bind (case prior of Some sv \<Rightarrow> modify (shutdown_server sv) | None \<Rightarrow> Ret ()) (\<lambda>_.
     prog_bind (look (relay_is_current epoch generation)) (\<lambda>current.
     if \<not> current then Ret False
     else
     prog_bind (ask en_gst) (\<lambda>gst.
     case gst of
       Inl err \<Rightarrow>
         prog_bind (atomically (begin_instance i True)) (\<lambda>inst.
         prog_bind (modify (on_relay i (mark_build_failed inst (redact_relay_text (app_error_to_string err) (mount_path sp)) False))) (\<lambda>_.
         Ret True))
     | Inr _ \<Rightarrow>
         prog_bind (look (\<lambda>w. rd_target (w_rs w))) (\<lambda>target.
         prog_bind (ask (\<lambda>e. en_preflight e target)) (\<lambda>preflight.
         case preflight of
           Inl err \<Rightarrow> prog_bind (modify (on_relay i (mark_resolution_failed (app_error_to_string err)))) (\<lambda>_. Ret True)
         | Inr _ \<Rightarrow>
             prog_bind (look (relay_is_current epoch generation)) (\<lambda>current.
             if \<not> current then Ret False
             else
             prog_bind (look (scope_current sp)) (\<lambda>unchanged.
             if \<not> unchanged then Ret True
             else
             prog_bind (apply_firewall sp generation) (\<lambda>_.
             prog_bind (look (\<lambda>w. relay_is_current epoch generation w \<and> scope_current sp w)) (\<lambda>current.
             if \<not> current then prog_bind (retire_firewall generation) (\<lambda>_. Ret True)
             else rebuild_candidate epoch generation i sp)))))))))))"

text \<open>The recovery loop. The code bounds it only by the currency of its generation, so the model takes
  the number of attempts as an argument; what is proved holds for every number.\<close>

primrec recovery_loop :: "nat \<Rightarrow> task_id \<Rightarrow> u64 \<Rightarrow> u64 \<Rightarrow> unit stream_prog" where
  "recovery_loop 0 t epoch generation = Ret ()"
| "recovery_loop (Suc n) t epoch generation =
     prog_bind (look (current_relay_context generation)) (\<lambda>ctx.
     case ctx of
       None \<Rightarrow> Ret ()
     | Some (current_epoch, i) \<Rightarrow>
         if current_epoch \<noteq> epoch then Ret ()
         else
         prog_bind (modify (on_relay i (\<lambda>h. snd (schedule_recovery_attempt h)))) (\<lambda>_.
         prog_bind (look (relay_is_current epoch generation)) (\<lambda>before_wait.
         prog_bind (look (relay_is_current epoch generation)) (\<lambda>after_wait.
         if \<not> (before_wait \<and> after_wait) then Ret ()
         else
         prog_bind (modify (on_relay i mark_recovery_in_progress)) (\<lambda>_.
         prog_bind (look (\<lambda>w. rd_spec (w_rs w))) (\<lambda>base.
         case base of
           None \<Rightarrow> Ret ()
         | Some sp \<Rightarrow>
             prog_bind (plan_rebuild epoch generation i sp) (\<lambda>plan.
             case plan of
               GiveUp \<Rightarrow> Ret ()
             | TryAgain \<Rightarrow> recovery_loop n t epoch generation
             | Rebuild build \<Rightarrow>
                 prog_bind (with_rs_lock t (rebuild_listener epoch generation i build)) (\<lambda>again.
                 if again then recovery_loop n t epoch generation else Ret ()))))))))"

definition recover_relay_generation :: "nat \<Rightarrow> task_id \<Rightarrow> u64 \<Rightarrow> u64 \<Rightarrow> unit stream_prog" where
  "recover_relay_generation n t epoch generation =
     prog_bind (with_rs_lock t (retire_failed epoch generation)) (\<lambda>current.
     if \<not> current then Ret ()
     else
     prog_bind (look (terminal_failure generation)) (\<lambda>failed.
     prog_bind (look permanent_now) (\<lambda>permanent.
     if failed \<and> permanent then Ret () else recovery_loop n t epoch generation)))"

definition poll_context :: "stream_world \<Rightarrow> (nat \<times> bool) option" where
  "poll_context w =
     (if \<not> rd_desired (w_rs w) then None
      else map_option (\<lambda>i. (i, rd_server (w_rs w) \<noteq> None)) (rd_health (w_rs w)))"

definition evaluate_section :: "nat \<Rightarrow> stream_env \<Rightarrow> stream_world \<Rightarrow> relay_fault option \<times> stream_world" where
  "evaluate_section i e w =
     (let r = evaluate_watchdog (en_fmt e) (en_now e) (w_rs_heap w ! i) in (fst r, on_relay i (\<lambda>_. snd r) w))"

text \<open>The probe of the listener's runtime answers first; what it does to the health is a callback of
  that runtime.\<close>

definition poll_relay_fault :: "relay_fault option stream_prog" where
  "poll_relay_fault =
     prog_bind (look poll_context) (\<lambda>ctx.
     case ctx of
       None \<Rightarrow> Ret None
     | Some (i, has_server) \<Rightarrow>
         prog_bind (ask en_probe) (\<lambda>probed.
         if has_server \<and> probed \<noteq> None then Ret probed else perform (evaluate_section i)))"

definition receive_event :: "stream_world \<Rightarrow> relay_supervisor_event option \<times> stream_world" where
  "receive_event w = (case w_events w of [] \<Rightarrow> (None, w) | ev # rest \<Rightarrow> (Some ev, w\<lparr>w_events := rest\<rparr>))"

definition next_event :: "relay_supervisor_event option stream_prog" where
  "next_event =
     prog_bind (ask en_timer) (\<lambda>timer.
     if timer then prog_bind poll_relay_fault (\<lambda>fault. Ret (map_option RelayFaultEvent fault))
     else atomically receive_event)"

definition accept_section :: "relay_fault \<Rightarrow> nat \<Rightarrow> stream_world \<Rightarrow> bool \<times> stream_world" where
  "accept_section fault i w = (let r = accept_fault fault (w_rs_heap w ! i) in (fst r, on_relay i (\<lambda>_. snd r) w))"

definition relay_supervisor_turn :: "nat \<Rightarrow> task_id \<Rightarrow> unit stream_prog" where
  "relay_supervisor_turn n t =
     prog_bind next_event (\<lambda>ev.
     case ev of
       None \<Rightarrow> Ret ()
     | Some (RelayFaultEvent fault) \<Rightarrow>
         prog_bind (look (current_relay_context (rf_server_generation fault))) (\<lambda>ctx.
         case ctx of
           None \<Rightarrow> Ret ()
         | Some (epoch, i) \<Rightarrow>
             prog_bind (atomically (accept_section fault i)) (\<lambda>accepted.
             if accepted then recover_relay_generation n t epoch (rf_server_generation fault) else Ret ()))
     | Some (RetryRequested generation) \<Rightarrow>
         prog_bind (look (current_relay_context generation)) (\<lambda>ctx.
         case ctx of
           None \<Rightarrow> Ret ()
         | Some (epoch, i) \<Rightarrow>
             prog_bind (look (\<lambda>w. rh_state (w_rs_heap w ! i) \<in> {RelayFailed, RelayRecovering})) (\<lambda>waiting_now.
             if waiting_now then recover_relay_generation n t epoch generation else Ret ())))"

end
