(* ===== verification/Stream_Laws.thy ===== *)
theory Stream_Laws
  imports Relay_Service
begin

text \<open>
  The preview and the re-stream service together: their rules over the shared world, and what each of
  their tasks may change, so that the scheduler's contract (\<open>task_service\<close>) can be discharged for
  every interleaving of user commands, supervisor turns, callbacks and dropped tasks.
\<close>

section \<open>Rules\<close>

text \<open>The epoch counts the intents and generations number the relay health records. Both are machine
  words, so these are rules only while fewer than \<open>2\<^sup>6\<^sup>4\<close> of them exist.\<close>

definition epoch_ok :: "u64 \<Rightarrow> task_id list \<Rightarrow> bool" where
  "epoch_ok epoch owners \<longleftrightarrow> epoch = of_nat (length owners)"

definition counters_ok :: "relay_health list \<Rightarrow> u16 option list \<Rightarrow> u64 \<Rightarrow> bool" where
  "counters_ok heap ports g \<longleftrightarrow> length ports = length heap \<and> g = of_nat (length heap)
     \<and> (\<forall>i<length heap. rh_server_generation (heap ! i) = of_nat (Suc i))"

text \<open>A specification and a health record exist only together and only for a desired re-stream, and the
  specification ingests from the UDP port its generation was reserved for.\<close>

definition intent_ok ::
    "bool \<Rightarrow> start_spec option \<Rightarrow> nat option \<Rightarrow> u64 option \<Rightarrow> u16 option list \<Rightarrow> bool" where
  "intent_ok desired sp health intent ports \<longleftrightarrow> (desired \<longleftrightarrow> intent \<noteq> None) \<and> (health \<noteq> None \<longrightarrow> desired)
     \<and> (case health of
          None \<Rightarrow> sp = None
        | Some i \<Rightarrow> i < length ports \<and> (\<exists>s. sp = Some s \<and> udp_ingest_port s = ports ! i))"

definition slot_ok :: "restream_server option \<Rightarrow> u16 option list \<Rightarrow> bool" where
  "slot_ok slot ports \<longleftrightarrow> (case slot of None \<Rightarrow> True | Some sv \<Rightarrow> sv_health sv < length ports
     \<and> sv_generation sv = of_nat (Suc (sv_health sv)) \<and> sv_udp_port sv = ports ! sv_health sv)"

definition udp_ok :: "source_mode option \<Rightarrow> bool \<Rightarrow> start_spec option \<Rightarrow> restream_server option \<Rightarrow> bool" where
  "udp_ok src desired sp slot \<longleftrightarrow> (\<forall>port. src = Some (UdpMode port) \<longrightarrow>
     \<not> (desired \<and> Option.bind sp udp_ingest_port = Some port) \<and> Option.bind slot sv_udp_port \<noteq> Some port)"

definition lease_ok :: "(u64 \<times> firewall_rule) option \<Rightarrow> firewall_rule list \<Rightarrow> bool" where
  "lease_ok lease rules \<longleftrightarrow> (\<forall>r\<in>set rules. \<exists>g. lease = Some (g, r))"

definition listeners_ok ::
    "restream_server option \<Rightarrow> restream_server list \<Rightarrow> restream_server option \<Rightarrow> task_id option \<Rightarrow> bool" where
  "listeners_ok slot listeners held lock \<longleftrightarrow> set listeners = set_option slot \<union> set_option held
     \<and> (held \<noteq> None \<longrightarrow> lock \<noteq> None)
     \<and> (\<forall>a b. slot = Some a \<longrightarrow> held = Some b \<longrightarrow> sv_generation a \<noteq> sv_generation b)"

definition preview_ok :: "bool \<Rightarrow> nat option \<Rightarrow> bool \<Rightarrow> nat \<Rightarrow> bool" where
  "preview_ok wanted health intent n \<longleftrightarrow> (wanted \<longleftrightarrow> health \<noteq> None) \<and> (wanted \<longleftrightarrow> intent)
     \<and> (\<forall>i. health = Some i \<longrightarrow> i < n)"

definition pipelines_ok ::
    "nat option \<Rightarrow> (u64 \<times> u64) option \<Rightarrow> bool \<Rightarrow> nat list \<Rightarrow> nat option \<Rightarrow> task_id option \<Rightarrow> nat \<Rightarrow> bool" where
  "pipelines_ok stored inst recording running held lock n \<longleftrightarrow>
     (stored = None \<longleftrightarrow> inst = None) \<and> (recording \<longrightarrow> stored \<noteq> None)
     \<and> set running = set_option stored \<union> set_option held \<and> (held \<noteq> None \<longrightarrow> lock \<noteq> None)
     \<and> (held \<noteq> None \<longrightarrow> held \<noteq> stored) \<and> (\<forall>p\<in>set running. p < n)"

definition world_ok :: "stream_world \<Rightarrow> bool" where
  "world_ok w \<longleftrightarrow>
     epoch_ok (w_rs_epoch w) (w_rs_owners w)
     \<and> counters_ok (w_rs_heap w) (w_rs_ports w) (w_rs_generation w)
     \<and> intent_ok (rd_desired (w_rs w)) (rd_spec (w_rs w)) (rd_health (w_rs w)) (rd_intent_epoch (w_rs w)) (w_rs_ports w)
     \<and> slot_ok (rd_server (w_rs w)) (w_rs_ports w)
     \<and> udp_ok (pd_source (w_pb w)) (rd_desired (w_rs w)) (rd_spec (w_rs w)) (rd_server (w_rs w))
     \<and> lease_ok (rd_firewall_generation (w_rs w)) (w_rules w)
     \<and> listeners_ok (rd_server (w_rs w)) (w_listeners w) (w_rs_held w) (w_rs_lock w)
     \<and> preview_ok (pd_settings (w_pb w) \<noteq> None) (pd_health (w_pb w)) (pd_intent_epoch (w_pb w) \<noteq> None) (length (w_pb_heap w))
     \<and> pipelines_ok (pd_playback (w_pb w)) (pd_instance (w_pb w)) (pd_recording (w_pb w)) (w_running w) (w_pb_held w)
         (w_pb_lock w) (length (w_pipes w))"

definition small :: "stream_world \<Rightarrow> bool" where
  "small w \<longleftrightarrow> length (w_rs_heap w) < 2 ^ 64 \<and> length (w_rs_owners w) < 2 ^ 64"

definition world_inv :: "stream_world \<Rightarrow> bool" where
  "world_inv w \<longleftrightarrow> (small w \<longrightarrow> world_ok w)"

section \<open>What a task may change\<close>

definition lock_moves :: "task_id \<Rightarrow> task_id option \<Rightarrow> task_id option \<Rightarrow> bool" where
  "lock_moves t l l' \<longleftrightarrow> (if l = Some t then l' \<in> {Some t, None} else l' = l \<or> (l = None \<and> l' = Some t))"

text \<open>Only the task that advanced the epoch last may change what is desired.
  The stored and the held listener, the lease, and the stored and the held pipeline belong to whoever
  holds the lifecycle lock. A re-stream nobody wants gains no listener.\<close>

definition world_steps :: "task_id \<Rightarrow> stream_world \<Rightarrow> stream_world \<Rightarrow> bool" where
  "world_steps t w w' \<longleftrightarrow>
     length (w_pb_heap w) \<le> length (w_pb_heap w') \<and> length (w_pipes w) \<le> length (w_pipes w')
     \<and> (\<exists>more. w_rs_ports w' = w_rs_ports w @ more)
     \<and> (w_rs_owners w' = w_rs_owners w @ [t] \<and> rd_desired (w_rs w') = rd_desired (w_rs w) \<and> rd_intent_epoch (w_rs w') = rd_intent_epoch (w_rs w)
        \<or> w_rs_owners w' = w_rs_owners w \<and>
          ((\<exists>before. w_rs_owners w = before @ [t])
           \<or> rd_desired (w_rs w') = rd_desired (w_rs w) \<and> rd_intent_epoch (w_rs w') = rd_intent_epoch (w_rs w)))
     \<and> (rd_health (w_rs w') \<in> {rd_health (w_rs w), None} \<or> (\<exists>k\<ge>length (w_rs_heap w). rd_health (w_rs w') = Some k))
     \<and> lock_moves t (w_rs_lock w) (w_rs_lock w') \<and> lock_moves t (w_pb_lock w) (w_pb_lock w')
     \<and> (w_rs_lock w \<noteq> Some t \<longrightarrow> rd_server (w_rs w') = rd_server (w_rs w) \<and> w_rs_held w' = w_rs_held w
         \<and> rd_firewall_generation (w_rs w') = rd_firewall_generation (w_rs w) \<and> set (w_rules w') \<subseteq> set (w_rules w))
     \<and> (w_pb_lock w \<noteq> Some t \<longrightarrow> pd_playback (w_pb w') = pd_playback (w_pb w) \<and> w_pb_held w' = w_pb_held w
         \<and> pd_recording (w_pb w') = pd_recording (w_pb w))
     \<and> (\<not> rd_desired (w_rs w) \<longrightarrow> rd_server (w_rs w') \<in> {rd_server (w_rs w), None})"

definition world_may :: "task_id \<Rightarrow> stream_world \<Rightarrow> stream_world \<Rightarrow> bool" where
  "world_may t w w' \<longleftrightarrow> length (w_rs_heap w') \<in> {length (w_rs_heap w), Suc (length (w_rs_heap w))}
     \<and> length (w_rs_owners w') \<in> {length (w_rs_owners w), Suc (length (w_rs_owners w))} \<and> (small w' \<longrightarrow> world_steps t w w')"

interpretation stream: task_system world_inv world_may .

lemma world_may_refl [simp]: "world_may t w w"
  by (simp add: world_may_def world_steps_def lock_moves_def)

lemma world_invI:
  assumes "world_inv w" "small w' \<Longrightarrow> small w" "small w \<Longrightarrow> world_ok w \<Longrightarrow> world_ok w'"
  shows "world_inv w'"
  using assms by (auto simp: world_inv_def)

lemma section_ok:
  assumes "world_inv w" "length (w_rs_heap w') \<in> {length (w_rs_heap w), Suc (length (w_rs_heap w))}"
      "length (w_rs_owners w') \<in> {length (w_rs_owners w), Suc (length (w_rs_owners w))}"
    and "small w \<Longrightarrow> world_ok w \<Longrightarrow> world_ok w'" "small w \<Longrightarrow> world_ok w \<Longrightarrow> world_steps t w w'"
  shows "world_inv w' \<and> world_may t w w'"
proof -
  have small: "small w" if "small w'" using that assms(2,3) by (auto simp: small_def)
  with assms show ?thesis by (auto simp: world_inv_def world_may_def)
qed

lemma world_inv_new: "world_inv (stream_world_new p)"
  by (simp add: world_inv_def world_ok_def stream_world_new_def epoch_ok_def counters_ok_def intent_ok_def slot_ok_def udp_ok_def
      lease_ok_def listeners_ok_def preview_ok_def pipelines_ok_def relay_data_new_def playback_data_default_def)

section \<open>Assertions that other tasks respect\<close>

definition rs_held_is :: "task_id \<Rightarrow> restream_server option \<Rightarrow> stream_world \<Rightarrow> bool" where
  "rs_held_is t h w \<longleftrightarrow> (small w \<longrightarrow> w_rs_lock w = Some t \<and> w_rs_held w = h)"

definition pb_held_is :: "task_id \<Rightarrow> nat option \<Rightarrow> stream_world \<Rightarrow> bool" where
  "pb_held_is t h w \<longleftrightarrow> (small w \<longrightarrow> w_pb_lock w = Some t \<and> w_pb_held w = h)"

text \<open>A task that works for generation \<open>g\<close> with health record \<open>i\<close>: while that record is the current
  one, its specification claims the reserved port.\<close>

definition works_for :: "nat \<Rightarrow> u64 \<Rightarrow> start_spec \<Rightarrow> stream_world \<Rightarrow> bool" where
  "works_for i g sp w \<longleftrightarrow> (small w \<longrightarrow> i < length (w_rs_heap w) \<and> g = of_nat (Suc i) \<and> i < length (w_rs_ports w)
     \<and> (rd_health (w_rs w) = Some i \<longrightarrow> w_rs_ports w ! i = udp_ingest_port sp))"

text \<open>The listener a task built for its generation.\<close>

definition built_for :: "nat \<Rightarrow> u64 \<Rightarrow> start_spec \<Rightarrow> restream_server \<Rightarrow> stream_world \<Rightarrow> bool" where
  "built_for i g sp sv w \<longleftrightarrow> sv_health sv = i \<and> sv_udp_port sv = udp_ingest_port sp \<and> (small w \<longrightarrow> sv_generation sv = g)"

definition slot_not :: "(restream_server \<Rightarrow> bool) \<Rightarrow> stream_world \<Rightarrow> bool" where
  "slot_not which w \<longleftrightarrow> (small w \<longrightarrow> (\<forall>sv. rd_server (w_rs w) = Some sv \<longrightarrow> \<not> which sv))"

lemma may_small: "world_may u w w' \<Longrightarrow> small w' \<Longrightarrow> small w"
  by (auto simp: world_may_def small_def)

lemma may_steps: "world_may u w w' \<Longrightarrow> small w' \<Longrightarrow> world_steps u w w'"
  by (simp add: world_may_def)

lemma may_rs:
  assumes "world_may u w w'" "u \<noteq> t" "small w'" "w_rs_lock w = Some t"
  shows "w_rs_lock w' = Some t" "rd_server (w_rs w') = rd_server (w_rs w)" "w_rs_held w' = w_rs_held w"
    "rd_firewall_generation (w_rs w') = rd_firewall_generation (w_rs w)" "set (w_rules w') \<subseteq> set (w_rules w)"
  using may_steps [OF assms(1,3)] assms(2,4) unfolding world_steps_def lock_moves_def by simp_all

lemma may_pb:
  assumes "world_may u w w'" "u \<noteq> t" "small w'" "w_pb_lock w = Some t"
  shows "w_pb_lock w' = Some t" "pd_playback (w_pb w') = pd_playback (w_pb w)" "w_pb_held w' = w_pb_held w"
    "pd_recording (w_pb w') = pd_recording (w_pb w)"
  using may_steps [OF assms(1,3)] assms(2,4) unfolding world_steps_def lock_moves_def by simp_all

lemma may_grows:
  assumes "world_may u w w'" "small w'"
  obtains more where "w_rs_ports w' = w_rs_ports w @ more"
    "rd_health (w_rs w') \<in> {rd_health (w_rs w), None} \<or> (\<exists>k\<ge>length (w_rs_heap w). rd_health (w_rs w') = Some k)"
  using may_steps [OF assms] by (auto simp: world_steps_def)

lemma stable_works_for: "stream.stable t (works_for i g sp)"
proof -
  have "works_for i g sp w'" if a: "works_for i g sp w" "world_may u w w'" for u w w'
  proof -
    show ?thesis
    proof (cases "small w'")
      case True
      have "length (w_rs_heap w) \<le> length (w_rs_heap w')" using a(2) by (auto simp: world_may_def)
      moreover obtain more where "w_rs_ports w' = w_rs_ports w @ more"
        "rd_health (w_rs w') \<in> {rd_health (w_rs w), None} \<or> (\<exists>k\<ge>length (w_rs_heap w). rd_health (w_rs w') = Some k)"
        using may_grows [OF a(2) True] .
      ultimately show ?thesis using a(1) may_small [OF a(2) True] by (auto simp: works_for_def nth_append)
    qed (simp add: works_for_def)
  qed
  then show ?thesis by (auto simp: stream.stable_def)
qed

lemma stable_pb_held: "stream.stable t (pb_held_is t h)"
  unfolding stream.stable_def pb_held_is_def using may_pb may_small by metis

text \<open>Changes that touch nothing the rules speak of, and changes that touch neither the current record
  nor the stored listener.\<close>

definition quiet :: "stream_world \<Rightarrow> stream_world \<Rightarrow> bool" where
  "quiet w w' \<longleftrightarrow>
     map rh_server_generation (w_rs_heap w') = map rh_server_generation (w_rs_heap w) \<and> w_rs_ports w' = w_rs_ports w
     \<and> w_rs_epoch w' = w_rs_epoch w \<and> w_rs_owners w' = w_rs_owners w
     \<and> w_rs_generation w' = w_rs_generation w \<and> w_rules w' = w_rules w \<and> w_listeners w' = w_listeners w
     \<and> w_rs_held w' = w_rs_held w \<and> w_rs_lock w' = w_rs_lock w \<and> w_pb_lock w' = w_pb_lock w
     \<and> length (w_pb_heap w') = length (w_pb_heap w) \<and> length (w_pipes w') = length (w_pipes w)
     \<and> w_running w' = w_running w \<and> w_pb_held w' = w_pb_held w
     \<and> rd_desired (w_rs w') = rd_desired (w_rs w)
     \<and> Option.bind (rd_spec (w_rs w')) (Some \<circ> udp_ingest_port) = Option.bind (rd_spec (w_rs w)) (Some \<circ> udp_ingest_port)
     \<and> rd_health (w_rs w') = rd_health (w_rs w) \<and> rd_intent_epoch (w_rs w') = rd_intent_epoch (w_rs w)
     \<and> rd_server (w_rs w') = rd_server (w_rs w) \<and> rd_firewall_generation (w_rs w') = rd_firewall_generation (w_rs w)
     \<and> pd_source (w_pb w') = pd_source (w_pb w) \<and> (pd_settings (w_pb w') = None \<longleftrightarrow> pd_settings (w_pb w) = None)
     \<and> pd_health (w_pb w') = pd_health (w_pb w) \<and> (pd_intent_epoch (w_pb w') = None \<longleftrightarrow> pd_intent_epoch (w_pb w) = None)
     \<and> pd_playback (w_pb w') = pd_playback (w_pb w)
     \<and> pd_instance (w_pb w') = pd_instance (w_pb w) \<and> pd_recording (w_pb w') = pd_recording (w_pb w)"

definition calm :: "stream_world \<Rightarrow> stream_world \<Rightarrow> bool" where
  "calm w w' \<longleftrightarrow> length (w_rs_heap w') = length (w_rs_heap w) \<and> w_rs_ports w' = w_rs_ports w
     \<and> length (w_rs_owners w') = length (w_rs_owners w)
     \<and> rd_health (w_rs w') = rd_health (w_rs w) \<and> rd_server (w_rs w') = rd_server (w_rs w)"

lemma quiet_calm: "quiet w w' \<Longrightarrow> calm w w'"
  unfolding quiet_def calm_def by (metis length_map)

lemma quiet_may: "quiet w w' \<Longrightarrow> world_may t w w'"
  by (frule quiet_calm) (simp add: quiet_def calm_def world_may_def world_steps_def lock_moves_def)

lemma calm_small: "calm w w' \<Longrightarrow> small w' = small w"
  by (simp add: calm_def small_def)

lemma quiet_rs_held: "quiet w w' \<Longrightarrow> rs_held_is t h w \<Longrightarrow> rs_held_is t h w'"
  by (frule calm_small [OF quiet_calm]) (simp add: quiet_def rs_held_is_def)

lemma quiet_pb_held: "quiet w w' \<Longrightarrow> pb_held_is t h w \<Longrightarrow> pb_held_is t h w'"
  by (frule calm_small [OF quiet_calm]) (simp add: quiet_def pb_held_is_def)

lemma counters_ok_cong:
  assumes "map rh_server_generation heap' = map rh_server_generation heap"
  shows "counters_ok heap' ports g = counters_ok heap ports g"
proof -
  have l: "length heap' = length heap" using assms by (metis length_map)
  have "\<forall>i<length heap. rh_server_generation (heap' ! i) = rh_server_generation (heap ! i)"
    using assms l by (metis nth_map)
  then show ?thesis by (simp add: counters_ok_def l)
qed

lemma spec_port_cong:
  assumes "Option.bind sp' (Some \<circ> udp_ingest_port) = Option.bind sp (Some \<circ> udp_ingest_port)"
  shows "intent_ok d sp' h e ports = intent_ok d sp h e ports" "udp_ok src d sp' slot = udp_ok src d sp slot"
  using assms by (cases sp; cases sp'; auto simp: intent_ok_def udp_ok_def split: option.splits)+

lemma quiet_inv: "quiet w w' \<Longrightarrow> world_inv w \<Longrightarrow> world_inv w'"
proof -
  assume q: "quiet w w'" and i: "world_inv w"
  have l: "small w' = small w" by (rule calm_small [OF quiet_calm [OF q]])
  show "world_inv w'"
  proof (rule world_invI [OF i])
    assume "world_ok w"
    then show "world_ok w'"
      using q unfolding quiet_def world_ok_def
      by (simp only: counters_ok_cong [of "w_rs_heap w'" "w_rs_heap w"] spec_port_cong [of "rd_spec (w_rs w')" "rd_spec (w_rs w)"])
  qed (simp add: l)
qed

text \<open>What a task knows while it holds the lifecycle lock of the relay: an assertion that no other task
  breaks and that does not depend on the lease; some do not depend on the stored listener either.\<close>

definition knows :: "task_id \<Rightarrow> (stream_world \<Rightarrow> bool) \<Rightarrow> bool" where
  "knows t K \<longleftrightarrow> (\<forall>h. stream.stable t (\<lambda>w. rs_held_is t h w \<and> K w)) \<and> (\<forall>w w'. calm w w' \<longrightarrow> K w \<longrightarrow> K w')"

definition slotless :: "(stream_world \<Rightarrow> bool) \<Rightarrow> bool" where
  "slotless K \<longleftrightarrow> (\<forall>f h w. K w \<longrightarrow> K ((set_rs (\<lambda>r. r\<lparr>rd_server := f\<rparr>) w)\<lparr>w_rs_held := h\<rparr>))"

lemma stable_rs_held: "stream.stable t (rs_held_is t h)"
  unfolding stream.stable_def rs_held_is_def using may_rs may_small by metis

lemma knows_stableI:
  assumes "stream.stable t K" "\<And>w w'. calm w w' \<Longrightarrow> K w \<Longrightarrow> K w'"
  shows "knows t K"
  using stream.stable_conj [OF stable_rs_held assms(1)] assms(2) by (auto simp: knows_def)

lemma knows_True: "knows t (\<lambda>_. True)"
  by (rule knows_stableI) auto

lemma knows_slot_not: "knows t (slot_not which)"
  unfolding knows_def
proof (intro conjI allI impI)
  fix h
  show "stream.stable t (\<lambda>w. rs_held_is t h w \<and> slot_not which w)"
    unfolding stream.stable_def rs_held_is_def slot_not_def using may_rs may_small by metis
next
  fix w w'
  assume "calm w w'" "slot_not which w"
  then show "slot_not which w'" by (simp add: calm_def slot_not_def small_def)
qed

lemma knows_works_for: "knows t (works_for i g sp)"
  by (rule knows_stableI [OF stable_works_for]) (simp add: calm_def works_for_def small_def)

lemma knows_built_for: "knows t (built_for i g sp sv)"
proof (rule knows_stableI)
  show "stream.stable t (built_for i g sp sv)" unfolding stream.stable_def built_for_def using may_small by blast
qed (simp add: calm_def built_for_def small_def)

lemma knows_conj: "knows t K \<Longrightarrow> knows t L \<Longrightarrow> knows t (\<lambda>w. K w \<and> L w)"
  unfolding knows_def stream.stable_def by (safe; blast)

lemma knows_stable: "knows t K \<Longrightarrow> stream.stable t (\<lambda>w. rs_held_is t h w \<and> K w)"
  by (simp add: knows_def)

lemma knows_calm: "knows t K \<Longrightarrow> calm w w' \<Longrightarrow> K w \<Longrightarrow> K w'"
  by (auto simp: knows_def)

lemmas knows_intros = knows_True knows_slot_not knows_works_for knows_built_for knows_conj

lemma slotless_intros: "slotless (\<lambda>_. True)" "slotless (works_for i g sp)"
  by (simp_all add: slotless_def works_for_def set_rs_def small_def)

section \<open>Sections that change nothing of interest\<close>

lemmas program_defs = atomically_def ask_def look_def modify_def

lemma quiet_verified:
  assumes "\<And>e w. quiet w (snd (f e w))" "stream.stable t P" "\<And>w w'. quiet w w' \<Longrightarrow> P w \<Longrightarrow> P w'"
  shows "stream.verified t P (perform f) (\<lambda>_. P)"
  by (rule stream.verified_perform) (use assms quiet_inv quiet_may in blast)+

lemma quiet_True: "(\<And>e w. quiet w (snd (f e w))) \<Longrightarrow> stream.verified t (\<lambda>_. True) (perform f) (\<lambda>_ _. True)"
  by (rule quiet_verified) auto

lemma quiet_works: "(\<And>e w. quiet w (snd (f e w))) \<Longrightarrow> stream.verified t (works_for i g sp) (perform f) (\<lambda>_. works_for i g sp)"
  by (rule quiet_verified) (use stable_works_for knows_calm [OF knows_works_for] quiet_calm in blast)+

lemma quiet_locked:
  assumes "knows t K" "\<And>e w. quiet w (snd (f e w))"
  shows "stream.verified t (\<lambda>w. rs_held_is t h w \<and> K w) (perform f) (\<lambda>_ w. rs_held_is t h w \<and> K w)"
  by (rule quiet_verified [OF assms(2) knows_stable [OF assms(1)]]) (use quiet_rs_held knows_calm [OF assms(1)] quiet_calm in blast)

lemma quiet_pb: "(\<And>e w. quiet w (snd (f e w))) \<Longrightarrow> stream.verified t (pb_held_is t h) (perform f) (\<lambda>_. pb_held_is t h)"
  by (rule quiet_verified) (use stable_pb_held quiet_pb_held in blast)+

lemma quiet_refl [simp]: "quiet w w"
  by (simp add: quiet_def)

lemma quiet_on_relay_at:
  assumes "rh_server_generation (f (w_rs_heap w ! i)) = rh_server_generation (w_rs_heap w ! i)"
  shows "quiet w (on_relay i f w)"
proof -
  have "map rh_server_generation ((w_rs_heap w)[i := f (w_rs_heap w ! i)]) = map rh_server_generation (w_rs_heap w)"
    using assms by (cases "i < length (w_rs_heap w)") (auto intro!: nth_equalityI simp: nth_list_update)
  then show ?thesis by (simp add: quiet_def on_relay_def)
qed

lemma quiet_on_relay: "(\<And>h. rh_server_generation (f h) = rh_server_generation h) \<Longrightarrow> quiet w (on_relay i f w)"
  by (rule quiet_on_relay_at)

lemma quiet_on_preview [simp]: "quiet w (on_preview i f w)"
  by (simp add: quiet_def on_preview_def)

lemma quiet_send [simp]: "quiet w (send_event ev w)"
  by (simp add: quiet_def send_event_def)

lemma quiet_trans: "quiet a b \<Longrightarrow> quiet b c \<Longrightarrow> quiet a c"
  by (simp add: quiet_def)

lemma keeps_generation [simp]:
  "rh_server_generation (relay_stop h) = rh_server_generation h"
  "rh_server_generation (mark_build_failed i r b h) = rh_server_generation h"
  "rh_server_generation (mark_resolution_failed r h) = rh_server_generation h"
  "rh_server_generation (mark_recovery_in_progress h) = rh_server_generation h"
  "rh_server_generation (force_max_backoff h) = rh_server_generation h"
  "rh_server_generation (snd (schedule_recovery_attempt h)) = rh_server_generation h"
  "rh_server_generation (snd (begin_server_instance b h)) = rh_server_generation h"
  "rh_server_generation (snd (accept_fault f h)) = rh_server_generation h"
  by (simp_all add: relay_defs)

lemma watchdog_generation [simp]: "rh_server_generation (snd (evaluate_watchdog fmt now h)) = rh_server_generation h"
  using watchdog_cases [of fmt now h "fst (evaluate_watchdog fmt now h)" "snd (evaluate_watchdog fmt now h)"] by simp

lemma step_generation [simp]: "rh_server_generation (relay_step fmt e h) = rh_server_generation h"
  by (cases e) (auto simp: relay_defs split: option.splits)

end
