(* ===== verification/Relay_Verified.thy ===== *)
theory Relay_Verified
  imports Stream_Laws
begin

text \<open>
  The sections of the re-stream service keep the rules of the shared world, and so do its tasks.
\<close>

lemmas world_ok_defs = world_ok_def epoch_ok_def counters_ok_def intent_ok_def slot_ok_def udp_ok_def lease_ok_def
  listeners_ok_def preview_ok_def pipelines_ok_def

section \<open>Epochs\<close>

text \<open>The task that advanced the epoch to this value, and, once it published its start intent, the fact
  that the intent stands until somebody else advances the epoch.\<close>

definition advanced :: "task_id \<Rightarrow> u64 \<Rightarrow> stream_world \<Rightarrow> bool" where
  "advanced t epoch w \<longleftrightarrow> (small w \<longrightarrow> (\<exists>n. 0 < n \<and> n \<le> length (w_rs_owners w) \<and> w_rs_owners w ! (n - 1) = t \<and> epoch = of_nat n))"

definition owns_start :: "task_id \<Rightarrow> u64 \<Rightarrow> stream_world \<Rightarrow> bool" where
  "owns_start t epoch w \<longleftrightarrow> advanced t epoch w
     \<and> (small w \<longrightarrow> of_nat (length (w_rs_owners w)) = epoch \<longrightarrow> rd_desired (w_rs w) \<and> rd_intent_epoch (w_rs w) = Some epoch)"

lemma of_nat_epoch: "m < 2 ^ 64 \<Longrightarrow> n < 2 ^ 64 \<Longrightarrow> (of_nat m :: u64) = of_nat n \<longleftrightarrow> m = n"
  by (simp add: word_of_nat_eq_iff take_bit_nat_eq_self)

lemma owners_grow:
  assumes "world_may u w w'" "small w'"
  shows "w_rs_owners w' = w_rs_owners w @ [u] \<and> rd_desired (w_rs w') = rd_desired (w_rs w) \<and> rd_intent_epoch (w_rs w') = rd_intent_epoch (w_rs w)
    \<or> w_rs_owners w' = w_rs_owners w \<and> ((\<exists>before. w_rs_owners w = before @ [u])
        \<or> rd_desired (w_rs w') = rd_desired (w_rs w) \<and> rd_intent_epoch (w_rs w') = rd_intent_epoch (w_rs w))"
  using may_steps [OF assms] unfolding world_steps_def by blast

lemma stable_advanced: "stream.stable t (advanced t' epoch)"
proof -
  have "advanced t' epoch w'" if a: "advanced t' epoch w" "world_may u w w'" for u w w'
  proof (cases "small w'")
    case True
    from may_small [OF a(2) True] a(1) obtain n where n: "0 < n" "n \<le> length (w_rs_owners w)" "w_rs_owners w ! (n - 1) = t'" "epoch = of_nat n"
      by (auto simp: advanced_def)
    from owners_grow [OF a(2) True] n have "n \<le> length (w_rs_owners w')" "w_rs_owners w' ! (n - 1) = t'" by (auto simp: nth_append)
    with n show ?thesis by (auto simp: advanced_def)
  qed (simp add: advanced_def)
  then show ?thesis by (auto simp: stream.stable_def)
qed

lemma stable_owns: "stream.stable t (owns_start t epoch)"
proof -
  have "owns_start t epoch w'" if a: "owns_start t epoch w" "world_may u w w'" "u \<noteq> t" "world_inv w" "world_inv w'" for u w w'
  proof (cases "small w'")
    case True
    have s: "small w" by (rule may_small [OF a(2) True])
    have adv: "advanced t epoch w'" using stable_advanced [of t t epoch] a by (auto simp: stream.stable_def owns_start_def)
    have "rd_desired (w_rs w') \<and> rd_intent_epoch (w_rs w') = Some epoch" if e: "of_nat (length (w_rs_owners w')) = epoch"
    proof -
      from a(1) s obtain n where n: "0 < n" "n \<le> length (w_rs_owners w)" "w_rs_owners w ! (n - 1) = t" "epoch = of_nat n"
        by (auto simp: owns_start_def advanced_def)
      have "length (w_rs_owners w') = n"
        using e n s True by (simp add: of_nat_epoch small_def)
      with owners_grow [OF a(2) True] n have same: "w_rs_owners w' = w_rs_owners w" "length (w_rs_owners w) = n" by auto
      have "\<not> (\<exists>before. w_rs_owners w = before @ [u])" using same(2) n(3) a(3) by auto
      with owners_grow [OF a(2) True] same have "rd_desired (w_rs w') = rd_desired (w_rs w)" "rd_intent_epoch (w_rs w') = rd_intent_epoch (w_rs w)"
        by auto
      with a(1) s same n(4) show ?thesis by (simp add: owns_start_def)
    qed
    with adv show ?thesis by (simp add: owns_start_def)
  qed (simp add: owns_start_def advanced_def)
  then show ?thesis unfolding stream.stable_def by blast
qed

lemma quiet_owns: "quiet w w' \<Longrightarrow> owns_start t epoch w \<Longrightarrow> owns_start t epoch w'"
  by (frule calm_small [OF quiet_calm]) (simp add: quiet_def owns_start_def advanced_def)

lemma fetch_ok:
  assumes "world_inv w"
  shows "world_inv (snd (fetch_rs_epoch t w)) \<and> world_may t w (snd (fetch_rs_epoch t w))
    \<and> advanced t (fst (fetch_rs_epoch t w)) (snd (fetch_rs_epoch t w))"
proof -
  have "world_inv (snd (fetch_rs_epoch t w)) \<and> world_may t w (snd (fetch_rs_epoch t w))"
  proof (rule section_ok [OF assms])
    assume "world_ok w"
    then show "world_ok (snd (fetch_rs_epoch t w))" by (simp add: fetch_rs_epoch_def world_ok_def epoch_ok_def)
  qed (simp_all add: fetch_rs_epoch_def world_steps_def lock_moves_def)
  moreover have "advanced t (fst (fetch_rs_epoch t w)) (snd (fetch_rs_epoch t w))"
  proof -
    have "w_rs_epoch w + 1 = of_nat (Suc (length (w_rs_owners w)))" if "small (snd (fetch_rs_epoch t w))"
      using that assms by (auto simp: fetch_rs_epoch_def small_def world_inv_def world_ok_def epoch_ok_def)
    then show ?thesis by (auto simp: advanced_def fetch_rs_epoch_def intro!: exI [of _ "Suc (length (w_rs_owners w))"])
  qed
  ultimately show ?thesis by blast
qed

lemma cas_ok:
  assumes "world_inv w"
  shows "world_inv (snd (cas_rs_epoch t expected w)) \<and> world_may t w (snd (cas_rs_epoch t expected w))
    \<and> (fst (cas_rs_epoch t expected w) \<longrightarrow> advanced t (expected + 1) (snd (cas_rs_epoch t expected w)))"
  using fetch_ok [OF assms, of t] assms by (auto simp: cas_rs_epoch_def) (simp add: fetch_rs_epoch_def)

text \<open>Whoever finds its epoch current advanced it last.\<close>

lemma advanced_last:
  assumes "advanced t epoch w" "small w" "world_ok w" "w_rs_epoch w = epoch"
  shows "\<exists>before. w_rs_owners w = before @ [t]"
proof -
  from assms(1,2) obtain n where n: "0 < n" "n \<le> length (w_rs_owners w)" "w_rs_owners w ! (n - 1) = t" "epoch = of_nat n"
    by (auto simp: advanced_def)
  have "(of_nat n :: u64) = of_nat (length (w_rs_owners w))" using assms(3,4) n(4) by (simp add: world_ok_def epoch_ok_def)
  then have "n = length (w_rs_owners w)" using n(2) assms(2) by (simp add: of_nat_epoch small_def)
  with n show ?thesis by (metis append_butlast_last_id last_conv_nth length_greater_0_conv)
qed

section \<open>Intents\<close>

definition start_granted :: "task_id \<Rightarrow> (u64 \<times> bool) option \<Rightarrow> stream_world \<Rightarrow> bool" where
  "start_granted t r w \<longleftrightarrow> (\<forall>epoch p. r = Some (epoch, p) \<longrightarrow> owns_start t epoch w)"

lemma stable_granted: "stream.stable t (start_granted t r)"
  using stable_owns [of t] unfolding stream.stable_def start_granted_def by blast

lemma publish_start_ok:
  assumes "world_inv w" "advanced t epoch w"
  shows "world_inv (snd (publish_start_section epoch e w)) \<and> world_may t w (snd (publish_start_section epoch e w))
    \<and> start_granted t (fst (publish_start_section epoch e w)) (snd (publish_start_section epoch e w))"
proof (cases "w_rs_epoch w = epoch")
  case True
  let ?w = "snd (publish_start_section epoch e w)"
  have sm: "small ?w = small w" by (simp add: small_def publish_start_section_def True set_rs_def Let_def)
  have "world_inv ?w \<and> world_may t w ?w"
  proof (rule section_ok [OF assms(1)])
    assume a: "small w" "world_ok w"
    show "world_ok ?w" using a(2)
      by (auto simp: world_ok_def publish_start_section_def True set_rs_def Let_def intent_ok_def udp_ok_def split: option.splits)
    show "world_steps t w ?w"
      using advanced_last [OF assms(2) a True] by (auto simp: world_steps_def lock_moves_def publish_start_section_def True set_rs_def Let_def)
  qed (simp_all add: publish_start_section_def True set_rs_def Let_def)
  moreover have "start_granted t (fst (publish_start_section epoch e w)) ?w"
    using assms(2) by (auto simp: start_granted_def owns_start_def advanced_def small_def publish_start_section_def True set_rs_def Let_def)
  ultimately show ?thesis by blast
next
  case False
  with assms show ?thesis by (simp add: publish_start_section_def start_granted_def)
qed

lemma quiet_stop_relay_health: "quiet w (stop_relay_health w)"
  by (auto simp: stop_relay_health_def quiet_on_relay split: option.split)

lemma clear_desired_ok:
  assumes "world_inv w" "advanced t epoch w" "w_rs_epoch w = epoch"
  shows "world_inv (set_rs clear_desired (stop_relay_health w)) \<and> world_may t w (set_rs clear_desired (stop_relay_health w))"
    and "world_inv (set_rs (\<lambda>r. (clear_desired r)\<lparr>rd_target := None\<rparr>) (stop_relay_health w))
      \<and> world_may t w (set_rs (\<lambda>r. (clear_desired r)\<lparr>rd_target := None\<rparr>) (stop_relay_health w))"
proof -
  let ?v = "stop_relay_health w"
  have q: "quiet w ?v" by (rule quiet_stop_relay_health)
  have len: "length (w_rs_heap ?v) = length (w_rs_heap w)" "length (w_rs_owners ?v) = length (w_rs_owners w)"
    using quiet_calm [OF q] by (simp_all add: calm_def)
  have ok: "world_ok ?v" if "small w" "world_ok w"
    using quiet_inv [OF q assms(1)] that calm_small [OF quiet_calm [OF q]] by (simp add: world_inv_def)
  have step: "world_steps t w ?v" if "small w"
    using quiet_may [OF q, of t] that calm_small [OF quiet_calm [OF q]] by (simp add: world_may_def)
  have owner: "\<exists>before. w_rs_owners w = before @ [t]" if "small w" "world_ok w" using advanced_last [OF assms(2) that assms(3)] .
  have owners: "w_rs_owners ?v = w_rs_owners w" using q by (simp add: quiet_def)
  show "world_inv (set_rs clear_desired ?v) \<and> world_may t w (set_rs clear_desired ?v)"
  proof (rule section_ok [OF assms(1)])
    assume a: "small w" "world_ok w"
    show "world_ok (set_rs clear_desired ?v)" using ok [OF a] by (simp add: world_ok_def set_rs_def clear_desired_def intent_ok_def udp_ok_def)
    show "world_steps t w (set_rs clear_desired ?v)"
      using step [OF a(1)] owner [OF a] owners by (simp add: world_steps_def set_rs_def clear_desired_def)
  qed (simp_all add: set_rs_def len)
  show "world_inv (set_rs (\<lambda>r. (clear_desired r)\<lparr>rd_target := None\<rparr>) ?v) \<and> world_may t w (set_rs (\<lambda>r. (clear_desired r)\<lparr>rd_target := None\<rparr>) ?v)"
  proof (rule section_ok [OF assms(1)])
    assume a: "small w" "world_ok w"
    show "world_ok (set_rs (\<lambda>r. (clear_desired r)\<lparr>rd_target := None\<rparr>) ?v)"
      using ok [OF a] by (simp add: world_ok_def set_rs_def clear_desired_def intent_ok_def udp_ok_def)
    show "world_steps t w (set_rs (\<lambda>r. (clear_desired r)\<lparr>rd_target := None\<rparr>) ?v)"
      using step [OF a(1)] owner [OF a] owners by (simp add: world_steps_def set_rs_def clear_desired_def)
  qed (simp_all add: set_rs_def len)
qed

lemma cancel_ok:
  assumes "world_inv w" "advanced t epoch w"
  shows "world_inv (snd (cancel_section epoch p w)) \<and> world_may t w (snd (cancel_section epoch p w))"
  using clear_desired_ok(1) [OF assms] assms(1) by (simp add: cancel_section_def)

lemma publish_stop_ok:
  assumes "world_inv w" "advanced t epoch w"
  shows "world_inv (snd (publish_stop_section epoch w)) \<and> world_may t w (snd (publish_stop_section epoch w))"
  using clear_desired_ok(2) [OF assms] assms(1) by (simp add: publish_stop_section_def Let_def)

section \<open>Leases\<close>

definition lease_is :: "(u64 \<times> firewall_rule) option \<Rightarrow> stream_world \<Rightarrow> bool" where
  "lease_is l w \<longleftrightarrow> (small w \<longrightarrow> rd_firewall_generation (w_rs w) = l)"

definition no_rules :: "stream_world \<Rightarrow> bool" where
  "no_rules w \<longleftrightarrow> (small w \<longrightarrow> w_rules w = [])"

lemma stable_lease:
  assumes "knows t K"
  shows "stream.stable t (\<lambda>w. rs_held_is t h w \<and> K w \<and> lease_is l w)"
    and "stream.stable t (\<lambda>w. rs_held_is t h w \<and> K w \<and> lease_is l w \<and> (b \<longrightarrow> no_rules w))"
proof -
  have l: "stream.stable t (\<lambda>w. rs_held_is t h w \<and> lease_is l w)"
    unfolding stream.stable_def rs_held_is_def lease_is_def using may_rs may_small by metis
  have n: "stream.stable t (\<lambda>w. rs_held_is t h w \<and> no_rules w)"
    unfolding stream.stable_def rs_held_is_def no_rules_def
    using may_rs may_small by (metis bot.extremum_uniqueI empty_set set_empty)
  show "stream.stable t (\<lambda>w. rs_held_is t h w \<and> K w \<and> lease_is l w)"
    using knows_stable [OF assms, of h] l unfolding stream.stable_def by blast
  show "stream.stable t (\<lambda>w. rs_held_is t h w \<and> K w \<and> lease_is l w \<and> (b \<longrightarrow> no_rules w))"
    using knows_stable [OF assms, of h] l n unfolding stream.stable_def by blast
qed

lemma relet_ok:
  assumes "world_inv w" "rs_held_is t h w" "w' = (set_rs (\<lambda>r. r\<lparr>rd_firewall_generation := l, rd_firewall := v\<rparr>) w)\<lparr>w_rules := rules\<rparr>"
    and "small w \<Longrightarrow> world_ok w \<Longrightarrow> lease_ok l rules"
  shows "world_inv w' \<and> world_may t w w'" "rs_held_is t h w'" "calm w w'"
proof -
  show "world_inv w' \<and> world_may t w w'"
  proof (rule section_ok [OF assms(1)])
    assume a: "small w" "world_ok w"
    show "world_ok w'" using a(2) assms(4) [OF a] by (simp add: assms(3) world_ok_def set_rs_def)
    show "world_steps t w w'" using assms(2) a(1) by (simp add: assms(3) world_steps_def lock_moves_def set_rs_def rs_held_is_def)
  qed (simp_all add: assms(3) set_rs_def)
  show "rs_held_is t h w'" using assms(2) by (simp add: assms(3) rs_held_is_def set_rs_def small_def)
  show "calm w w'" by (simp add: assms(3) calm_def set_rs_def)
qed

lemma disable_ok:
  assumes "world_inv w" "rs_held_is t h w" "lease_is (Some (g, role)) w"
  shows "world_inv (snd (disable_rule role e w)) \<and> world_may t w (snd (disable_rule role e w))"
    "rs_held_is t h (snd (disable_rule role e w))" "calm w (snd (disable_rule role e w))"
    "lease_is (Some (g, role)) (snd (disable_rule role e w))"
    "fst (disable_rule role e w) = FwInactive \<Longrightarrow> no_rules (snd (disable_rule role e w))"
proof -
  let ?w = "snd (disable_rule role e w)"
  have eq: "?w = (set_rs (\<lambda>r. r\<lparr>rd_firewall_generation := rd_firewall_generation (w_rs w), rd_firewall := rd_firewall (w_rs w)\<rparr>) w)
      \<lparr>w_rules := (if en_outcome e = FwInactive \<or> \<not> en_enabled e then removeAll role (w_rules w) else w_rules w)\<rparr>"
    by (simp add: disable_rule_def set_rs_def)
  note ok = relet_ok [OF assms(1,2) eq]
  have l: "lease_ok (rd_firewall_generation (w_rs w)) (if b then removeAll role (w_rules w) else w_rules w)" if "world_ok w" for b
    using that by (auto simp: world_ok_def lease_ok_def)
  show "world_inv ?w \<and> world_may t w ?w" "rs_held_is t h ?w" "calm w ?w" using ok l by blast+
  show "lease_is (Some (g, role)) ?w" using assms(3) by (simp add: lease_is_def disable_rule_def small_def)
  show "no_rules ?w" if "fst (disable_rule role e w) = FwInactive"
  proof -
    have "w_rules ?w = []" if s: "small w"
    proof -
      have "\<forall>r\<in>set (w_rules w). r = role" using assms(1,3) s by (auto simp: world_inv_def world_ok_def lease_ok_def lease_is_def)
      then have "removeAll role (w_rules w) = []" by (auto simp: removeAll_filter_not_eq filter_empty_conv)
      then show ?thesis using \<open>fst (disable_rule role e w) = FwInactive\<close> by (simp add: disable_rule_def)
    qed
    then show ?thesis using calm_small [OF \<open>calm w ?w\<close>] by (simp add: no_rules_def)
  qed
qed

lemma retirement_ok:
  assumes "world_inv w" "rs_held_is t h w" "lease_is (Some (g, role)) w" "v = FwInactive \<Longrightarrow> no_rules w"
  shows "world_inv (record_retirement g role v w) \<and> world_may t w (record_retirement g role v w)"
    "rs_held_is t h (record_retirement g role v w)" "calm w (record_retirement g role v w)"
    "v = FwInactive \<Longrightarrow> lease_is None (record_retirement g role v w)"
proof -
  let ?w = "record_retirement g role v w"
  have *: "(world_inv ?w \<and> world_may t w ?w) \<and> rs_held_is t h ?w \<and> calm w ?w"
  proof (cases "rd_firewall_generation (w_rs w) = Some (g, role)")
    case True
    have eq: "?w = (set_rs (\<lambda>r. r\<lparr>rd_firewall_generation := (if v = FwInactive then None else Some (g, role)), rd_firewall := v\<rparr>) w)
        \<lparr>w_rules := w_rules w\<rparr>"
      by (simp add: record_retirement_def True set_rs_def)
    have l: "lease_ok (if v = FwInactive then None else Some (g, role)) (w_rules w)" if "small w" "world_ok w"
      using that True assms(4) by (auto simp: world_ok_def lease_ok_def no_rules_def)
    show ?thesis using relet_ok [OF assms(1,2) eq l] by blast
  next
    case False
    then show ?thesis using assms by (simp add: record_retirement_def calm_def)
  qed
  then show "world_inv ?w \<and> world_may t w ?w" "rs_held_is t h ?w" "calm w ?w" by blast+
  show "lease_is None ?w" if "v = FwInactive"
    using that assms(3) by (auto simp: lease_is_def record_retirement_def small_def set_rs_def)
qed

text \<open>The lease a task saw while it holds the lock is still there.\<close>

definition lease_for :: "u64 \<Rightarrow> (u64 \<times> firewall_rule) option \<Rightarrow> firewall_rule option" where
  "lease_for g l = (case l of Some (c, role) \<Rightarrow> if c = g then Some role else None | None \<Rightarrow> None)"

lemma look_lease:
  assumes K: "knows t K"
  shows "stream.verified t (\<lambda>w. rs_held_is t h w \<and> K w \<and> lease_is l w) (look (lease_of g) :: firewall_rule option stream_prog)
    (\<lambda>r w. (rs_held_is t h w \<and> K w \<and> lease_is l w) \<and> (small w \<longrightarrow> r = lease_for g l))"
  unfolding look_def
proof (rule stream.verified_perform)
  fix e :: stream_env and w
  assume "rs_held_is t h w \<and> K w \<and> lease_is l w"
  then show "world_inv (snd (lease_of g w, w)) \<and> world_may t w (snd (lease_of g w, w))
      \<and> (rs_held_is t h (snd (lease_of g w, w)) \<and> K (snd (lease_of g w, w)) \<and> lease_is l (snd (lease_of g w, w)))
      \<and> (small (snd (lease_of g w, w)) \<longrightarrow> fst (lease_of g w, w) = lease_for g l)" if "world_inv w"
    using that by (auto simp: lease_is_def lease_of_def lease_for_def)
next
  fix r
  show "stream.stable t (\<lambda>w. (rs_held_is t h w \<and> K w \<and> lease_is l w) \<and> (small w \<longrightarrow> r = lease_for g l))"
    using stable_lease(1) [OF K, of h l] may_small unfolding stream.stable_def by blast
qed

lemma retire_lease:
  assumes K: "knows t K"
  shows "stream.verified t (\<lambda>w. rs_held_is t h w \<and> K w \<and> lease_is l w) (retire_firewall g)
    (\<lambda>r w. rs_held_is t h w \<and> K w \<and> (r \<and> (l = None \<or> (\<exists>role. l = Some (g, role))) \<longrightarrow> lease_is None w))"
  unfolding retire_firewall_def
proof (rule stream.verified_bind [OF look_lease [OF K]])
  fix lease
  let ?Q = "\<lambda>r w. rs_held_is t h w \<and> K w \<and> (r \<and> (l = None \<or> (\<exists>role. l = Some (g, role))) \<longrightarrow> lease_is None w)"
  let ?P = "\<lambda>w. (rs_held_is t h w \<and> K w \<and> lease_is l w) \<and> (small w \<longrightarrow> lease = lease_for g l)"
  show "stream.verified t ?P (case lease of None \<Rightarrow> Ret True | Some role \<Rightarrow>
      prog_bind (perform (disable_rule role)) (\<lambda>verdict.
      prog_bind (modify (record_retirement g role verdict)) (\<lambda>_. Ret (verdict = FwInactive)))) ?Q"
  proof (cases lease)
    case None
    have "stream.verified t ?P (Ret True) ?Q"
      by (rule stream.verified_Ret) (auto simp: None lease_is_def lease_for_def)
    then show ?thesis by (simp add: None)
  next
    case (Some role)
    have d: "stream.verified t ?P (perform (disable_rule role))
        (\<lambda>v w. rs_held_is t h w \<and> K w \<and> lease_is (Some (g, role)) w \<and> (v = FwInactive \<longrightarrow> no_rules w))"
    proof (rule stream.verified_perform)
      fix e w
      assume i: "world_inv w" and "?P w"
      then have p: "rs_held_is t h w" "K w" "lease_is (Some (g, role)) w"
        by (auto simp: Some lease_is_def lease_for_def split: option.splits if_splits)
      note ok = disable_ok [OF i p(1,3), of e]
      show "world_inv (snd (disable_rule role e w)) \<and> world_may t w (snd (disable_rule role e w)) \<and>
          (rs_held_is t h (snd (disable_rule role e w)) \<and> K (snd (disable_rule role e w)) \<and> lease_is (Some (g, role)) (snd (disable_rule role e w))
           \<and> (fst (disable_rule role e w) = FwInactive \<longrightarrow> no_rules (snd (disable_rule role e w))))"
        using ok knows_calm [OF K ok(3) p(2)] by blast
    qed (rule stable_lease(2) [OF K])
    have m: "stream.verified t (\<lambda>w. rs_held_is t h w \<and> K w \<and> lease_is (Some (g, role)) w \<and> (v = FwInactive \<longrightarrow> no_rules w))
        (modify (record_retirement g role v)) (\<lambda>_ w. rs_held_is t h w \<and> K w \<and> (v = FwInactive \<longrightarrow> lease_is None w))" for v
    proof (rule stream.verified_modify)
      fix w
      assume i: "world_inv w" and p: "rs_held_is t h w \<and> K w \<and> lease_is (Some (g, role)) w \<and> (v = FwInactive \<longrightarrow> no_rules w)"
      then have "rs_held_is t h w" "lease_is (Some (g, role)) w" "v = FwInactive \<Longrightarrow> no_rules w" by blast+
      note ok = retirement_ok [OF i this]
      show "world_inv (record_retirement g role v w) \<and> world_may t w (record_retirement g role v w) \<and>
          (rs_held_is t h (record_retirement g role v w) \<and> K (record_retirement g role v w)
           \<and> (v = FwInactive \<longrightarrow> lease_is None (record_retirement g role v w)))"
        using ok p knows_calm [OF K ok(3)] by blast
    next
      show "stream.stable t (\<lambda>w. rs_held_is t h w \<and> K w \<and> (v = FwInactive \<longrightarrow> lease_is None w))"
        using knows_stable [OF K, of h] stable_lease(1) [OF K, of h None] unfolding stream.stable_def by blast
    qed
    have r: "stream.verified t (\<lambda>w. rs_held_is t h w \<and> K w \<and> (v = FwInactive \<longrightarrow> lease_is None w)) (Ret (v = FwInactive)) ?Q" for v
      by (rule stream.verified_Ret) blast
    from stream.verified_bind [OF d stream.verified_bind [OF m r]] show ?thesis by (simp only: Some option.case)
  qed
qed

lemma retire_ok:
  assumes K: "knows t K"
  shows "stream.verified t (\<lambda>w. rs_held_is t h w \<and> K w) (retire_firewall g) (\<lambda>_ w. rs_held_is t h w \<and> K w)"
proof -
  have "stream.verified t (\<lambda>w. \<exists>l. rs_held_is t h w \<and> K w \<and> lease_is l w) (retire_firewall g) (\<lambda>_ w. rs_held_is t h w \<and> K w)"
    by (rule stream.verified_ex) (rule stream.verified_post [OF retire_lease [OF K]], blast)
  then show ?thesis by (rule stream.verified_pre) (auto simp: lease_is_def)
qed

lemma lease_section_ok:
  assumes "world_inv w" "rs_held_is t h w" "lease_is None w"
  shows "world_inv (snd (lease_section g role w)) \<and> world_may t w (snd (lease_section g role w))"
    "rs_held_is t h (snd (lease_section g role w))" "calm w (snd (lease_section g role w))"
    "fst (lease_section g role w) \<Longrightarrow> lease_is (Some (g, role)) (snd (lease_section g role w))"
proof -
  let ?w = "snd (lease_section g role w)"
  have *: "(world_inv ?w \<and> world_may t w ?w) \<and> rs_held_is t h ?w \<and> calm w ?w"
  proof (cases "relay_state_is_generation g w")
    case True
    have eq: "?w = (set_rs (\<lambda>r. r\<lparr>rd_firewall_generation := Some (g, role), rd_firewall := rd_firewall (w_rs w)\<rparr>) w)\<lparr>w_rules := w_rules w\<rparr>"
      by (simp add: lease_section_def True set_rs_def)
    have l: "lease_ok (Some (g, role)) (w_rules w)" if "small w" "world_ok w"
      using that assms(3) by (auto simp: world_ok_def lease_ok_def lease_is_def)
    show ?thesis using relet_ok [OF assms(1,2) eq l] by blast
  next
    case False
    then show ?thesis using assms by (simp add: lease_section_def calm_def)
  qed
  then show "world_inv ?w \<and> world_may t w ?w" "rs_held_is t h ?w" "calm w ?w" by blast+
  show "lease_is (Some (g, role)) ?w" if "fst (lease_section g role w)"
    using that by (auto simp: lease_is_def lease_section_def set_rs_def split: if_splits)
qed

lemma ensure_ok:
  assumes "world_inv w" "rs_held_is t h w" "lease_is (Some (g, role)) w"
  shows "world_inv (snd (ensure_rule role e w)) \<and> world_may t w (snd (ensure_rule role e w))"
    "rs_held_is t h (snd (ensure_rule role e w))" "calm w (snd (ensure_rule role e w))"
proof -
  let ?w = "snd (ensure_rule role e w)"
  have eq: "?w = (set_rs (\<lambda>r. r\<lparr>rd_firewall_generation := rd_firewall_generation (w_rs w), rd_firewall := rd_firewall (w_rs w)\<rparr>) w)
      \<lparr>w_rules := (if en_enabled e then [role] else []) @ removeAll role (w_rules w)\<rparr>"
    by (simp add: ensure_rule_def set_rs_def)
  have l: "lease_ok (rd_firewall_generation (w_rs w)) ((if en_enabled e then [role] else []) @ removeAll role (w_rules w))"
    if "small w" "world_ok w"
    using that assms(3) by (auto simp: world_ok_def lease_ok_def lease_is_def)
  show "world_inv ?w \<and> world_may t w ?w" "rs_held_is t h ?w" "calm w ?w" using relet_ok [OF assms(1,2) eq l] by blast+
qed

text \<open>A section under the lifecycle lock of the relay.\<close>

lemma locked_perform:
  assumes "\<And>e w. world_inv w \<Longrightarrow> rs_held_is t h w \<Longrightarrow> K w \<Longrightarrow> (world_inv (snd (f e w)) \<and> world_may t w (snd (f e w)))
      \<and> rs_held_is t (h' (fst (f e w))) (snd (f e w)) \<and> L (fst (f e w)) (snd (f e w))"
    and "\<And>x. stream.stable t (\<lambda>w. rs_held_is t (h' x) w \<and> L x w)"
  shows "stream.verified t (\<lambda>w. rs_held_is t h w \<and> K w) (perform f) (\<lambda>x w. rs_held_is t (h' x) w \<and> L x w)"
  by (rule stream.verified_perform) (use assms in blast)+

lemma locked_atomically:
  assumes "\<And>w. world_inv w \<Longrightarrow> rs_held_is t h w \<Longrightarrow> K w \<Longrightarrow> (world_inv (snd (f w)) \<and> world_may t w (snd (f w)))
      \<and> rs_held_is t (h' (fst (f w))) (snd (f w)) \<and> L (fst (f w)) (snd (f w))"
    and "\<And>x. stream.stable t (\<lambda>w. rs_held_is t (h' x) w \<and> L x w)"
  shows "stream.verified t (\<lambda>w. rs_held_is t h w \<and> K w) (atomically f) (\<lambda>x w. rs_held_is t (h' x) w \<and> L x w)"
  unfolding atomically_def by (rule locked_perform) (use assms in blast)+

lemma locked_quiet:
  assumes "knows t K"
  shows "(\<And>w. quiet w (snd (f w))) \<Longrightarrow> stream.verified t (\<lambda>w. rs_held_is t h w \<and> K w) (atomically f) (\<lambda>_ w. rs_held_is t h w \<and> K w)"
    "(\<And>w. quiet w (g w)) \<Longrightarrow> stream.verified t (\<lambda>w. rs_held_is t h w \<and> K w) (modify g) (\<lambda>_ w. rs_held_is t h w \<and> K w)"
    "stream.verified t (\<lambda>w. rs_held_is t h w \<and> K w) (ask a) (\<lambda>_ w. rs_held_is t h w \<and> K w)"
    "stream.verified t (\<lambda>w. rs_held_is t h w \<and> K w) (look b) (\<lambda>_ w. rs_held_is t h w \<and> K w)"
  unfolding program_defs by (rule quiet_locked [OF assms], simp)+

lemma quiet_record_outcome: "quiet w (record_outcome g role v w)"
  by (simp add: record_outcome_def quiet_def set_rs_def)

lemma apply_firewall_ok:
  assumes K: "knows t K"
  shows "stream.verified t (\<lambda>w. rs_held_is t h w \<and> K w) (apply_firewall sp g) (\<lambda>_ w. rs_held_is t h w \<and> K w)"
proof -
  let ?H = "\<lambda>w. rs_held_is t h w \<and> K w"
  let ?role = "firewall_role (spec_protocol sp)"
  have cond: "stream.stable t (\<lambda>w. rs_held_is t h w \<and> K w \<and> (b \<longrightarrow> lease_is l w))" for b l
    using knows_stable [OF K, of h] stable_lease(1) [OF K, of h l] unfolding stream.stable_def by blast
  have prior: "stream.verified t ?H (look (\<lambda>w. rd_firewall_generation (w_rs w))) (\<lambda>l w. rs_held_is t h w \<and> K w \<and> lease_is l w)"
    unfolding look_def by (rule locked_perform) (use stable_lease(1) [OF K] in \<open>auto simp: lease_is_def\<close>)
  have retire: "stream.verified t (\<lambda>w. rs_held_is t h w \<and> K w \<and> lease_is l w)
      (case l of Some (g, _) \<Rightarrow> retire_firewall g | None \<Rightarrow> Ret True) (\<lambda>r w. rs_held_is t h w \<and> K w \<and> (r \<longrightarrow> lease_is None w))" for l
  proof (cases l)
    case None
    then show ?thesis by (auto intro: stream.verified_Ret)
  next
    case (Some x)
    obtain g role where "x = (g, role)" by (cases x)
    with Some show ?thesis using stream.verified_post [OF retire_lease [OF K, of h l g]] by simp
  qed
  have lease: "stream.verified t (\<lambda>w. rs_held_is t h w \<and> K w \<and> (True \<longrightarrow> lease_is None w)) (atomically (lease_section g ?role))
      (\<lambda>b w. rs_held_is t h w \<and> K w \<and> (b \<longrightarrow> lease_is (Some (g, ?role)) w))"
  proof (rule locked_atomically)
    fix w
    assume "world_inv w" "rs_held_is t h w" and k: "K w \<and> (True \<longrightarrow> lease_is None w)"
    then have a: "world_inv w" "rs_held_is t h w" "lease_is None w" by blast+
    note ok = lease_section_ok [OF a, of g ?role]
    show "(world_inv (snd (lease_section g ?role w)) \<and> world_may t w (snd (lease_section g ?role w)))
      \<and> rs_held_is t h (snd (lease_section g ?role w)) \<and> K (snd (lease_section g ?role w))
      \<and> (fst (lease_section g ?role w) \<longrightarrow> lease_is (Some (g, ?role)) (snd (lease_section g ?role w)))"
      using ok knows_calm [OF K ok(3)] k by blast
  qed (rule cond)
  have ensure: "stream.verified t (\<lambda>w. rs_held_is t h w \<and> K w \<and> (True \<longrightarrow> lease_is (Some (g, ?role)) w)) (perform (ensure_rule ?role)) (\<lambda>_. ?H)"
  proof (rule locked_perform)
    fix e w
    assume "world_inv w" "rs_held_is t h w" and k: "K w \<and> (True \<longrightarrow> lease_is (Some (g, ?role)) w)"
    then have a: "world_inv w" "rs_held_is t h w" "lease_is (Some (g, ?role)) w" by blast+
    note ok = ensure_ok [OF a, of e]
    show "(world_inv (snd (ensure_rule ?role e w)) \<and> world_may t w (snd (ensure_rule ?role e w)))
      \<and> rs_held_is t h (snd (ensure_rule ?role e w)) \<and> K (snd (ensure_rule ?role e w))"
      using ok knows_calm [OF K ok(3)] k by blast
  qed (rule knows_stable [OF K])
  have finish: "stream.verified t (\<lambda>w. rs_held_is t h w \<and> K w \<and> (leased \<longrightarrow> lease_is (Some (g, ?role)) w))
      (if \<not> leased then Ret FwInactive
       else prog_bind (perform (ensure_rule ?role)) (\<lambda>v. prog_bind (modify (record_outcome g ?role v)) (\<lambda>_. Ret v))) (\<lambda>_. ?H)" for leased
  proof (cases leased)
    case True
    have "stream.verified t ?H (prog_bind (modify (record_outcome g ?role v)) (\<lambda>_. Ret v)) (\<lambda>_. ?H)" for v
      by (rule stream.verified_bind [OF locked_quiet(2) [OF K quiet_record_outcome]]) (rule stream.verified_Ret)
    from stream.verified_bind [OF ensure this] show ?thesis by (simp add: True)
  qed (auto intro: stream.verified_Ret)
  have rest: "stream.verified t (\<lambda>w. rs_held_is t h w \<and> K w \<and> (retired \<longrightarrow> lease_is None w))
      (if \<not> retired then look (\<lambda>w. rd_firewall (w_rs w))
       else prog_bind (atomically (lease_section g ?role)) (\<lambda>leased. if \<not> leased then Ret FwInactive
       else prog_bind (perform (ensure_rule ?role)) (\<lambda>v. prog_bind (modify (record_outcome g ?role v)) (\<lambda>_. Ret v)))) (\<lambda>_. ?H)" for retired
  proof (cases retired)
    case True
    from stream.verified_bind [OF lease finish] show ?thesis by (simp add: True)
  next
    case False
    from locked_quiet(4) [OF K] show ?thesis by (simp add: False)
  qed
  show ?thesis unfolding apply_firewall_def by (rule stream.verified_bind [OF prior stream.verified_bind [OF retire rest]])
qed

section \<open>Listeners\<close>

lemma take_ok:
  assumes K: "knows t K" "slotless K"
  shows "stream.verified t (\<lambda>w. rs_held_is t None w \<and> K w) (atomically (take_server which))
    (\<lambda>r w. rs_held_is t r w \<and> K w \<and> slot_not which w)"
proof (rule locked_atomically)
  fix w
  assume a: "world_inv w" "rs_held_is t None w" "K w"
  let ?w = "snd (take_server which w)" and ?r = "fst (take_server which w)"
  show "(world_inv ?w \<and> world_may t w ?w) \<and> rs_held_is t ?r ?w \<and> K ?w \<and> slot_not which ?w"
  proof (cases "\<exists>sv. rd_server (w_rs w) = Some sv \<and> which sv")
    case True
    then obtain sv where sv: "rd_server (w_rs w) = Some sv" "which sv" by blast
    have eq: "take_server which w = (Some sv, (set_rs (\<lambda>r. r\<lparr>rd_server := None\<rparr>) w)\<lparr>w_rs_held := Some sv\<rparr>)"
      by (simp add: take_server_def sv)
    have "world_inv ?w \<and> world_may t w ?w"
    proof (rule section_ok [OF a(1)])
      assume s: "small w" "world_ok w"
      with a(2) have h: "w_rs_lock w = Some t" "w_rs_held w = None" by (simp_all add: rs_held_is_def)
      show "world_ok ?w" using s(2) sv h
        by (simp add: eq world_ok_def set_rs_def slot_ok_def udp_ok_def listeners_ok_def)
      show "world_steps t w ?w" using h by (simp add: eq world_steps_def lock_moves_def set_rs_def)
    qed (simp_all add: eq set_rs_def)
    moreover have "K ?w" using K(2) a(3) by (simp add: eq slotless_def)
    moreover have "rs_held_is t ?r ?w" using a(2) by (simp add: eq rs_held_is_def set_rs_def small_def)
    moreover have "slot_not which ?w" by (simp add: eq slot_not_def set_rs_def)
    ultimately show ?thesis by blast
  next
    case False
    then have "take_server which w = (None, w)" by (auto simp: take_server_def split: option.split)
    with a False show ?thesis by (auto simp: slot_not_def)
  qed
qed (rule knows_stable [OF knows_conj [OF K(1) knows_slot_not]])

lemma shutdown_ok:
  assumes K: "knows t K"
  shows "stream.verified t (\<lambda>w. rs_held_is t (Some sv) w \<and> K w) (modify (shutdown_server sv)) (\<lambda>_ w. rs_held_is t None w \<and> K w)"
proof (rule stream.verified_modify)
  fix w
  assume a: "world_inv w" and "rs_held_is t (Some sv) w \<and> K w"
  then have p: "rs_held_is t (Some sv) w" "K w" by blast+
  let ?w = "shutdown_server sv w"
  have c: "calm w ?w" by (simp add: calm_def shutdown_server_def)
  have "world_inv ?w \<and> world_may t w ?w"
  proof (rule section_ok [OF a])
    assume s: "small w" "world_ok w"
    with p(1) have h: "w_rs_lock w = Some t" "w_rs_held w = Some sv" by (simp_all add: rs_held_is_def)
    have "set (w_listeners w) = set_option (rd_server (w_rs w)) \<union> {sv}" "\<And>a. rd_server (w_rs w) = Some a \<Longrightarrow> a \<noteq> sv"
      using s(2) h by (auto simp: world_ok_def listeners_ok_def)
    then have "set (w_listeners w) - {sv} = set_option (rd_server (w_rs w))" by (cases "rd_server (w_rs w)") auto
    then show "world_ok ?w" using s(2) by (simp add: world_ok_def listeners_ok_def shutdown_server_def)
    show "world_steps t w ?w" using h by (simp add: world_steps_def lock_moves_def shutdown_server_def)
  qed (simp_all add: shutdown_server_def)
  moreover have "rs_held_is t None ?w" using p(1) by (simp add: rs_held_is_def shutdown_server_def small_def)
  moreover have "K ?w" by (rule knows_calm [OF K c p(2)])
  ultimately show "world_inv ?w \<and> world_may t w ?w \<and> rs_held_is t None ?w \<and> K ?w" by blast
qed (rule knows_stable [OF K])

lemma shutdown_taken:
  assumes "knows t K"
  shows "stream.verified t (\<lambda>w. rs_held_is t r w \<and> K w)
    (case r of Some sv \<Rightarrow> modify (shutdown_server sv) | None \<Rightarrow> Ret ()) (\<lambda>_ w. rs_held_is t None w \<and> K w)"
  using shutdown_ok [OF assms] by (cases r) (auto intro: stream.verified_Ret)

lemma quiet_begin_instance: "quiet w (snd (begin_instance i b w))"
  by (simp add: begin_instance_def Let_def quiet_on_relay_at)

lemma build_ok:
  "stream.verified t (\<lambda>w. rs_held_is t None w \<and> works_for i g sp w \<and> slot_not (server_of g) w) (perform (build_listener sp i inst))
    (\<lambda>r w. rs_held_is t (case r of Inl _ \<Rightarrow> None | Inr sv \<Rightarrow> Some sv) w \<and> works_for i g sp w
      \<and> (case r of Inl _ \<Rightarrow> True | Inr sv \<Rightarrow> built_for i g sp sv w))"
proof (rule locked_perform)
  fix e w
  assume a: "world_inv w" "rs_held_is t None w" and "works_for i g sp w \<and> slot_not (server_of g) w"
  then have k: "works_for i g sp w" "slot_not (server_of g) w" by blast+
  let ?w = "snd (build_listener sp i inst e w)" and ?r = "fst (build_listener sp i inst e w)"
  show "(world_inv ?w \<and> world_may t w ?w) \<and> rs_held_is t (case ?r of Inl _ \<Rightarrow> None | Inr sv \<Rightarrow> Some sv) ?w \<and> works_for i g sp ?w
      \<and> (case ?r of Inl _ \<Rightarrow> True | Inr sv \<Rightarrow> built_for i g sp sv ?w)"
  proof (cases "snd (en_build e)")
    case (Inl err)
    then show ?thesis using a k by (simp add: build_listener_def)
  next
    case (Inr u)
    define sv where "sv = \<lparr>sv_protocol = spec_protocol sp, sv_health = i, sv_generation = rh_server_generation (w_rs_heap w ! i),
        sv_instance = inst, sv_udp_port = udp_ingest_port sp\<rparr>"
    have eq: "build_listener sp i inst e w = (Inr sv, w\<lparr>w_listeners := sv # w_listeners w, w_rs_held := Some sv\<rparr>)"
      by (simp add: build_listener_def Inr sv_def Let_def)
    have gen: "sv_generation sv = g" if "small w" "world_ok w"
      using that k(1) by (simp add: sv_def works_for_def world_ok_def counters_ok_def)
    have "world_inv ?w \<and> world_may t w ?w"
    proof (rule section_ok [OF a(1)])
      assume s: "small w" "world_ok w"
      with a(2) have h: "w_rs_lock w = Some t" "w_rs_held w = None" by (simp_all add: rs_held_is_def)
      have "sv_generation x \<noteq> sv_generation sv" if "rd_server (w_rs w) = Some x" for x
        using k(2) that s(1) gen [OF s] by (auto simp: slot_not_def server_of_def)
      then show "world_ok ?w" using s(2) h by (auto simp: eq world_ok_def listeners_ok_def)
      show "world_steps t w ?w" using h by (simp add: eq world_steps_def lock_moves_def)
    qed (simp_all add: eq)
    moreover have c: "calm w ?w" by (simp add: eq calm_def)
    moreover have "built_for i g sp sv ?w"
      using gen a(1) calm_small [OF c] by (auto simp: built_for_def world_inv_def) (simp_all add: sv_def)
    moreover have "rs_held_is t (Some sv) ?w" using a(2) calm_small [OF c] by (simp add: rs_held_is_def) (simp add: eq)
    ultimately show ?thesis using knows_calm [OF knows_works_for c k(1)] by (simp add: eq)
  qed
next
  fix r :: "build_failure_kind \<times> app_error + restream_server"
  show "stream.stable t (\<lambda>w. rs_held_is t (case r of Inl _ \<Rightarrow> None | Inr sv \<Rightarrow> Some sv) w \<and> works_for i g sp w
      \<and> (case r of Inl _ \<Rightarrow> True | Inr sv \<Rightarrow> built_for i g sp sv w))"
    by (cases r) (simp_all add: knows_stable [OF knows_works_for] knows_stable [OF knows_conj [OF knows_works_for knows_built_for]])
qed

lemma current_health:
  assumes "relay_state_is_generation g w" "small w" "world_ok w" "g = of_nat (Suc i)" "i < length (w_rs_heap w)"
  shows "rd_health (w_rs w) = Some i"
proof -
  from assms(1) obtain k where k: "rd_health (w_rs w) = Some k" "rh_server_generation (w_rs_heap w ! k) = g"
    by (auto simp: relay_state_is_generation_def split: option.splits)
  with assms(3) have "k < length (w_rs_heap w)" by (simp add: world_ok_def intent_ok_def counters_ok_def)
  moreover from this have "g = of_nat (Suc k)" using k(2) assms(3) by (simp add: world_ok_def counters_ok_def)
  then have "(of_nat (Suc k) :: u64) = of_nat (Suc i)" using assms(4) by simp
  ultimately have "Suc k = Suc i" using assms(2,5) of_nat_epoch [of "Suc k" "Suc i"] by (simp add: small_def)
  then show ?thesis using k by simp
qed

lemma install_ok:
  "stream.verified t (\<lambda>w. rs_held_is t (Some sv) w \<and> works_for i g sp w \<and> built_for i g sp sv w)
    (atomically (install_server epoch g sp publish sv)) (\<lambda>b w. rs_held_is t (if b then None else Some sv) w \<and> works_for i g sp w)"
proof (rule locked_atomically)
  fix w
  assume a: "world_inv w" "rs_held_is t (Some sv) w" and "works_for i g sp w \<and> built_for i g sp sv w"
  then have k: "works_for i g sp w" "built_for i g sp sv w" by blast+
  let ?w = "snd (install_server epoch g sp publish sv w)" and ?b = "fst (install_server epoch g sp publish sv w)"
  show "(world_inv ?w \<and> world_may t w ?w) \<and> rs_held_is t (if ?b then None else Some sv) ?w \<and> works_for i g sp ?w"
  proof (cases "relay_is_current epoch g w \<and> scope_current sp w")
    case False
    then have "install_server epoch g sp publish sv w = (False, w)" unfolding install_server_def by (rule if_not_P)
    then show ?thesis using a k by simp
  next
    case True
    define listeners where "listeners = (case rd_server (w_rs w) of
      Some old \<Rightarrow> if old = sv then w_listeners w else removeAll old (w_listeners w) | None \<Rightarrow> w_listeners w)"
    have eq: "install_server epoch g sp publish sv w = (True,
        (set_rs (\<lambda>r. r\<lparr>rd_spec := (if publish then Some sp else rd_spec r), rd_server := Some sv\<rparr>) w)
        \<lparr>w_listeners := listeners, w_rs_held := None\<rparr>)"
      using True by (simp add: install_server_def listeners_def)
    have gen: "relay_state_is_generation g w" "rd_desired (w_rs w)"
      using True by (simp_all add: relay_is_current_def relay_state_is_generation_def)
    have "world_inv ?w \<and> world_may t w ?w"
    proof (rule section_ok [OF a(1)])
      assume s: "small w" "world_ok w"
      with a(2) have h: "w_rs_lock w = Some t" "w_rs_held w = Some sv" by (simp_all add: rs_held_is_def)
      from k s(1) have i: "g = of_nat (Suc i)" "i < length (w_rs_heap w)" "i < length (w_rs_ports w)" "sv_health sv = i"
        "sv_udp_port sv = udp_ingest_port sp" "sv_generation sv = g" by (simp_all add: works_for_def built_for_def)
      have health: "rd_health (w_rs w) = Some i" by (rule current_health [OF gen(1) s i(1,2)])
      with k(1) s(1) have port: "w_rs_ports w ! i = udp_ingest_port sp" by (simp add: works_for_def)
      from s(2) health obtain old where old: "rd_spec (w_rs w) = Some old" "udp_ingest_port old = udp_ingest_port sp"
        by (auto simp: world_ok_def intent_ok_def port)
      have "set listeners = {sv}"
        using s(2) h by (auto simp: listeners_def world_ok_def listeners_ok_def split: option.splits)
      then have "listeners_ok (Some sv) listeners None (w_rs_lock w)" by (simp add: listeners_ok_def)
      moreover have "slot_ok (Some sv) (w_rs_ports w)" using i port by (simp add: slot_ok_def)
      moreover have "intent_ok (rd_desired (w_rs w)) (if publish then Some sp else rd_spec (w_rs w)) (rd_health (w_rs w))
          (rd_intent_epoch (w_rs w)) (w_rs_ports w)"
        using s(2) health port by (auto simp: world_ok_def intent_ok_def)
      moreover have "udp_ok (pd_source (w_pb w)) (rd_desired (w_rs w)) (if publish then Some sp else rd_spec (w_rs w)) (Some sv)"
        using s(2) gen(2) old i(5) by (simp add: world_ok_def udp_ok_def)
      ultimately show "world_ok ?w" using s(2) by (simp add: eq world_ok_def set_rs_def)
      show "world_steps t w ?w" using h gen(2) by (simp add: eq world_steps_def lock_moves_def set_rs_def)
    qed (simp_all add: eq set_rs_def)
    moreover have "works_for i g sp ?w" using k(1) by (simp add: eq works_for_def set_rs_def small_def)
    moreover have "rs_held_is t None ?w" using a(2) by (simp add: eq rs_held_is_def set_rs_def small_def)
    ultimately show ?thesis by (simp add: eq)
  qed
qed (rule knows_stable [OF knows_works_for])

section \<open>Locks\<close>

lemma lock_rs_ok:
  assumes K: "knows t K"
  shows "stream.verified t K (lock_rs t) (\<lambda>_ w. rs_held_is t None w \<and> K w)"
  unfolding lock_rs_def
proof (rule stream.verified_await)
  fix w
  assume a: "world_inv w" "K w" "w_rs_lock w = None"
  let ?w = "w\<lparr>w_rs_lock := Some t\<rparr>"
  have held: "w_rs_held w = None" if "small w"
    using that a(1,3) by (auto simp: world_inv_def world_ok_def listeners_ok_def)
  have "world_inv ?w \<and> world_may t w ?w"
  proof (rule section_ok [OF a(1)])
    assume s: "small w" "world_ok w"
    show "world_ok ?w" using s(2) held [OF s(1)] by (simp add: world_ok_def listeners_ok_def)
    show "world_steps t w ?w" using a(3) by (simp add: world_steps_def lock_moves_def)
  qed simp_all
  moreover have "K ?w" by (rule knows_calm [OF K _ a(2)]) (simp add: calm_def)
  moreover have "rs_held_is t None ?w" using held by (simp add: rs_held_is_def small_def)
  ultimately show "world_inv ?w \<and> world_may t w ?w \<and> rs_held_is t None ?w \<and> K ?w" by blast
qed (rule knows_stable [OF K])

lemma unlock_rs_ok:
  assumes "stream.stable t R" "\<And>w. R w \<Longrightarrow> R (w\<lparr>w_rs_lock := None\<rparr>)"
  shows "stream.verified t (\<lambda>w. rs_held_is t None w \<and> R w) unlock_rs (\<lambda>_. R)"
  unfolding unlock_rs_def
proof (rule stream.verified_modify [OF _ assms(1)])
  fix w
  assume a: "world_inv w" and p: "rs_held_is t None w \<and> R w"
  let ?w = "w\<lparr>w_rs_lock := None\<rparr>"
  have "world_inv ?w \<and> world_may t w ?w"
  proof (rule section_ok [OF a])
    assume s: "small w" "world_ok w"
    with p have h: "w_rs_lock w = Some t" "w_rs_held w = None" by (simp_all add: rs_held_is_def)
    show "world_ok ?w" using s(2) h by (simp add: world_ok_def listeners_ok_def)
    show "world_steps t w ?w" using h by (simp add: world_steps_def lock_moves_def)
  qed simp_all
  then show "world_inv ?w \<and> world_may t w ?w \<and> R ?w" using p assms(2) by blast
qed

lemma with_rs_lock_ok:
  assumes "knows t K" "stream.verified t (\<lambda>w. rs_held_is t None w \<and> K w) body (\<lambda>x w. rs_held_is t None w \<and> R x w)"
    and "\<And>x. stream.stable t (R x)" "\<And>x w. R x w \<Longrightarrow> R x (w\<lparr>w_rs_lock := None\<rparr>)"
  shows "stream.verified t K (with_rs_lock t body) R"
  unfolding with_rs_lock_def
proof (rule stream.verified_bind [OF lock_rs_ok [OF assms(1)]], rule stream.verified_bind [OF assms(2)])
  fix x
  show "stream.verified t (\<lambda>w. rs_held_is t None w \<and> R x w) (prog_bind unlock_rs (\<lambda>_. Ret x)) R"
    by (rule stream.verified_bind [OF unlock_rs_ok [OF assms(3,4)]]) (auto intro: stream.verified_Ret)
qed

lemma with_rs_lock_True:
  assumes "knows t K" "stream.verified t (\<lambda>w. rs_held_is t None w \<and> K w) body (\<lambda>_ w. rs_held_is t None w \<and> L w)"
  shows "stream.verified t K (with_rs_lock t body) (\<lambda>_ _. True)"
  by (rule with_rs_lock_ok [OF assms(1) stream.verified_post [OF assms(2)]]) auto

lemma with_transaction_ok:
  assumes "stream.stable t P" "\<And>w w'. quiet w w' \<Longrightarrow> P w \<Longrightarrow> P w'" "stream.verified t P body (\<lambda>_ _. True)"
  shows "stream.verified t P (with_transaction t body) (\<lambda>_ _. True)"
proof -
  have lock: "stream.verified t P (await (\<lambda>w. w_rs_transaction w = None) (\<lambda>w. w\<lparr>w_rs_transaction := Some t\<rparr>)) (\<lambda>_. P)"
  proof (rule stream.verified_await [OF _ assms(1)])
    fix w
    assume "world_inv w" "P w"
    moreover have "quiet w (w\<lparr>w_rs_transaction := Some t\<rparr>)" by (simp add: quiet_def)
    ultimately show "world_inv (w\<lparr>w_rs_transaction := Some t\<rparr>) \<and> world_may t w (w\<lparr>w_rs_transaction := Some t\<rparr>) \<and> P (w\<lparr>w_rs_transaction := Some t\<rparr>)"
      using quiet_inv quiet_may assms(2) by blast
  qed
  have unlock: "stream.verified t (\<lambda>_. True) (modify (\<lambda>w. w\<lparr>w_rs_transaction := None\<rparr>)) (\<lambda>_ _. True)"
    unfolding modify_def by (rule quiet_True) (simp add: quiet_def)
  have ret: "stream.verified t (\<lambda>_. True) (prog_bind (modify (\<lambda>w. w\<lparr>w_rs_transaction := None\<rparr>)) (\<lambda>_. Ret x)) (\<lambda>_ _. True)" for x
    by (rule stream.verified_bind [OF unlock]) (rule stream.verified_Ret)
  show ?thesis unfolding with_transaction_def
    by (rule stream.verified_bind [OF lock], rule stream.verified_bind [OF assms(3) ret])
qed

end
