(* ===== verification/Relay_Tasks.thy ===== *)
theory Relay_Tasks
  imports Relay_Verified
begin

text \<open>
  Every task of the re-stream service keeps the rules of the shared world and its share of them, from
  any state: starts, stops, settings and protocol transactions, topology changes, firewall reports and
  turns of the supervisor with any number of recovery attempts.
\<close>

section \<open>Steady assertions\<close>

definition steady :: "task_id \<Rightarrow> (stream_world \<Rightarrow> bool) \<Rightarrow> bool" where
  "steady t P \<longleftrightarrow> stream.stable t P \<and> (\<forall>w w'. quiet w w' \<longrightarrow> P w \<longrightarrow> P w')"

abbreviation proves ::
    "task_id \<Rightarrow> (stream_world \<Rightarrow> bool) \<Rightarrow> 'a stream_prog \<Rightarrow> ('a \<Rightarrow> stream_world \<Rightarrow> bool) \<Rightarrow> bool" where
  "proves t P p Q \<equiv> stream.verified t P p Q"

definition during :: "task_id \<Rightarrow> (stream_world \<Rightarrow> bool) \<Rightarrow> 'a stream_prog \<Rightarrow> bool" where
  "during t P p \<longleftrightarrow> proves t P p (\<lambda>_. P)"

abbreviation okay :: "task_id \<Rightarrow> 'a stream_prog \<Rightarrow> bool" where
  "okay t p \<equiv> during t (\<lambda>_. True) p"

lemma steady_True [simp]: "steady t (\<lambda>_. True)"
  by (simp add: steady_def)

lemma steady_owns: "steady t (owns_start t epoch)"
  unfolding steady_def using stable_owns quiet_owns by blast

lemma steady_works: "steady t (works_for i g sp)"
  unfolding steady_def using stable_works_for knows_calm [OF knows_works_for] quiet_calm by blast

lemma steady_locked: "knows t K \<Longrightarrow> steady t (\<lambda>w. rs_held_is t h w \<and> K w)"
  unfolding steady_def using knows_stable knows_calm quiet_calm quiet_rs_held by blast

lemma during_Ret: "during t P (Ret x)"
  unfolding during_def by (rule stream.verified_Ret)

lemma during_bind: "during t P p \<Longrightarrow> (\<And>x. during t P (k x)) \<Longrightarrow> during t P (prog_bind p k)"
  unfolding during_def by (rule stream.verified_bind)

lemma during_perform: "steady t P \<Longrightarrow> (\<And>e w. quiet w (snd (f e w))) \<Longrightarrow> during t P (perform f)"
  unfolding during_def steady_def by (rule quiet_verified) blast+

lemma during_ops:
  assumes "steady t P"
  shows "during t P (ask a)" "during t P (look b)"
    "(\<And>w. quiet w (snd (f w))) \<Longrightarrow> during t P (atomically f)" "(\<And>w. quiet w (g w)) \<Longrightarrow> during t P (modify g)"
  unfolding program_defs by (rule during_perform [OF assms], simp)+

lemma during_if: "(b \<Longrightarrow> during t P p) \<Longrightarrow> (\<not> b \<Longrightarrow> during t P q) \<Longrightarrow> during t P (if b then p else q)"
  by simp

lemma okay_bind: "proves t (\<lambda>_. True) p R \<Longrightarrow> (\<And>x. proves t (R x) (k x) Q) \<Longrightarrow> okay t (prog_bind p k)"
  unfolding during_def by (rule stream.verified_post [OF stream.verified_bind]) auto

lemma ends_okay: "okay t p \<Longrightarrow> proves t P p (\<lambda>_ _. True)"
  unfolding during_def by (rule stream.verified_pre) auto

lemmas during_intros = during_Ret during_bind during_if

lemmas proves_ops = during_ops [unfolded during_def]

section \<open>Intents\<close>

lemma cancel_okay: "proves t (owns_start t epoch) (cancel_restream_start_intent epoch p) (\<lambda>_ _. True)"
proof -
  have cancel: "proves t (owns_start t epoch) (atomically (cancel_section epoch p)) (\<lambda>_ _. True)"
    by (rule stream.verified_atomically) (use cancel_ok in \<open>auto simp: owns_start_def\<close>)
  have send: "okay t (case r of Some g \<Rightarrow> modify (send_event (RetryRequested g)) | None \<Rightarrow> Ret ())" for r
    by (cases r) (simp_all add: during_Ret during_ops(4))
  have look: "proves t (owns_start t epoch) (look (\<lambda>w. w_rs_epoch w = epoch)) (\<lambda>_. owns_start t epoch)"
    using during_ops(2) [OF steady_owns] by (simp add: during_def)
  show ?thesis unfolding cancel_restream_start_intent_def
    by (rule stream.verified_bind [OF look])
      (auto intro: stream.verified_Ret stream.verified_bind [OF cancel send [unfolded during_def]])
qed

lemma publish_start_granted:
  "proves t (advanced t epoch) (publish_restream_start_intent epoch) (start_granted t)"
  unfolding publish_restream_start_intent_def
  by (rule stream.verified_perform) (use publish_start_ok stable_granted in blast)+

lemma fetch_advanced: "proves t (\<lambda>_. True) (atomically (fetch_rs_epoch t)) (advanced t)"
  by (rule stream.verified_atomically) (use fetch_ok stable_advanced in blast)+

lemma cas_advanced:
  "proves t (\<lambda>_. True) (atomically (cas_rs_epoch t expected)) (\<lambda>ok w. ok \<longrightarrow> advanced t (expected + 1) w)"
  by (rule stream.verified_atomically) (use cas_ok stable_advanced in blast)+

lemma begin_start_granted: "proves t (\<lambda>_. True) (begin_restream_start_intent t) (start_granted t)"
  unfolding begin_restream_start_intent_def by (rule stream.verified_bind [OF fetch_advanced publish_start_granted])

lemma begin_start_if_granted: "proves t (\<lambda>_. True) (begin_restream_start_intent_if_current t expected) (start_granted t)"
  unfolding begin_restream_start_intent_if_current_def
proof (rule stream.verified_bind [OF cas_advanced])
  fix ok
  show "proves t (\<lambda>w. ok \<longrightarrow> advanced t (expected + 1) w)
      (if ok then publish_restream_start_intent (expected + 1) else Ret None) (start_granted t)"
    using publish_start_granted by (cases ok) (auto intro: stream.verified_Ret simp: start_granted_def)
qed

lemma publish_stop_okay: "proves t (advanced t epoch) (atomically (publish_stop_section epoch)) (\<lambda>_ _. True)"
  by (rule stream.verified_atomically) (use publish_stop_ok in auto)

lemma begin_stop_okay: "okay t (begin_restream_stop_intent t)" "okay t (begin_restream_stop_intent_if_current t expected)"
proof -
  show "okay t (begin_restream_stop_intent t)"
    unfolding begin_restream_stop_intent_def by (rule okay_bind [OF fetch_advanced publish_stop_okay])
  have "proves t (\<lambda>w. ok \<longrightarrow> advanced t (expected + 1) w)
      (if ok then atomically (publish_stop_section (expected + 1)) else Ret None) (\<lambda>_ _. True)" for ok
    using publish_stop_okay by (cases ok) (auto intro: stream.verified_Ret)
  then show "okay t (begin_restream_stop_intent_if_current t expected)"
    unfolding begin_restream_stop_intent_if_current_def by (rule okay_bind [OF cas_advanced])
qed

section \<open>Reservation\<close>

lemma reserve_generation_ok:
  assumes "world_inv w" "owns_start t epoch w" "w_rs_epoch w = epoch" "\<forall>port. udp_ingest_port sp = Some port \<longrightarrow> pd_source (w_pb w) \<noteq> Some (UdpMode port)"
  shows "world_inv (snd (reserve_generation sp target e w)) \<and> world_may t w (snd (reserve_generation sp target e w))
    \<and> owns_start t epoch (snd (reserve_generation sp target e w))
    \<and> works_for (length (w_rs_heap w)) (w_rs_generation w + 1) sp (snd (reserve_generation sp target e w))"
proof -
  let ?w = "snd (reserve_generation sp target e w)"
  have small: "small w" if "small ?w" using that by (simp add: reserve_generation_def Let_def small_def set_rs_def)
  have desired: "rd_desired (w_rs w)" "rd_intent_epoch (w_rs w) = Some epoch" if "small w" "world_ok w"
    using that assms(2,3) by (auto simp: owns_start_def world_ok_def epoch_ok_def)
  have "world_inv ?w \<and> world_may t w ?w"
  proof (rule section_ok [OF assms(1)])
    assume s: "small w" "world_ok w"
    have c: "counters_ok (w_rs_heap ?w) (w_rs_ports ?w) (w_rs_generation ?w)"
      using s(2) by (auto simp: world_ok_def counters_ok_def reserve_generation_def Let_def nth_append relay_health_new_def less_Suc_eq)
    have l: "length (w_rs_ports w) = length (w_rs_heap w)" using s(2) by (simp add: world_ok_def counters_ok_def)
    have i: "intent_ok True (Some sp) (Some (length (w_rs_heap w))) (rd_intent_epoch (w_rs w)) (w_rs_ports w @ [udp_ingest_port sp])"
      using desired(2) [OF s] by (simp add: intent_ok_def nth_append flip: l)
    have sl: "slot_ok (rd_server (w_rs w)) (w_rs_ports w @ [udp_ingest_port sp])"
      using s(2) by (auto simp: world_ok_def slot_ok_def nth_append split: option.splits)
    have u: "udp_ok (pd_source (w_pb w)) True (Some sp) (rd_server (w_rs w))"
      using s(2) assms(4) by (auto simp: world_ok_def udp_ok_def)
    show "world_ok ?w" using s(2) c i sl u desired(1) [OF s]
      by (simp add: world_ok_def reserve_generation_def Let_def set_rs_def)
    show "world_steps t w ?w"
      by (simp add: reserve_generation_def Let_def set_rs_def world_steps_def lock_moves_def)
  qed (simp_all add: reserve_generation_def Let_def set_rs_def)
  moreover have "owns_start t epoch ?w"
    using assms(2) small by (auto simp: owns_start_def advanced_def reserve_generation_def Let_def set_rs_def)
  moreover have "works_for (length (w_rs_heap w)) (w_rs_generation w + 1) sp ?w"
  proof -
    have "w_rs_generation w = of_nat (length (w_rs_heap w))" "length (w_rs_ports w) = length (w_rs_heap w)" if "small ?w"
      using small [OF that] assms(1) by (simp_all add: world_inv_def world_ok_def counters_ok_def)
    then show ?thesis by (auto simp: works_for_def reserve_generation_def Let_def set_rs_def nth_append)
  qed
  ultimately show ?thesis by blast
qed

lemma reserve_ok:
  "proves t (owns_start t epoch) (perform (reserve_section sp target epoch))
    (\<lambda>r w. owns_start t epoch w \<and> (\<forall>i g. r = Reserved i g \<longrightarrow> works_for i g sp w))"
proof (rule stream.verified_perform)
  fix e w
  assume a: "world_inv w" "owns_start t epoch w"
  let ?w = "snd (reserve_section sp target epoch e w)" and ?r = "fst (reserve_section sp target epoch e w)"
  let ?claim = "case udp_ingest_port sp of Some port \<Rightarrow> guard_relay (w_state w) port | None \<Rightarrow> Inr ()"
  show "world_inv ?w \<and> world_may t w ?w \<and> owns_start t epoch ?w \<and> (\<forall>i g. ?r = Reserved i g \<longrightarrow> works_for i g sp ?w)"
  proof (cases "w_rs_epoch w = epoch \<and> \<not> (healthy_noop sp w \<and> rd_target (w_rs w) = target) \<and> ?claim = Inr ()")
    case True
    then have eq: "reserve_section sp target epoch e w = reserve_generation sp target e w" by (auto simp: reserve_section_def)
    from True have "w_rs_epoch w = epoch" "\<forall>port. udp_ingest_port sp = Some port \<longrightarrow> pd_source (w_pb w) \<noteq> Some (UdpMode port)"
      by (auto simp: guard_relay_def split: if_splits)
    from reserve_generation_ok [OF a this, of target e] show ?thesis by (simp add: eq) (simp add: reserve_generation_def Let_def)
  next
    case False
    then have "?w = w \<and> (\<forall>i g. ?r \<noteq> Reserved i g)"
      by (auto simp: reserve_section_def split: option.splits sum.splits)
    with a show ?thesis by simp
  qed
next
  fix r
  show "stream.stable t (\<lambda>w. owns_start t epoch w \<and> (\<forall>i g. r = Reserved i g \<longrightarrow> works_for i g sp w))"
    using stable_owns [of t epoch] stable_works_for [of t] unfolding stream.stable_def by blast
qed

section \<open>Replacing the listener\<close>

abbreviation holds :: "task_id \<Rightarrow> (stream_world \<Rightarrow> bool) \<Rightarrow> stream_world \<Rightarrow> bool" where
  "holds t K \<equiv> \<lambda>w. rs_held_is t None w \<and> K w"

lemma retire_during: "knows t K \<Longrightarrow> during t (\<lambda>w. rs_held_is t h w \<and> K w) (retire_firewall g)"
  unfolding during_def by (rule retire_ok)

lemma apply_during: "knows t K \<Longrightarrow> during t (\<lambda>w. rs_held_is t h w \<and> K w) (apply_firewall sp g)"
  unfolding during_def by (rule apply_firewall_ok)

lemma fail_during:
  assumes "steady t P" "\<And>h. rh_server_generation (mark h) = rh_server_generation h"
  shows "during t P (fail_and_retry i g mark err)"
  unfolding fail_and_retry_def
  by (intro during_bind during_Ret during_ops(4) [OF assms(1)] quiet_on_relay assms(2) quiet_send)

lemma abandon_during:
  assumes "knows t K"
  shows "during t (\<lambda>w. rs_held_is t h w \<and> K w) (abandon i epoch g reason err)"
  unfolding abandon_def
  by (intro during_bind during_if during_Ret retire_during [OF assms] during_ops(2) [OF steady_locked [OF assms]]
      fail_during [OF steady_locked [OF assms]]) simp

lemma begin_instance_during: "steady t P \<Longrightarrow> during t P (atomically (begin_instance i b))"
  by (simp add: during_ops(3) quiet_begin_instance)

text \<open>A listener is built for the generation and is then in the local variable.\<close>

lemma build_server_ok:
  "proves t (holds t (\<lambda>w. works_for i g sp w \<and> slot_not (server_of g) w)) (build_restream_server sp i recovering)
    (\<lambda>(inst, r) w. rs_held_is t (case r of Inl _ \<Rightarrow> None | Inr sv \<Rightarrow> Some sv) w \<and> works_for i g sp w
      \<and> (case r of Inl _ \<Rightarrow> True | Inr sv \<Rightarrow> built_for i g sp sv w))"
proof -
  let ?P = "holds t (\<lambda>w. works_for i g sp w \<and> slot_not (server_of g) w)"
  have "steady t ?P" by (rule steady_locked) (intro knows_intros)
  from begin_instance_during [OF this, of i recovering]
  have inst: "proves t ?P (atomically (begin_instance i recovering)) (\<lambda>_. ?P)" by (simp add: during_def)
  show ?thesis unfolding build_restream_server_def
    by (rule stream.verified_bind [OF inst], rule stream.verified_bind [OF build_ok]) (rule stream.verified_Ret, simp)
qed

lemma install_candidate_ok:
  "proves t (holds t (\<lambda>w. works_for i g sp w \<and> slot_not (server_of g) w)) (install_candidate sp i epoch g fw) (\<lambda>_. holds t (works_for i g sp))"
  unfolding install_candidate_def
proof (rule stream.verified_bind [OF build_server_ok])
  fix x :: "u64 \<times> (build_failure_kind \<times> app_error + restream_server)"
  obtain inst r where x: "x = (inst, r)" by (cases x)
  let ?W = "works_for i g sp"
  have W: "knows t ?W" by (rule knows_works_for)
  show "proves t ((\<lambda>(inst, r) w. rs_held_is t (case r of Inl _ \<Rightarrow> None | Inr sv \<Rightarrow> Some sv) w \<and> ?W w
      \<and> (case r of Inl _ \<Rightarrow> True | Inr sv \<Rightarrow> built_for i g sp sv w)) x)
    (case x of (inst, Inl (kind, err)) \<Rightarrow> prog_bind (retire_firewall g) (\<lambda>_. fail_and_retry i g
        (mark_build_failed inst (redact_relay_text (app_error_to_string err) (mount_path sp)) False) err)
     | (inst, Inr sv) \<Rightarrow> prog_bind (atomically (install_server epoch g sp False sv)) (\<lambda>installed.
         if installed then Ret (Inr (info_from_spec sp fw))
         else prog_bind (modify (shutdown_server sv)) (\<lambda>_. abandon i epoch g ''Bind topology changed during listener construction'' superseded)))
    (\<lambda>_. holds t ?W)"
  proof (cases r)
    case (Inl f)
    obtain kind err where f: "f = (kind, err)" by (cases f)
    have "during t (holds t ?W) (prog_bind (retire_firewall g) (\<lambda>_. fail_and_retry i g
        (mark_build_failed inst (redact_relay_text (app_error_to_string err) (mount_path sp)) False) err))"
      by (intro during_bind retire_during [OF W] fail_during [OF steady_locked [OF W]]) simp
    then show ?thesis by (simp add: x Inl f during_def)
  next
    case (Inr sv)
    have "proves t (\<lambda>w. rs_held_is t (if b then None else Some sv) w \<and> ?W w)
        (if b then Ret (Inr (info_from_spec sp fw))
         else prog_bind (modify (shutdown_server sv)) (\<lambda>_. abandon i epoch g ''Bind topology changed during listener construction'' superseded))
        (\<lambda>_. holds t ?W)" for b
      using stream.verified_bind [OF shutdown_ok [OF W] abandon_during [OF W, unfolded during_def]]
      by (cases b) (auto intro: stream.verified_Ret)
    from stream.verified_bind [OF install_ok this] show ?thesis by (simp add: x Inr)
  qed
qed

lemma knows_slot_mono: "slot_not (\<lambda>_. True) w \<Longrightarrow> slot_not which w"
  by (simp add: slot_not_def)

text \<open>The stored listener goes to the local variable, is shut down, and its rule is retired.\<close>

lemma take_old_ok:
  "proves t (holds t (works_for i g sp)) (atomically (take_old_server epoch g))
    (\<lambda>r w. rs_held_is t (Option.bind r id) w \<and> works_for i g sp w \<and> (r \<noteq> None \<longrightarrow> slot_not (\<lambda>_. True) w))"
proof -
  have K: "knows t (\<lambda>w. works_for i g sp w \<and> slot_not (\<lambda>_. True) w)" by (intro knows_intros)
  have taken: "proves t (holds t (works_for i g sp)) (atomically (take_server (\<lambda>_. True)))
      (\<lambda>r w. rs_held_is t r w \<and> works_for i g sp w \<and> slot_not (\<lambda>_. True) w)"
    by (rule take_ok [OF knows_works_for slotless_intros(2)])
  show ?thesis
  proof (rule locked_atomically)
    fix w
    assume a: "world_inv w" "rs_held_is t None w" "works_for i g sp w"
    let ?w = "snd (take_old_server epoch g w)" and ?r = "fst (take_old_server epoch g w)"
    show "(world_inv ?w \<and> world_may t w ?w) \<and> rs_held_is t (Option.bind ?r id) ?w \<and> works_for i g sp ?w \<and> (?r \<noteq> None \<longrightarrow> slot_not (\<lambda>_. True) ?w)"
    proof (cases "\<not> relay_state_is_generation g w \<or> rd_intent_epoch (w_rs w) \<noteq> Some epoch")
      case True
      then have "take_old_server epoch g w = (None, w)" unfolding take_old_server_def by (rule if_P)
      with a show ?thesis by simp
    next
      case False
      then have eq: "take_old_server epoch g w = map_prod Some id (take_server (\<lambda>_. True) w)" unfolding take_old_server_def by (rule if_not_P)
      from stream.verified_ActD [OF taken [unfolded atomically_def perform_def] a(1) conjI [OF a(2,3)] refl]
      obtain P where P: "world_inv (snd (take_server (\<lambda>_. True) w))" "world_may t w (snd (take_server (\<lambda>_. True) w))"
        "P (snd (take_server (\<lambda>_. True) w))"
        "proves t P (Ret (fst (take_server (\<lambda>_. True) w))) (\<lambda>r w. rs_held_is t r w \<and> works_for i g sp w \<and> slot_not (\<lambda>_. True) w)"
        by blast
      from stream.verified_RetD [OF P(4,1,3)] P(1,2) show ?thesis by (simp add: eq)
    qed
  next
    fix r :: "restream_server option option"
    show "stream.stable t (\<lambda>w. rs_held_is t (Option.bind r id) w \<and> works_for i g sp w \<and> (r \<noteq> None \<longrightarrow> slot_not (\<lambda>_. True) w))"
      using knows_stable [OF K] knows_stable [OF knows_works_for] by (cases r) auto
  qed
qed

lemma retire_old_ok:
  assumes K: "knows t K"
  shows "proves t (\<lambda>w. rs_held_is t old w \<and> K w)
    (case old of Some sv \<Rightarrow> prog_bind (modify (shutdown_server sv)) (\<lambda>_. retire_firewall (sv_generation sv)) | None \<Rightarrow> Ret True)
    (\<lambda>_. holds t K)"
proof (cases old)
  case None
  then show ?thesis by (auto intro: stream.verified_Ret)
next
  case (Some sv)
  from stream.verified_bind [OF shutdown_ok [OF K] retire_ok [OF K]] show ?thesis by (simp add: Some)
qed

text \<open>From the second currency check of a start to its end, under the lifecycle lock.\<close>

lemma replace_rest_ok:
  fixes P :: "stream_world \<Rightarrow> bool"
  assumes P: "P = holds t (\<lambda>w. works_for i g sp w \<and> slot_not (server_of g) w)"
  shows "proves t P (case gst of
       Inl err \<Rightarrow> prog_bind (atomically (begin_instance i False)) (\<lambda>inst.
         fail_and_retry i g (mark_build_failed inst (redact_relay_text (app_error_to_string err) (mount_path sp)) False) err)
     | Inr _ \<Rightarrow>
         prog_bind (ask (\<lambda>e. en_preflight e target)) (\<lambda>preflight.
         case preflight of
           Inl err \<Rightarrow> fail_and_retry i g (mark_resolution_failed (app_error_to_string err)) err
         | Inr _ \<Rightarrow>
             prog_bind (look (scope_current sp)) (\<lambda>unchanged.
             if \<not> unchanged
             then fail_and_retry i g (mark_resolution_failed ''Bind topology changed during preflight; resolving again'')
                    (Stream ''Bind topology changed; listener recovery is pending'')
             else
             prog_bind (apply_firewall sp g) (\<lambda>fw.
             prog_bind (look (\<lambda>w. relay_is_current epoch g w \<and> scope_current sp w)) (\<lambda>current.
             if \<not> current
             then abandon i epoch g ''Bind topology changed during policy reconciliation''
                    (Stream ''Listener start superseded during Windows rule reconciliation'')
             else install_candidate sp i epoch g fw)))))
    (\<lambda>_. holds t (works_for i g sp))"
proof -
  have K: "knows t (\<lambda>w. works_for i g sp w \<and> slot_not (server_of g) w)" by (intro knows_intros)
  have st: "steady t P" unfolding P by (rule steady_locked [OF K])
  have weak: "during t P p \<Longrightarrow> proves t P p (\<lambda>_. holds t (works_for i g sp))" for p :: "restream_server_info result stream_prog"
    unfolding during_def P by (erule stream.verified_post) blast
  have fail: "proves t P (fail_and_retry i g mark err :: restream_server_info result stream_prog) (\<lambda>_. holds t (works_for i g sp))"
    if "\<And>h. rh_server_generation (mark h) = rh_server_generation h" for mark and err
    by (rule weak) (rule fail_during [OF st that])
  have inst: "proves t P (atomically (begin_instance i False)) (\<lambda>_. P)" using begin_instance_during [OF st] by (simp add: during_def)
  note answer = proves_ops(1,2) [OF st]
  have fw: "proves t P (apply_firewall sp g) (\<lambda>_. P)" unfolding P by (rule apply_firewall_ok [OF K])
  have drop: "proves t P (abandon i epoch g reason err :: restream_server_info result stream_prog) (\<lambda>_. holds t (works_for i g sp))" for reason err
    by (rule weak) (unfold P, rule abandon_during [OF K])
  have inst_ok: "proves t P (install_candidate sp i epoch g v) (\<lambda>_. holds t (works_for i g sp))" for v
    unfolding P by (rule install_candidate_ok)
  show ?thesis
    by (cases gst) (auto intro!: stream.verified_bind [OF inst] fail stream.verified_bind [OF answer(1)] stream.verified_bind [OF answer(2)]
        stream.verified_bind [OF fw] drop inst_ok split: sum.split)
qed

lemma replace_listener_ok:
  "proves t (holds t (works_for i g sp)) (replace_listener sp target i epoch g gst) (\<lambda>_. holds t (works_for i g sp))"
proof -
  let ?W = "works_for i g sp" and ?S = "\<lambda>w. works_for i g sp w \<and> slot_not (server_of g) w"
  have W: "knows t ?W" and S: "knows t ?S" by (intro knows_intros)+
  note look_W = proves_ops(2) [OF steady_locked [OF W]] and look_S = proves_ops(2) [OF steady_locked [OF S]]
  have quits: "proves t (\<lambda>w. rs_held_is t h w \<and> ?W w) (Ret x) (\<lambda>_ w. rs_held_is t h w \<and> ?W w)" for x :: "restream_server_info result" and h
    by (rule stream.verified_Ret)
  have retire: "proves t (\<lambda>w. rs_held_is t (Option.bind (Some old) id) w \<and> ?W w \<and> (Some old \<noteq> None \<longrightarrow> slot_not (\<lambda>_. True) w))
      (case old of Some sv \<Rightarrow> prog_bind (modify (shutdown_server sv)) (\<lambda>_. retire_firewall (sv_generation sv)) | None \<Rightarrow> Ret True)
      (\<lambda>_. holds t ?S)" for old
    by (rule stream.verified_pre [OF retire_old_ok [OF S]]) (simp add: knows_slot_mono)
  have stop: "proves t (holds t ?S) (Ret x) (\<lambda>_. holds t ?W)" for x :: "restream_server_info result"
    by (rule stream.verified_Ret) blast
  show ?thesis unfolding replace_listener_def
    apply (rule stream.verified_bind [OF look_W], rule stream.verified_if, rule quits, rule stream.verified_bind [OF take_old_ok])
    subgoal for current taken
    proof (cases taken)
      case None
      then show ?thesis by (auto intro: stream.verified_Ret)
    next
      case (Some old)
      show ?thesis unfolding Some option.case
        by (rule stream.verified_bind [OF retire], rule stream.verified_bind [OF look_S], rule stream.verified_if, rule stop)
          (rule replace_rest_ok [OF refl])
    qed
    done
qed

section \<open>Start\<close>

lemma resolve_binding_during: "steady t P \<Longrightarrow> during t P (resolve_binding nm saved adopted)"
  unfolding resolve_binding_def by (intro during_intros during_ops)

lemma resolve_spec_during: "steady t P \<Longrightarrow> during t P (resolve_restream_start_spec s adopted)"
  unfolding resolve_restream_start_spec_def
  by (auto intro!: during_intros during_ops resolve_binding_during split: sum.split option.split)

lemma start_inner_ok:
  "proves t (owns_start t epoch) (start_restream_server_inner t settings adopted epoch preserve) (\<lambda>_ _. True)"
proof -
  let ?O = "owns_start t epoch"
  note st = steady_owns [of t epoch]
  have cancelled: "proves t ?O (prog_bind (cancel_restream_start_intent epoch preserve) (\<lambda>_. Ret (Inl err))) (\<lambda>_ _. True)"
    for err :: app_error
    by (rule stream.verified_bind [OF cancel_okay]) (rule stream.verified_Ret, simp)
  have run: "proves t (works_for i g sp) (prog_bind (ask en_gst) (\<lambda>gst. with_rs_lock t (replace_listener sp target i epoch g gst))) (\<lambda>_ _. True)"
    for i g sp target
    by (rule stream.verified_bind [OF proves_ops(1) [OF steady_works]]) (rule with_rs_lock_True [OF knows_works_for replace_listener_ok])
  have reserved: "proves t (\<lambda>w. ?O w \<and> (\<forall>i g. r = Reserved i g \<longrightarrow> works_for i g sp w))
      (case r of StartSuperseded \<Rightarrow> Ret (Inl superseded_by_stop) | HealthyNoop fw \<Rightarrow> Ret (Inr (info_from_spec sp fw))
       | PortDenied err \<Rightarrow> prog_bind (cancel_restream_start_intent epoch preserve) (\<lambda>_. Ret (Inl err))
       | Reserved i g \<Rightarrow> prog_bind (ask en_gst) (\<lambda>gst. with_rs_lock t (replace_listener sp target i epoch g gst))) (\<lambda>_ _. True)" for r sp target
  proof (cases r)
    case (Reserved i g)
    show ?thesis unfolding Reserved reservation.case by (rule stream.verified_pre [OF run]) simp
  next
    case (PortDenied err)
    show ?thesis unfolding PortDenied reservation.case by (rule stream.verified_pre [OF cancelled]) simp
  qed (auto intro: stream.verified_Ret)
  have ready: "proves t ?O (prog_bind (look (\<lambda>w. w_rs_epoch w = epoch)) (\<lambda>current.
      if \<not> current then Ret (Inl superseded_by_stop) else prog_bind (perform (reserve_section sp target epoch)) (\<lambda>r.
      case r of StartSuperseded \<Rightarrow> Ret (Inl superseded_by_stop) | HealthyNoop fw \<Rightarrow> Ret (Inr (info_from_spec sp fw))
       | PortDenied err \<Rightarrow> prog_bind (cancel_restream_start_intent epoch preserve) (\<lambda>_. Ret (Inl err))
       | Reserved i g \<Rightarrow> prog_bind (ask en_gst) (\<lambda>gst. with_rs_lock t (replace_listener sp target i epoch g gst))))) (\<lambda>_ _. True)" for sp target
    by (rule stream.verified_bind [OF proves_ops(2) [OF st]], rule stream.verified_if, rule stream.verified_Ret, simp)
      (rule stream.verified_bind [OF reserve_ok reserved])
  note resolve = resolve_spec_during [OF st, unfolded during_def]
  show ?thesis unfolding start_restream_server_inner_def Let_def
    by (rule stream.verified_bind [OF proves_ops(1) [OF st]])
      (auto intro!: cancelled stream.verified_bind [OF resolve] ready split: sum.split)
qed

lemma granted_ok:
  assumes "\<And>epoch p. proves t (owns_start t epoch) (k epoch p) (\<lambda>_ _. True)" "okay t q"
  shows "proves t (start_granted t r) (case r of None \<Rightarrow> q | Some (epoch, p) \<Rightarrow> k epoch p) (\<lambda>_ _. True)"
proof (cases r)
  case None
  then show ?thesis using ends_okay [OF assms(2)] by simp
next
  case (Some x)
  obtain epoch p where x: "x = (epoch, p)" by (cases x)
  show ?thesis unfolding Some x option.case prod.case by (rule stream.verified_pre [OF assms(1)]) (simp add: start_granted_def Some x)
qed

lemma transaction_ok: "steady t P \<Longrightarrow> proves t P body (\<lambda>_ _. True) \<Longrightarrow> proves t P (with_transaction t body) (\<lambda>_ _. True)"
  unfolding steady_def by (rule with_transaction_ok) blast+

lemma start_ok: "okay t (start_restream_server t adopted)"
proof -
  have cancelled: "proves t (owns_start t epoch) (prog_bind (cancel_restream_start_intent epoch preserve) (\<lambda>_. Ret (Inl err))) (\<lambda>_ _. True)"
    for epoch preserve and err :: app_error
    by (rule stream.verified_bind [OF cancel_okay]) (rule stream.verified_Ret, simp)
  show ?thesis unfolding start_restream_server_def
    by (rule during_bind [OF during_ops(1) [OF steady_True]])
      (auto intro!: during_Ret okay_bind [OF begin_start_granted granted_ok] transaction_ok [OF steady_owns]
        stream.verified_bind [OF proves_ops(2) [OF steady_owns]] stream.verified_bind [OF proves_ops(1) [OF steady_owns]]
        stream.verified_Ret cancelled start_inner_ok split: sum.split)
qed

section \<open>Stop\<close>

lemma finish_stop_okay: "okay t (finish_restream_stop t intent)"
proof -
  let ?H = "holds t (\<lambda>_. True)"
  note K = knows_True [of t]
  have take: "proves t ?H (atomically (take_server which)) (\<lambda>r w. rs_held_is t r w \<and> True)" for which
    by (rule stream.verified_post [OF take_ok [OF K slotless_intros(1)]]) blast
  have retire: "during t ?H (case g of Some g \<Rightarrow> if b then retire_firewall g else Ret True | None \<Rightarrow> Ret True)" for g b
    by (cases g; cases b) (simp_all only: option.case if_True if_False during_Ret retire_during [OF K])
  have rest: "proves t ?H (prog_bind (case si_target_generation intent of Some g \<Rightarrow> retire_firewall g | None \<Rightarrow> Ret True) (\<lambda>_.
     prog_bind (case si_firewall_generation intent of
                  Some g \<Rightarrow> if si_firewall_generation intent \<noteq> si_target_generation intent then retire_firewall g else Ret True
                | None \<Rightarrow> Ret True) (\<lambda>_. Ret (Inr ())))) (\<lambda>_. ?H)"
    using during_bind [OF retire [where b = True, unfolded if_True] during_bind [OF retire during_Ret]] by (simp only: during_def)
  show ?thesis unfolding finish_restream_stop_def during_def
    by (rule stream.verified_pre [OF with_rs_lock_True [OF K]], rule stream.verified_bind [OF take],
        rule stream.verified_bind [OF shutdown_taken [OF K] rest])
qed

lemma stop_ok: "okay t (stop_restream_server t)"
proof -
  have "okay t (with_transaction t (case intent of Some i \<Rightarrow> finish_restream_stop t i | None \<Rightarrow> Ret (Inr ())))" for intent
    unfolding during_def
    by (rule transaction_ok [OF steady_True]) (auto intro: finish_stop_okay [unfolded during_def] stream.verified_Ret split: option.split)
  then show ?thesis unfolding stop_restream_server_def by (intro during_bind begin_stop_okay(1))
qed

section \<open>Transactions\<close>

lemma look_result: "okay t (prog_bind (look current_operation_result) (\<lambda>r. Ret (Inr r)))"
  by (intro during_intros during_ops steady_True)

lemma restore_okay: "okay t (restore_restream_after_transaction_error t old adopted intent err)"
proof -
  have "proves t (owns_start t epoch) (prog_bind (start_restream_server_inner t old adopted epoch preserve) (\<lambda>restored.
      case restored of Inr _ \<Rightarrow> Ret err | Inl restoration \<Rightarrow> Ret (Config (app_error_to_string err
        @ ''; restoring the prior re-stream output also failed: '' @ app_error_to_string restoration)))) (\<lambda>_ _. True)" for epoch preserve
    by (rule stream.verified_bind [OF start_inner_ok]) (auto intro: stream.verified_Ret split: sum.split)
  then show ?thesis unfolding restore_restream_after_transaction_error_def
    by (auto intro!: during_Ret okay_bind [OF begin_start_if_granted granted_ok])
qed

lemma transaction_error_okay: "okay t (transaction_error t old adopted intent err)"
  unfolding transaction_error_def by (auto intro!: during_intros restore_okay split: option.split)

lemma claim_stop_okay: "okay t (claim_stop t err expected)"
  unfolding claim_stop_def by (intro during_intros begin_stop_okay)

lemma restart_okay: "okay t (restart_after t adopted settings check epoch)"
proof -
  have "proves t (owns_start t start_epoch) (prog_bind (start_restream_server_inner t settings adopted start_epoch preserve) (\<lambda>r.
      case r of Inl err \<Rightarrow> Ret (Inl err) | Inr _ \<Rightarrow> prog_bind (look current_operation_result) (\<lambda>r. Ret (Inr r)))) (\<lambda>_ _. True)"
    for start_epoch preserve
    by (rule stream.verified_bind [OF start_inner_ok])
      (auto intro!: stream.verified_Ret look_result [unfolded during_def] split: sum.split)
  then show ?thesis unfolding restart_after_def
    by (auto intro!: okay_bind [OF begin_start_if_granted granted_ok] look_result stream.verified_Ret split: sum.split)
qed

lemma finish_if_okay: "okay t (finish_stop_if t intent)"
  unfolding finish_stop_if_def by (auto intro!: during_intros finish_stop_okay split: option.split)

lemma apply_commit_okay: "okay t (apply_commit t adopted old was_desired intent)"
  unfolding apply_commit_def
  by (auto intro!: during_bind finish_if_okay during_ops steady_True transaction_error_okay restart_okay look_result
      split: sum.split option.split)

lemma quiet_select [simp]: "quiet w (select_protocol p w)"
  by (simp add: select_protocol_def quiet_def set_rs_def)

lemma switch_commit_okay: "okay t (switch_commit t adopted protocol old was_desired intent)"
  unfolding switch_commit_def
  by (auto intro!: during_bind finish_if_okay during_ops steady_True transaction_error_okay restart_okay look_result split: sum.split)

lemma switch_same_okay: "okay t (switch_same t adopted protocol prospective expected was_desired intent)"
  unfolding switch_same_def
  by (auto intro!: during_bind finish_if_okay during_ops steady_True restart_okay look_result)

lemma apply_transaction_okay: "okay t (apply_transaction t upd adopted operation_epoch intent)"
  unfolding apply_transaction_def Let_def
  by (auto intro!: during_bind during_ops steady_True during_Ret transaction_error_okay claim_stop_okay apply_commit_okay
      split: sum.split option.split)

lemma switch_transaction_okay: "okay t (switch_transaction t protocol adopted operation_epoch intent)"
  unfolding switch_transaction_def Let_def
  by (auto intro!: during_bind during_ops steady_True during_Ret transaction_error_okay begin_stop_okay switch_commit_okay switch_same_okay
      split: sum.split option.split)

lemma in_transaction: "okay t body \<Longrightarrow> okay t (with_transaction t body)"
  unfolding during_def by (rule transaction_ok [OF steady_True])

lemma apply_ok: "okay t (apply_restream_settings t upd adopted)"
  unfolding apply_restream_settings_def Let_def
  by (auto intro!: during_bind during_ops steady_True during_Ret claim_stop_okay in_transaction apply_transaction_okay
      split: sum.split)

lemma switch_ok: "okay t (switch_restream_protocol t protocol adopted)"
  unfolding switch_restream_protocol_def
  by (auto intro!: during_bind during_ops steady_True during_Ret claim_stop_okay in_transaction switch_transaction_okay
      split: sum.split)

section \<open>Topology and firewall reports\<close>

lemma quiet_topology: "quiet w (snd (topology_section g inst i rebind scope w))"
  by (cases "rd_spec (w_rs w)") (simp_all add: topology_section_def quiet_def set_rs_def udp_ingest_port_def)

lemma locked_okay: "during t (holds t (\<lambda>_. True)) body \<Longrightarrow> okay t (with_rs_lock t body)"
  unfolding during_def by (rule with_rs_lock_True [OF knows_True])

lemma topology_ok: "okay t (binding_topology_changed t scope revision)"
proof -
  note st = steady_locked [OF knows_True, of t None]
  have "okay t (with_rs_lock t (prog_bind (look w_revision) (\<lambda>now_revision.
      if now_revision \<noteq> revision then Ret ()
      else prog_bind (atomically (topology_section g inst i rebind s)) (\<lambda>written.
        if written \<and> rebind
        then prog_bind (modify (on_relay i (mark_resolution_failed ''Bind topology changed; resolving the saved interface identity''))) (\<lambda>_.
             modify (send_event (RetryRequested g)))
        else Ret ()))))" for g inst i rebind s
    by (rule locked_okay) (intro during_intros during_ops [OF st] quiet_topology quiet_on_relay quiet_send; simp)
  then show ?thesis unfolding binding_topology_changed_def Let_def
    by (auto intro!: during_intros during_ops steady_True resolve_binding_during split: option.split)
qed

lemma startup_status_ok: "okay t (startup_firewall_status v)"
  unfolding startup_firewall_status_def by (rule during_ops(4) [OF steady_True]) (simp add: quiet_def set_rs_def)

section \<open>Recovery\<close>

definition numbered :: "nat \<Rightarrow> u64 \<Rightarrow> stream_world \<Rightarrow> bool" where
  "numbered i g w \<longleftrightarrow> (small w \<longrightarrow> i < length (w_rs_heap w) \<and> g = of_nat (Suc i) \<and> i < length (w_rs_ports w))"

lemma steady_numbered: "steady t (numbered i g)"
proof -
  have "numbered i g w'" if a: "numbered i g w" "world_may u w w'" for u w w'
  proof (cases "small w'")
    case True
    have "length (w_rs_heap w) \<le> length (w_rs_heap w')" using a(2) by (auto simp: world_may_def)
    moreover obtain more where "w_rs_ports w' = w_rs_ports w @ more" using may_grows [OF a(2) True] .
    ultimately show ?thesis using a(1) may_small [OF a(2) True] by (auto simp: numbered_def)
  qed (simp add: numbered_def)
  moreover have "numbered i g w'" if "quiet w w'" "numbered i g w" for w w'
    using quiet_calm [OF that(1)] calm_small [OF quiet_calm [OF that(1)]] that(2) by (simp add: numbered_def calm_def)
  ultimately show ?thesis unfolding steady_def stream.stable_def by blast
qed

lemma works_for_port: "udp_ingest_port sp' = udp_ingest_port sp \<Longrightarrow> works_for i g sp' = works_for i g sp"
  by (simp add: works_for_def fun_eq_iff)

lemma context_numbered:
  "proves t (\<lambda>_. True) (look (current_relay_context g)) (\<lambda>ctx w. \<forall>epoch i. ctx = Some (epoch, i) \<longrightarrow> numbered i g w)"
  unfolding look_def
proof (rule stream.verified_perform)
  fix e :: stream_env and w
  assume a: "world_inv w"
  have "numbered i g w" if c: "current_relay_context g w = Some (epoch, i)" for epoch i
  proof -
    from c have h: "rd_health (w_rs w) = Some i" "rh_server_generation (w_rs_heap w ! i) = g"
      by (auto simp: current_relay_context_def relay_state_is_generation_def split: if_splits option.splits)
    show ?thesis unfolding numbered_def
      using a h by (auto simp: world_inv_def world_ok_def intent_ok_def counters_ok_def)
  qed
  then show "world_inv (snd (current_relay_context g w, w)) \<and> world_may t w (snd (current_relay_context g w, w))
      \<and> (\<forall>epoch i. fst (current_relay_context g w, w) = Some (epoch, i) \<longrightarrow> numbered i g (snd (current_relay_context g w, w)))"
    using a by simp
next
  fix ctx :: "(u64 \<times> nat) option"
  show "stream.stable t (\<lambda>w. \<forall>epoch i. ctx = Some (epoch, i) \<longrightarrow> numbered i g w)"
    using steady_numbered [of t _ g] unfolding steady_def stream.stable_def by blast
qed

lemma spec_works:
  "proves t (numbered i g) (look (\<lambda>w. rd_spec (w_rs w))) (\<lambda>base w. \<forall>sp. base = Some sp \<longrightarrow> works_for i g sp w)"
  unfolding look_def
proof (rule stream.verified_perform)
  fix e :: stream_env and w
  assume a: "world_inv w" "numbered i g w"
  have "works_for i g sp w" if "rd_spec (w_rs w) = Some sp" for sp
    using a that by (auto simp: works_for_def numbered_def world_inv_def world_ok_def intent_ok_def)
  then show "world_inv (snd (rd_spec (w_rs w), w)) \<and> world_may t w (snd (rd_spec (w_rs w), w))
      \<and> (\<forall>sp. fst (rd_spec (w_rs w), w) = Some sp \<longrightarrow> works_for i g sp (snd (rd_spec (w_rs w), w)))"
    using a by simp
next
  fix base :: "start_spec option"
  show "stream.stable t (\<lambda>w. \<forall>sp. base = Some sp \<longrightarrow> works_for i g sp w)"
    using stable_works_for [of t i g] unfolding stream.stable_def by blast
qed

text \<open>Resolving the bind interface again never changes the source.\<close>

lemma recovered_spec_port [simp]: "udp_ingest_port (recovered_spec sp r) = udp_ingest_port sp"
  by (simp add: recovered_spec_def udp_ingest_port_def split: bind_scope.split)

lemma plan_ok:
  "proves t (works_for i g base) (plan_rebuild epoch g i base) (\<lambda>plan w. \<forall>sp. plan = Rebuild sp \<longrightarrow> works_for i g sp w)"
proof -
  let ?W = "works_for i g base" and ?Q = "\<lambda>plan w. \<forall>sp. plan = Rebuild sp \<longrightarrow> works_for i g sp w"
  note st = steady_works [of t i g base]
  have ret: "proves t ?W (Ret (Rebuild sp)) ?Q" if "udp_ingest_port sp = udp_ingest_port base" for sp
    by (rule stream.verified_Ret) (simp add: works_for_port [OF that])
  have other: "during t ?W p \<Longrightarrow> (\<And>x. k x \<noteq> GiveUp \<Longrightarrow> k x = TryAgain) \<Longrightarrow> proves t ?W (prog_bind p (\<lambda>x. Ret (k x))) ?Q"
    for p :: "unit stream_prog" and k
    unfolding during_def by (erule stream.verified_bind) (rule stream.verified_Ret, metis rebuild_plan.distinct(3,5))
  have fail: "proves t ?W (prog_bind (modify (on_relay i (mark_resolution_failed reason))) (\<lambda>_.
      prog_bind (modify (on_relay i force_max_backoff)) (\<lambda>_. Ret TryAgain))) ?Q" for reason
    by (rule stream.verified_bind [OF proves_ops(4) [OF st]], rule quiet_on_relay, simp, rule other)
      (simp_all add: during_ops(4) [OF st] quiet_on_relay)
  have scoped: "proves t ?W (if sp_bind_interface base = None
        then prog_bind (resolve_binding None None {}) (\<lambda>r.
             Ret (base\<lparr>sp_bind_scope := (case r of Inr (_, scope) \<Rightarrow> scope | Inl err \<Rightarrow> UnknownScope (app_error_to_string err))\<rparr>))
        else Ret base) (\<lambda>build w. ?W w \<and> udp_ingest_port build = udp_ingest_port base)"
    by (auto intro!: stream.verified_Ret stream.verified_bind [OF resolve_binding_during [OF st, unfolded during_def]]
        simp: udp_ingest_port_def)
  show ?thesis unfolding plan_rebuild_def
    apply (rule stream.verified_bind [OF scoped])
    subgoal for build
    proof (rule stream.verified_when [where b = "udp_ingest_port build = udp_ingest_port base"])
      assume b: "udp_ingest_port build = udp_ingest_port base"
      show ?thesis unfolding b simp_thms
        by (rule stream.verified_bind [OF proves_ops(2) [OF st]])
          (auto intro!: ret b fail stream.verified_bind [OF proves_ops(1) [OF st]] stream.verified_bind [OF proves_ops(2) [OF st]]
            stream.verified_bind [OF resolve_binding_during [OF st, unfolded during_def]] stream.verified_Ret [where x = GiveUp]
            simp: b split: option.split sum.split)
    qed blast
    done
qed

lemma rebuild_candidate_ok:
  "proves t (holds t (\<lambda>w. works_for i g sp w \<and> slot_not (server_of g) w)) (rebuild_candidate epoch g i sp) (\<lambda>_. holds t (works_for i g sp))"
  unfolding rebuild_candidate_def
  apply (rule stream.verified_bind [OF build_server_ok])
  subgoal for x
  proof -
    obtain inst r where x: "x = (inst, r)" by (cases x)
    let ?W = "works_for i g sp"
    have W: "knows t ?W" by (rule knows_works_for)
    note st = steady_locked [OF W, of None]
    show ?thesis
    proof (cases r)
      case (Inl f)
      obtain kind err where f: "f = (kind, err)" by (cases f)
      have "during t (holds t ?W) (prog_bind (retire_firewall g) (\<lambda>_. prog_bind (modify (on_relay i (mark_build_failed inst
          (redact_relay_text (app_error_to_string err) (mount_path sp)) (kind = BuildBind)))) (\<lambda>_. Ret True)))"
        by (intro during_bind retire_during [OF W] during_ops(4) [OF st] quiet_on_relay during_Ret) simp
      then show ?thesis by (simp add: x Inl f during_def)
    next
      case (Inr sv)
      have late: "during t (holds t ?W) (prog_bind (retire_firewall g) (\<lambda>_. prog_bind (look (\<lambda>w. w_rs_epoch w = epoch)) (\<lambda>current.
          if current then prog_bind (modify (on_relay i (mark_resolution_failed ''Bind topology changed during listener construction''))) (\<lambda>_. Ret True)
          else Ret False)))"
        by (intro during_bind during_if retire_during [OF W] during_ops(2,4) [OF st] quiet_on_relay during_Ret) simp
      have "proves t (\<lambda>w. rs_held_is t (if b then None else Some sv) w \<and> ?W w)
          (if b then Ret False else prog_bind (modify (shutdown_server sv)) (\<lambda>_.
           prog_bind (retire_firewall g) (\<lambda>_. prog_bind (look (\<lambda>w. w_rs_epoch w = epoch)) (\<lambda>current.
           if current then prog_bind (modify (on_relay i (mark_resolution_failed ''Bind topology changed during listener construction''))) (\<lambda>_. Ret True)
           else Ret False)))) (\<lambda>_. holds t ?W)" for b
        using stream.verified_bind [OF shutdown_ok [OF W] late [unfolded during_def]]
        by (cases b) (auto intro: stream.verified_Ret)
      from stream.verified_bind [OF install_ok this] show ?thesis by (simp add: x Inr)
    qed
  qed
  done

lemma rebuild_listener_ok:
  "proves t (holds t (works_for i g sp)) (rebuild_listener epoch g i sp) (\<lambda>_. holds t (works_for i g sp))"
proof -
  let ?W = "works_for i g sp" and ?S = "\<lambda>w. works_for i g sp w \<and> slot_not (server_of g) w"
  have W: "knows t ?W" and S: "knows t ?S" by (intro knows_intros)+
  note look_W = proves_ops(2) [OF steady_locked [OF W]] and st = steady_locked [OF S, of None]
  have stop: "proves t (holds t ?S) (Ret x) (\<lambda>_. holds t ?W)" "proves t (holds t ?W) (Ret x) (\<lambda>_. holds t ?W)" for x :: bool
    by (rule stream.verified_Ret, blast)+
  have marked: "proves t (holds t ?S) (prog_bind (modify (on_relay i mark)) (\<lambda>_. Ret True)) (\<lambda>_. holds t ?W)"
    if "\<And>h. rh_server_generation (mark h) = rh_server_generation h" for mark
    by (rule stream.verified_bind [OF proves_ops(4) [OF st] stop(1)]) (rule quiet_on_relay [OF that])
  have retired: "proves t (holds t ?S) (prog_bind (retire_firewall g) (\<lambda>_. Ret True)) (\<lambda>_. holds t ?W)"
    by (rule stream.verified_bind [OF retire_ok [OF S] stop(1)])
  show ?thesis unfolding rebuild_listener_def
    by (rule stream.verified_bind [OF look_W], rule stream.verified_if, rule stop,
        rule stream.verified_bind [OF take_ok [OF W slotless_intros(2)]], rule stream.verified_bind [OF shutdown_taken [OF S]],
        rule stream.verified_bind [OF proves_ops(2) [OF st]], rule stream.verified_if, rule stop,
        rule stream.verified_bind [OF proves_ops(1) [OF st]])
      (auto intro!: stop marked retired rebuild_candidate_ok stream.verified_bind [OF begin_instance_during [OF st, unfolded during_def]]
        stream.verified_bind [OF proves_ops(1) [OF st]] stream.verified_bind [OF proves_ops(2) [OF st]]
        stream.verified_bind [OF apply_firewall_ok [OF S]] split: sum.split)
qed

lemma retire_failed_okay: "okay t (with_rs_lock t (retire_failed epoch g))"
proof (rule locked_okay)
  let ?H = "holds t (\<lambda>_. True)"
  note K = knows_True [of t]
  have take: "proves t ?H (atomically (take_server (server_of g))) (\<lambda>r w. rs_held_is t r w \<and> True)"
    by (rule stream.verified_post [OF take_ok [OF K slotless_intros(1)]]) blast
  have retire: "proves t ?H (prog_bind (retire_firewall g) (\<lambda>_. Ret True)) (\<lambda>_. ?H)"
    by (rule stream.verified_bind [OF retire_ok [OF K]]) (rule stream.verified_Ret)
  show "during t ?H (retire_failed epoch g)" unfolding retire_failed_def
    by (rule during_bind [OF during_ops(2) [OF steady_locked [OF K]]], rule during_if, rule during_Ret)
      (unfold during_def, rule stream.verified_bind [OF take], rule stream.verified_bind [OF shutdown_taken [OF K] retire])
qed

lemma recovery_loop_okay: "okay t (recovery_loop n t epoch g)"
proof (induction n)
  case 0
  show ?case by (simp add: during_Ret)
next
  case (Suc n)
  let ?next = "recovery_loop n t epoch g"
  have again: "proves t P ?next (\<lambda>_ _. True)" for P by (rule ends_okay [OF Suc.IH])
  have ret: "proves t P (Ret ()) (\<lambda>_ _. True)" for P by (rule stream.verified_Ret) simp
  have build: "proves t (works_for i g sp) (prog_bind (with_rs_lock t (rebuild_listener epoch g i sp)) (\<lambda>again. if again then ?next else Ret ())) (\<lambda>_ _. True)" for i sp
    by (rule stream.verified_bind [OF with_rs_lock_True [OF knows_works_for rebuild_listener_ok]]) (rule stream.verified_if, rule again, rule ret)
  have planned: "proves t (\<lambda>w. \<forall>sp. plan = Rebuild sp \<longrightarrow> works_for i g sp w) (case plan of GiveUp \<Rightarrow> Ret () | TryAgain \<Rightarrow> ?next
      | Rebuild sp \<Rightarrow> prog_bind (with_rs_lock t (rebuild_listener epoch g i sp)) (\<lambda>again. if again then ?next else Ret ())) (\<lambda>_ _. True)" for plan i
  proof (cases plan)
    case (Rebuild sp)
    show ?thesis unfolding Rebuild rebuild_plan.case by (rule stream.verified_pre [OF build]) simp
  qed (simp_all add: ret again)
  have based: "proves t (\<lambda>w. \<forall>sp. base = Some sp \<longrightarrow> works_for i g sp w) (case base of None \<Rightarrow> Ret () | Some sp \<Rightarrow>
      prog_bind (plan_rebuild epoch g i sp) (\<lambda>plan. case plan of GiveUp \<Rightarrow> Ret () | TryAgain \<Rightarrow> ?next
      | Rebuild sp \<Rightarrow> prog_bind (with_rs_lock t (rebuild_listener epoch g i sp)) (\<lambda>again. if again then ?next else Ret ()))) (\<lambda>_ _. True)" for base i
  proof (cases base)
    case (Some sp)
    show ?thesis unfolding Some option.case by (rule stream.verified_pre [OF stream.verified_bind [OF plan_ok planned]]) simp
  qed (simp add: ret)
  show ?case unfolding recovery_loop.simps
    apply (rule okay_bind [OF context_numbered, where Q = "\<lambda>_ _. True"])
    subgoal for ctx
    proof (cases ctx)
      case None
      then show ?thesis by (simp add: ret)
    next
      case (Some x)
      obtain current i where x: "x = (current, i)" by (cases x)
      note st = steady_numbered [of t i g]
      show ?thesis unfolding Some x option.case prod.case
        by (rule stream.verified_pre [where P = "numbered i g"], rule stream.verified_if, rule ret,
            rule stream.verified_bind [OF proves_ops(4) [OF st]], rule quiet_on_relay, simp,
            rule stream.verified_bind [OF proves_ops(2) [OF st]], rule stream.verified_bind [OF proves_ops(2) [OF st]],
            rule stream.verified_if, rule ret, rule stream.verified_bind [OF proves_ops(4) [OF st]], rule quiet_on_relay, simp,
            rule stream.verified_bind [OF spec_works based]) simp
    qed
    done
qed

lemma recover_okay: "okay t (recover_relay_generation n t epoch g)"
  unfolding recover_relay_generation_def
  by (intro during_bind during_if during_Ret retire_failed_okay during_ops(2) [OF steady_True] recovery_loop_okay)

lemma next_event_okay: "okay t next_event"
proof -
  have e: "okay t (perform (evaluate_section i))" for i
    by (rule during_perform [OF steady_True]) (simp add: evaluate_section_def Let_def quiet_on_relay_at)
  have r: "okay t (atomically receive_event)"
    by (rule during_ops(3) [OF steady_True]) (simp add: receive_event_def quiet_def split: list.split)
  show ?thesis unfolding next_event_def poll_relay_fault_def
    by (auto intro!: during_bind during_if during_Ret during_ops(1,2) [OF steady_True] e r split: option.split)
qed

lemma supervisor_ok: "okay t (relay_supervisor_turn n t)"
proof -
  have a: "okay t (atomically (accept_section fault i))" for fault i
    by (rule during_ops(3) [OF steady_True]) (simp add: accept_section_def Let_def quiet_on_relay_at)
  show ?thesis unfolding relay_supervisor_turn_def
    by (auto intro!: during_bind next_event_okay during_if during_Ret during_ops(2) [OF steady_True] a recover_okay
        split: option.split relay_supervisor_event.split)
qed

end
