(* ===== verification/Playback_Tasks.thy ===== *)
theory Playback_Tasks
  imports Relay_Tasks
begin

text \<open>
  Every task of the preview service keeps the rules of the shared world: starts, retries, stops,
  recordings, mute and turns of the supervisor.
\<close>

section \<open>Sections of the intent\<close>

lemma steady_pb: "steady t (pb_held_is t h)"
  unfolding steady_def using stable_pb_held quiet_pb_held by blast

text \<open>Changes of the preview that touch neither the pipelines nor the locks.\<close>

lemma preview_ok_section:
  assumes "world_inv w" "w' = (set_pb (\<lambda>_. d) v)\<lparr>w_pb_epoch := epoch\<rparr>" "v = w\<lparr>w_pb_heap := heap\<rparr>" "length (w_pb_heap w) \<le> length heap"
    and "pd_playback d = pd_playback (w_pb w)" "pd_instance d = pd_instance (w_pb w)" "pd_recording d = pd_recording (w_pb w)"
    and "small w \<Longrightarrow> world_ok w \<Longrightarrow> preview_ok (pd_settings d \<noteq> None) (pd_health d) (pd_intent_epoch d \<noteq> None) (length heap)"
    and "small w \<Longrightarrow> world_ok w \<Longrightarrow> udp_ok (pd_source d) (rd_desired (w_rs w)) (rd_spec (w_rs w)) (rd_server (w_rs w))"
  shows "world_inv w' \<and> world_may t w w'"
proof (rule section_ok [OF assms(1)])
  assume a: "small w" "world_ok w"
  show "world_ok w'" using a(2) assms(5-7) assms(8,9) [OF a] by (simp add: assms(2,3) world_ok_def set_pb_def)
  show "world_steps t w w'" using assms(4-7) by (simp add: assms(2,3) world_steps_def lock_moves_def set_pb_def)
qed (simp_all add: assms(2,3) set_pb_def)

lemma stop_health_heap: "stop_health h w = w\<lparr>w_pb_heap := w_pb_heap (stop_health h w)\<rparr>" "length (w_pb_heap (stop_health h w)) = length (w_pb_heap w)"
  by (simp_all add: stop_health_def on_preview_def split: option.split)

lemma publish_intent_ok:
  assumes "world_inv w"
  shows "world_inv (snd (publish_playback_intent s window start e w)) \<and> world_may t w (snd (publish_playback_intent s window start e w))"
proof -
  let ?w = "snd (publish_playback_intent s window start e w)"
  let ?heap = "w_pb_heap (stop_health (pd_health (w_pb w)) w) @ [playback_health_new (en_now e)]"
  let ?claim = "if sc_protocol (stream_cfg s) = InputUdp then guard_playback (w_state w) (sc_udp_port (stream_cfg s)) else Inr ()"
  let ?same = "case pd_settings (w_pb w) of Some old \<Rightarrow> same_playback_source old s | None \<Rightarrow> False"
  define d where "d = (w_pb w)\<lparr>pd_settings := Some s, pd_health := Some (length (w_pb_heap w)), pd_intent_epoch := Some (start + 1),
       pd_target := stream_target (stream_cfg s), pd_window := (case window of Some h \<Rightarrow> Some h | None \<Rightarrow> en_hwnd e),
       pd_adapter := None, pd_ready := None, pd_source := Some (source_mode_of s)\<rparr>"
  show ?thesis
  proof (cases "?claim = Inr () \<and> \<not> ?same \<and> w_pb_epoch w = start")
    case False
    then have "?w = w" unfolding publish_playback_intent_def Let_def by (cases ?claim) auto
    with assms show ?thesis by simp
  next
    case True
    then have free: "sc_protocol (stream_cfg s) = InputUdp \<Longrightarrow> \<not> relay_claims (w_rs w) (sc_udp_port (stream_cfg s))"
      by (auto simp: guard_playback_def split: if_splits)
    have "publish_playback_intent s window start e w = (let
         (i, w') = new_health (en_now e) (stop_health (pd_health (w_pb w)) (w\<lparr>w_pb_epoch := start + 1\<rparr>))
       in (Inr (), set_pb (\<lambda>d. d\<lparr>pd_settings := Some s, pd_health := Some i, pd_intent_epoch := Some (start + 1),
             pd_target := stream_target (stream_cfg s), pd_window := (case window of Some h \<Rightarrow> Some h | None \<Rightarrow> en_hwnd e),
             pd_adapter := None, pd_ready := None, pd_source := Some (source_mode_of s)\<rparr>) w'))"
      unfolding publish_playback_intent_def Let_def using True by (simp only: sum.case if_False simp_thms)
    then have eq: "?w = (set_pb (\<lambda>_. d) (w\<lparr>w_pb_heap := ?heap\<rparr>))\<lparr>w_pb_epoch := start + 1\<rparr>"
      by (cases "pd_health (w_pb w)") (simp_all add: d_def set_pb_def new_health_def stop_health_def on_preview_def)
    show ?thesis
    proof (rule preview_ok_section [OF assms eq refl])
      assume "world_ok w"
      then show "udp_ok (pd_source d) (rd_desired (w_rs w)) (rd_spec (w_rs w)) (rd_server (w_rs w))"
        using free by (auto simp: d_def udp_ok_def source_mode_of_def relay_claims_def split: stream_protocol.splits)
    qed (simp_all add: d_def preview_ok_def stop_health_heap(2))
  qed
qed

lemma quiet_step: "quiet v w' \<Longrightarrow> world_inv v \<and> world_may t w v \<Longrightarrow> world_inv w' \<and> world_may t w w'"
proof -
  assume q: "quiet v w'" and v: "world_inv v \<and> world_may t w v"
  have s: "small w' = small v" by (rule calm_small [OF quiet_calm [OF q]])
  have "length (w_rs_heap w') = length (w_rs_heap v)" using quiet_calm [OF q] by (simp add: calm_def)
  moreover have "world_steps t w w' = world_steps t w v" "w_rs_owners w' = w_rs_owners v"
    using q unfolding world_steps_def quiet_def by (simp_all only:)
  ultimately have "world_may t w w'" using v by (simp add: world_may_def s)
  with v quiet_inv [OF q] show ?thesis by blast
qed

lemma retry_settings_ok:
  assumes "world_inv w"
  shows "world_inv (apply_retry_settings manual s requested e w) \<and> world_may t w (apply_retry_settings manual s requested e w)"
proof -
  let ?w = "apply_retry_settings manual s requested e w"
  let ?heap = "w_pb_heap (stop_health (pd_health (w_pb w)) w) @ [playback_health_new (en_now e)]"
  show ?thesis
  proof (cases "\<exists>current old. manual \<and> s = Some current \<and> pd_settings (w_pb w) = Some old \<and> \<not> same_playback_source old (retry_settings current old)")
    case True
    then obtain current old where c: "manual" "s = Some current" "pd_settings (w_pb w) = Some old"
      "\<not> same_playback_source old (retry_settings current old)" by blast
    define d where "d = (w_pb w)\<lparr>pd_health := Some (length (w_pb_heap w)), pd_settings := Some (retry_settings current old),
        pd_intent_epoch := Some (requested + 1)\<rparr>"
    have eq: "?w = (set_pb (\<lambda>_. d) (w\<lparr>w_pb_heap := ?heap\<rparr>))\<lparr>w_pb_epoch := requested + 1\<rparr>"
      using c by (cases "pd_health (w_pb w)")
        (simp_all add: apply_retry_settings_def Let_def d_def set_pb_def new_health_def stop_health_def on_preview_def)
    show ?thesis
    proof (rule preview_ok_section [OF assms eq refl])
      assume "world_ok w"
      then show "udp_ok (pd_source d) (rd_desired (w_rs w)) (rd_spec (w_rs w)) (rd_server (w_rs w))" by (simp add: d_def world_ok_def)
    qed (simp_all add: d_def preview_ok_def stop_health_heap(2))
  next
    case False
    then have "?w = w" by (auto simp: apply_retry_settings_def Let_def split: bool.split option.split)
    with assms show ?thesis by simp
  qed
qed

lemma retry_section_ok:
  assumes "world_inv w"
  shows "world_inv (snd (retry_section manual s requested e w)) \<and> world_may t w (snd (retry_section manual s requested e w))"
proof (cases "w_pb_epoch w = requested")
  case True
  let ?v = "apply_retry_settings manual s requested e w"
  have "quiet ?v (snd (retry_section manual s requested e w))" by (simp add: retry_section_def True Let_def split: option.split)
  from quiet_step [OF this retry_settings_ok [OF assms]] show ?thesis .
next
  case False
  with assms show ?thesis by (simp add: retry_section_def)
qed

lemma clear_intent_ok:
  assumes "world_inv w"
  shows "world_inv (clear_intent epoch w) \<and> world_may t w (clear_intent epoch w)"
proof (cases "case pd_intent_epoch (w_pb w) of None \<Rightarrow> True | Some intent \<Rightarrow> intent < epoch")
  case True
  define d where "d = (w_pb w)\<lparr>pd_health := None, pd_settings := None, pd_intent_epoch := None, pd_target := None,
      pd_adapter := None, pd_ready := None\<rparr>"
  have "clear_intent epoch w = set_pb (\<lambda>d. d\<lparr>pd_health := None, pd_settings := None, pd_intent_epoch := None, pd_target := None,
      pd_adapter := None, pd_ready := None\<rparr>) (stop_health (pd_health (w_pb w)) w)"
    unfolding clear_intent_def using True by (rule if_P)
  then have eq: "clear_intent epoch w = (set_pb (\<lambda>_. d) (w\<lparr>w_pb_heap := w_pb_heap (stop_health (pd_health (w_pb w)) w)\<rparr>))\<lparr>w_pb_epoch := w_pb_epoch w\<rparr>"
    by (cases "pd_health (w_pb w)") (simp_all add: d_def set_pb_def stop_health_def on_preview_def)
  show ?thesis
  proof (rule preview_ok_section [OF assms eq refl])
    assume "world_ok w"
    then show "udp_ok (pd_source d) (rd_desired (w_rs w)) (rd_spec (w_rs w)) (rd_server (w_rs w))" by (simp add: d_def world_ok_def)
  qed (simp_all add: d_def preview_ok_def stop_health_heap(2))
next
  case False
  then have "clear_intent epoch w = w" unfolding clear_intent_def by (rule if_not_P)
  with assms show ?thesis by simp
qed

lemma clear_source_ok:
  assumes "world_inv w"
  shows "world_inv (set_pb (\<lambda>d. d\<lparr>pd_source := None\<rparr>) w) \<and> world_may t w (set_pb (\<lambda>d. d\<lparr>pd_source := None\<rparr>) w)"
proof (rule preview_ok_section [OF assms _ refl])
  show "set_pb (\<lambda>d. d\<lparr>pd_source := None\<rparr>) w = (set_pb (\<lambda>_. (w_pb w)\<lparr>pd_source := None\<rparr>) (w\<lparr>w_pb_heap := w_pb_heap w\<rparr>))\<lparr>w_pb_epoch := w_pb_epoch w\<rparr>"
    by (simp add: set_pb_def)
qed (simp_all add: world_ok_def udp_ok_def)

section \<open>Locks and pipelines\<close>

text \<open>Changes of the pipelines by the task that holds the lifecycle lock of the preview.\<close>

lemma pipelines_section:
  assumes "world_inv w" "pb_held_is t h w"
    and "w' = (set_pb (\<lambda>_. d) w)\<lparr>w_pipes := pipes, w_running := running, w_pb_held := h', w_pb_lock := lock\<rparr>"
    and "length (w_pipes w) \<le> length pipes" "small w \<Longrightarrow> lock \<in> {Some t, None}"
    and "pd_settings d = pd_settings (w_pb w)" "pd_health d = pd_health (w_pb w)" "pd_intent_epoch d = pd_intent_epoch (w_pb w)"
      "pd_source d = pd_source (w_pb w)"
    and "small w \<Longrightarrow> pipelines_ok (pd_playback (w_pb w)) (pd_instance (w_pb w)) (pd_recording (w_pb w)) (w_running w) h (Some t) (length (w_pipes w)) \<Longrightarrow>
      pipelines_ok (pd_playback d) (pd_instance d) (pd_recording d) running h' lock (length pipes)"
  shows "world_inv w' \<and> world_may t w w'"
proof (rule section_ok [OF assms(1)])
  assume a: "small w" "world_ok w"
  have h: "w_pb_lock w = Some t" "w_pb_held w = h" using assms(2) a(1) by (simp_all add: pb_held_is_def)
  show "world_ok w'" using a(2) assms(6-9) assms(10) [OF a(1)] h by (simp add: assms(3) world_ok_def set_pb_def)
  show "world_steps t w w'" using assms(4) assms(5) [OF a(1)] h by (auto simp: assms(3) world_steps_def lock_moves_def set_pb_def)
qed (simp_all add: assms(3) set_pb_def)

lemma pipelines_held:
  assumes "world_inv w" "pb_held_is t h w"
    and "w' = (set_pb (\<lambda>_. d) w)\<lparr>w_pipes := pipes, w_running := running, w_pb_held := h', w_pb_lock := w_pb_lock w\<rparr>"
    and "length (w_pipes w) \<le> length pipes"
    and "pd_settings d = pd_settings (w_pb w)" "pd_health d = pd_health (w_pb w)" "pd_intent_epoch d = pd_intent_epoch (w_pb w)"
      "pd_source d = pd_source (w_pb w)"
    and "small w \<Longrightarrow> pipelines_ok (pd_playback (w_pb w)) (pd_instance (w_pb w)) (pd_recording (w_pb w)) (w_running w) h (Some t) (length (w_pipes w)) \<Longrightarrow>
      pipelines_ok (pd_playback d) (pd_instance d) (pd_recording d) running h' (Some t) (length pipes)"
  shows "world_inv w' \<and> world_may t w w' \<and> pb_held_is t h' w'"
proof -
  have lock: "w_pb_lock w = Some t" if "small w" using assms(2) that by (simp add: pb_held_is_def)
  have "small w' = small w" by (simp add: assms(3) small_def set_pb_def)
  then have "pb_held_is t h' w'" using lock by (simp add: pb_held_is_def) (simp add: assms(3))
  moreover have "world_inv w' \<and> world_may t w w'"
    by (rule pipelines_section [OF assms(1-4) _ assms(5-8)]) (use lock assms(9) in auto)
  ultimately show ?thesis by blast
qed

lemma lock_pb_ok: "proves t (\<lambda>_. True) (lock_pb t) (\<lambda>_. pb_held_is t None)"
  unfolding lock_pb_def
proof (rule stream.verified_await [OF _ stable_pb_held])
  fix w
  assume a: "world_inv w" "w_pb_lock w = None"
  let ?w = "w\<lparr>w_pb_lock := Some t\<rparr>"
  have held: "w_pb_held w = None" if "small w" using that a by (auto simp: world_inv_def world_ok_def pipelines_ok_def)
  have "world_inv ?w \<and> world_may t w ?w"
  proof (rule section_ok [OF a(1)])
    assume s: "small w" "world_ok w"
    show "world_ok ?w" using s(2) held [OF s(1)] by (auto simp: world_ok_def pipelines_ok_def)
    show "world_steps t w ?w" using a(2) by (simp add: world_steps_def lock_moves_def)
  qed simp_all
  moreover have "pb_held_is t None ?w" using held by (simp add: pb_held_is_def small_def)
  ultimately show "world_inv ?w \<and> world_may t w ?w \<and> pb_held_is t None ?w" by blast
qed

lemma unlock_pb_ok: "proves t (pb_held_is t None) unlock_pb (\<lambda>_ _. True)"
  unfolding unlock_pb_def
proof (rule stream.verified_modify)
  fix w
  assume a: "world_inv w" "pb_held_is t None w"
  have eq: "w\<lparr>w_pb_lock := None\<rparr> = (set_pb (\<lambda>_. w_pb w) w)\<lparr>w_pipes := w_pipes w, w_running := w_running w, w_pb_held := w_pb_held w, w_pb_lock := None\<rparr>"
    by (simp add: set_pb_def)
  have "world_inv (w\<lparr>w_pb_lock := None\<rparr>) \<and> world_may t w (w\<lparr>w_pb_lock := None\<rparr>)"
    by (rule pipelines_section [OF a eq]) (use a(2) in \<open>auto simp: pipelines_ok_def pb_held_is_def\<close>)
  then show "world_inv (w\<lparr>w_pb_lock := None\<rparr>) \<and> world_may t w (w\<lparr>w_pb_lock := None\<rparr>) \<and> True" by blast
qed simp

lemma with_pb_lock_ok: "during t (pb_held_is t None) body \<Longrightarrow> okay t (with_pb_lock t body)"
proof -
  assume "during t (pb_held_is t None) body"
  then have b: "proves t (pb_held_is t None) body (\<lambda>_. pb_held_is t None)" by (simp add: during_def)
  have u: "proves t (pb_held_is t None) (prog_bind unlock_pb (\<lambda>_. Ret x)) (\<lambda>_ _. True)" for x
    by (rule stream.verified_bind [OF unlock_pb_ok]) (rule stream.verified_Ret)
  show ?thesis unfolding with_pb_lock_def
    by (rule okay_bind [OF lock_pb_ok], rule stream.verified_bind [OF b u])
qed

lemma take_pipeline_ok: "proves t (pb_held_is t None) (atomically take_pipeline) (\<lambda>(p, _, _). pb_held_is t p)"
  unfolding atomically_def
proof (rule stream.verified_perform)
  fix e :: stream_env and w
  assume a: "world_inv w" "pb_held_is t None w"
  let ?d = "(w_pb w)\<lparr>pd_recording := False, pd_recording_path := None, pd_instance := None, pd_start_time := None, pd_playback := None\<rparr>"
  have eq: "snd (take_pipeline w) = (set_pb (\<lambda>_. ?d) w)\<lparr>w_pipes := w_pipes w, w_running := w_running w, w_pb_held := pd_playback (w_pb w), w_pb_lock := w_pb_lock w\<rparr>"
    by (simp add: take_pipeline_def Let_def set_pb_def)
  have "world_inv (snd (take_pipeline w)) \<and> world_may t w (snd (take_pipeline w)) \<and> pb_held_is t (pd_playback (w_pb w)) (snd (take_pipeline w))"
    by (rule pipelines_held [OF a eq]) (auto simp: pipelines_ok_def)
  then show "world_inv (snd (take_pipeline w)) \<and> world_may t w (snd (take_pipeline w))
      \<and> (case fst (take_pipeline w) of (p, _, _) \<Rightarrow> pb_held_is t p) (snd (take_pipeline w))"
    by (simp add: take_pipeline_def Let_def)
qed (simp add: stable_pb_held split: prod.split)

lemma stop_pipeline_ok: "proves t (pb_held_is t (Some p)) (modify (stop_pipeline p)) (\<lambda>_. pb_held_is t None)"
proof (rule stream.verified_modify [OF _ stable_pb_held])
  fix w
  assume a: "world_inv w" "pb_held_is t (Some p) w"
  have eq: "stop_pipeline p w = (set_pb (\<lambda>_. w_pb w) w)\<lparr>w_pipes := w_pipes w, w_running := removeAll p (w_running w), w_pb_held := None, w_pb_lock := w_pb_lock w\<rparr>"
    by (simp add: stop_pipeline_def set_pb_def)
  show "world_inv (stop_pipeline p w) \<and> world_may t w (stop_pipeline p w) \<and> pb_held_is t None (stop_pipeline p w)"
    by (rule pipelines_held [OF a eq]) (auto simp: pipelines_ok_def)
qed

lemma recording_ok:
  "proves t (pb_held_is t None) (atomically (reserve_recording path)) (\<lambda>_. pb_held_is t None)"
  "proves t (pb_held_is t None) (modify forget_recording) (\<lambda>_. pb_held_is t None)"
proof -
  show "proves t (pb_held_is t None) (modify forget_recording) (\<lambda>_. pb_held_is t None)"
  proof (rule stream.verified_modify [OF _ stable_pb_held])
    fix w
    assume a: "world_inv w" "pb_held_is t None w"
    have eq: "forget_recording w = (set_pb (\<lambda>_. (w_pb w)\<lparr>pd_recording := False, pd_recording_path := None\<rparr>) w)
        \<lparr>w_pipes := w_pipes w, w_running := w_running w, w_pb_held := w_pb_held w, w_pb_lock := w_pb_lock w\<rparr>"
      by (simp add: forget_recording_def set_pb_def)
    have "world_inv (forget_recording w) \<and> world_may t w (forget_recording w) \<and> pb_held_is t (w_pb_held w) (forget_recording w)"
      by (rule pipelines_held [OF a eq]) (use a(2) in \<open>auto simp: pipelines_ok_def pb_held_is_def\<close>)
    then show "world_inv (forget_recording w) \<and> world_may t w (forget_recording w) \<and> pb_held_is t None (forget_recording w)"
      using a(2) by (auto simp: pb_held_is_def forget_recording_def set_pb_def small_def)
  qed
  show "proves t (pb_held_is t None) (atomically (reserve_recording path)) (\<lambda>_. pb_held_is t None)"
  proof (rule stream.verified_atomically [OF _ stable_pb_held])
    fix w
    assume a: "world_inv w" "pb_held_is t None w"
    let ?w = "snd (reserve_recording path w)"
    have eq: "?w = (set_pb (\<lambda>_. w_pb ?w) w)\<lparr>w_pipes := w_pipes w, w_running := w_running w, w_pb_held := w_pb_held w, w_pb_lock := w_pb_lock w\<rparr>"
      by (simp add: reserve_recording_def Let_def set_pb_def split: option.split)
    have d: "pd_settings (w_pb ?w) = pd_settings (w_pb w)" "pd_health (w_pb ?w) = pd_health (w_pb w)"
      "pd_intent_epoch (w_pb ?w) = pd_intent_epoch (w_pb w)" "pd_source (w_pb ?w) = pd_source (w_pb w)"
      "pd_playback (w_pb ?w) = pd_playback (w_pb w)" "pd_instance (w_pb ?w) = pd_instance (w_pb w)"
      "pd_recording (w_pb ?w) \<longrightarrow> pd_recording (w_pb w) \<or> pd_playback (w_pb w) \<noteq> None"
      by (simp_all add: reserve_recording_def Let_def set_pb_def split: option.split)
    have "world_inv ?w \<and> world_may t w ?w \<and> pb_held_is t (w_pb_held w) ?w"
      by (rule pipelines_held [OF a eq _ d(1-4)]) (use a(2) d in \<open>auto simp: pipelines_ok_def pb_held_is_def\<close>)
    moreover have "small ?w = small w" by (simp add: reserve_recording_def Let_def set_pb_def small_def split: option.split)
    ultimately show "world_inv ?w \<and> world_may t w ?w \<and> pb_held_is t None ?w"
      using a(2) by (auto simp: pb_held_is_def)
  qed
qed

lemma build_pipeline_ok:
  "proves t (pb_held_is t None) (perform (build_pipeline s path i g)) (\<lambda>r. pb_held_is t (case r of Inl _ \<Rightarrow> None | Inr p \<Rightarrow> Some p))"
proof (rule stream.verified_perform [OF _ stable_pb_held])
  fix e w
  assume a: "world_inv w" "pb_held_is t None w"
  let ?w = "snd (build_pipeline s path i g e w)" and ?r = "fst (build_pipeline s path i g e w)"
  have cases: "(\<exists>err. build_pipeline s path i g e w = (Inl err, w)) \<or>
      (\<exists>p. build_pipeline s path i g e w = (Inr (length (w_pipes w)),
        w\<lparr>w_pipes := w_pipes w @ [p], w_running := length (w_pipes w) # w_running w, w_pb_held := Some (length (w_pipes w))\<rparr>))"
    by (auto simp: build_pipeline_def Let_def split: sum.split)
  show "world_inv ?w \<and> world_may t w ?w \<and> pb_held_is t (case ?r of Inl _ \<Rightarrow> None | Inr p \<Rightarrow> Some p) ?w"
  proof (cases "\<exists>err. build_pipeline s path i g e w = (Inl err, w)")
    case True
    with a show ?thesis by auto
  next
    case False
    with cases obtain p where p: "build_pipeline s path i g e w = (Inr (length (w_pipes w)),
        w\<lparr>w_pipes := w_pipes w @ [p], w_running := length (w_pipes w) # w_running w, w_pb_held := Some (length (w_pipes w))\<rparr>)"
      by blast
    have eq: "?w = (set_pb (\<lambda>_. w_pb w) w)\<lparr>w_pipes := w_pipes w @ [p], w_running := length (w_pipes w) # w_running w,
        w_pb_held := Some (length (w_pipes w)), w_pb_lock := w_pb_lock w\<rparr>"
      by (simp add: p set_pb_def)
    have "world_inv ?w \<and> world_may t w ?w \<and> pb_held_is t (Some (length (w_pipes w))) ?w"
      by (rule pipelines_held [OF a eq]) (auto simp: pipelines_ok_def less_Suc_eq)
    then show ?thesis by (simp add: p)
  qed
qed

lemma install_pipeline_ok:
  "proves t (pb_held_is t (Some p)) (perform (install_pipeline epoch g path p)) (\<lambda>b. pb_held_is t (if b then None else Some p))"
proof (rule stream.verified_perform [OF _ stable_pb_held])
  fix e w
  assume a: "world_inv w" "pb_held_is t (Some p) w"
  let ?w = "snd (install_pipeline epoch g path p e w)" and ?r = "fst (install_pipeline epoch g path p e w)"
  show "world_inv ?w \<and> world_may t w ?w \<and> pb_held_is t (if ?r then None else Some p) ?w"
  proof (cases "w_pb_epoch w \<noteq> epoch \<or> pd_intent_epoch (w_pb w) \<noteq> Some epoch \<or> (path \<noteq> None \<and> en_stale e)")
    case True
    then have "install_pipeline epoch g path p e w = (False, w)" unfolding install_pipeline_def by (rule if_P)
    with a show ?thesis by simp
  next
    case False
    let ?running = "case pd_playback (w_pb w) of Some old \<Rightarrow> if old = p then w_running w else removeAll old (w_running w) | None \<Rightarrow> w_running w"
    let ?d = "(w_pb w)\<lparr>pd_target := (case path of Some x \<Rightarrow> Some (rp_target x) | None \<Rightarrow> pd_target (w_pb w)),
         pd_playback := Some p, pd_instance := Some (epoch, g), pd_start_time := Some (en_now e)\<rparr>"
    have i: "install_pipeline epoch g path p e w = (True, (set_pb (\<lambda>d. d\<lparr>pd_target := (case path of Some x \<Rightarrow> Some (rp_target x) | None \<Rightarrow> pd_target d),
         pd_playback := Some p, pd_instance := Some (epoch, g), pd_start_time := Some (en_now e)\<rparr>) w)\<lparr>w_running := ?running, w_pb_held := None\<rparr>)"
      unfolding install_pipeline_def using False by (rule if_not_P)
    have eq: "?w = (set_pb (\<lambda>_. ?d) w)\<lparr>w_pipes := w_pipes w, w_running := ?running, w_pb_held := None, w_pb_lock := w_pb_lock w\<rparr>"
      by (simp add: i set_pb_def)
    have "world_inv ?w \<and> world_may t w ?w \<and> pb_held_is t None ?w"
      by (rule pipelines_held [OF a eq]) (auto simp: pipelines_ok_def split: option.split)
    then show ?thesis by (simp add: i)
  qed
qed

section \<open>Tasks\<close>

lemma quiet_detach: "quiet w (snd (detach_recording p e w))"
  by (simp add: detach_recording_def quiet_def split: sum.split)

lemma quiet_attach: "quiet w (snd (attach_recording p path e w))"
  by (simp add: attach_recording_def quiet_def split: sum.split)

lemma quiet_report: "quiet w (report_recording lost r path w)"
  by (simp add: report_recording_def Let_def quiet_def set_pb_def)

lemma retire_playback_ok: "during t (pb_held_is t None) (retire_playback lost)"
proof -
  have detach: "during t (pb_held_is t h) (if recording
      then (case pipeline of Some p \<Rightarrow> perform (detach_recording p) | None \<Rightarrow> Ret (Inl (Stream ''Recording pipeline unavailable'')))
      else Ret (Inr ()))" for h recording pipeline
    by (auto intro!: during_Ret during_perform [OF steady_pb] quiet_detach split: option.split)
  have stop: "proves t (pb_held_is t h) (case h of Some p \<Rightarrow> modify (stop_pipeline p) | None \<Rightarrow> Ret ()) (\<lambda>_. pb_held_is t None)" for h
    using stop_pipeline_ok by (cases h) (auto intro: stream.verified_Ret)
  have report: "during t (pb_held_is t None) (if recording then modify (report_recording lost r path) else Ret ())" for recording r path
    by (intro during_if during_Ret during_ops(4) [OF steady_pb] quiet_report)
  show ?thesis unfolding retire_playback_def during_def
    apply (rule stream.verified_bind [OF take_pipeline_ok])
    subgoal for x
      by (cases x, simp only: prod.case)
        (rule stream.verified_bind [OF detach [unfolded during_def]], rule stream.verified_bind [OF stop report [unfolded during_def]])
    done
qed

lemma start_playback_ok: "okay t (start_playback settings window)"
proof -
  have "okay t (perform (publish_playback_intent settings window start))" for start
    unfolding during_def by (rule stream.verified_perform) (use publish_intent_ok in auto)
  then show ?thesis unfolding start_playback_def
    by (auto intro!: during_bind during_Ret during_ops(1,2) [OF steady_True] split: sum.split)
qed

lemma retry_playback_ok: "okay t (retry_playback manual settings)"
proof -
  have "okay t (perform (retry_section manual settings requested))" for requested
    unfolding during_def by (rule stream.verified_perform) (use retry_section_ok in auto)
  then show ?thesis unfolding retry_playback_def by (intro during_bind during_ops(2) [OF steady_True])
qed

lemma stop_playback_ok: "okay t (stop_playback t)"
proof -
  have fetch: "okay t (atomically fetch_pb_epoch)"
    by (rule during_ops(3) [OF steady_True]) (simp add: fetch_pb_epoch_def quiet_def)
  have clear: "okay t (modify (clear_intent epoch))" for epoch
    unfolding during_def by (rule stream.verified_modify) (use clear_intent_ok in auto)
  have source: "during t (pb_held_is t None)
      (modify (\<lambda>w. if pd_settings (w_pb w) = None then set_pb (\<lambda>d. d\<lparr>pd_source := None\<rparr>) w else w))"
    unfolding during_def
  proof (rule stream.verified_modify [OF _ stable_pb_held])
    fix w
    let ?w = "if pd_settings (w_pb w) = None then set_pb (\<lambda>d. d\<lparr>pd_source := None\<rparr>) w else w"
    assume "world_inv w" "pb_held_is t None w"
    then show "world_inv ?w \<and> world_may t w ?w \<and> pb_held_is t None ?w"
      using clear_source_ok [of w t] by (auto simp: pb_held_is_def set_pb_def small_def)
  qed
  show ?thesis unfolding stop_playback_def
    by (intro during_bind fetch clear with_pb_lock_ok during_ops(2) [OF steady_pb] during_if retire_playback_ok during_Ret source)
qed

lemma recording_during:
  "during t (pb_held_is t None) (atomically (reserve_recording path))" "during t (pb_held_is t None) (modify forget_recording)"
  using recording_ok by (simp_all add: during_def)

lemma start_recording_ok: "okay t (start_recording t)"
  unfolding start_recording_def
  by (rule with_pb_lock_ok)
    (auto intro!: during_bind during_Ret during_ops(1) [OF steady_pb] recording_during during_perform [OF steady_pb] quiet_attach split: sum.split)

lemma stop_recording_ok: "okay t (stop_recording t)"
  unfolding stop_recording_def
  by (rule with_pb_lock_ok)
    (auto intro!: during_bind during_Ret during_ops(2) [OF steady_pb] recording_during during_perform [OF steady_pb] quiet_detach split: sum.split)

lemma mute_ok: "okay t (set_audio_muted muted)"
proof -
  have muting: "okay t (atomically (mute_section muted))"
    by (rule during_ops(3) [OF steady_True]) (simp add: mute_section_def quiet_def set_pb_def)
  have pipe: "okay t (modify (\<lambda>w. w\<lparr>w_pipes := (w_pipes w)[p := (w_pipes w ! p)\<lparr>pl_muted := muted\<rparr>]\<rparr>))" for p
    by (rule during_ops(4) [OF steady_True]) (simp add: quiet_def)
  show ?thesis unfolding set_audio_muted_def by (auto intro!: during_bind muting pipe during_Ret split: option.split)
qed

section \<open>The supervisor\<close>

lemma quiet_fault_now [simp]: "quiet w (fault_now h f w)"
  by (simp add: fault_now_def)

lemma quiet_adapter: "quiet w (snd (adapter_section epoch h x w))"
  by (auto simp: adapter_section_def quiet_def set_pb_def fault_now_def on_preview_def)

lemma quiet_readiness: "quiet w (snd (readiness_section h next_ready e w))"
  by (simp add: readiness_section_def Let_def quiet_def set_pb_def on_preview_def)

lemma quiet_preview_sections:
  "quiet w (snd (watchdog_section i e w))" "quiet w (snd (begin_section h w))" "quiet w (snd (play_section h g e w))"
  by (simp_all add: watchdog_section_def begin_section_def play_section_def Let_def)

lemma recheck_during: "during t (pb_held_is t h) (recheck_readiness epoch i target pipeline)"
  unfolding recheck_readiness_def
  by (auto intro!: during_bind during_Ret during_ops [OF steady_pb] during_perform [OF steady_pb] quiet_readiness
      split: sum.split prod.split)

lemma health_check_during: "during t (pb_held_is t h) (health_check p)"
  unfolding health_check_def
  by (auto intro!: during_bind during_Ret during_ops [OF steady_pb] during_perform [OF steady_pb] quiet_preview_sections
      split: option.split prod.split)

lemma fault_schedule_during: "during t (pb_held_is t h) (fault_and_schedule i g fault)"
  unfolding fault_and_schedule_def
  by (intro during_bind during_ops(4) [OF steady_pb] during_perform [OF steady_pb] quiet_on_preview) simp

lemma start_pipeline_ok:
  "proves t (pb_held_is t (Some p)) (start_pipeline epoch i g target path p) (\<lambda>_. pb_held_is t None)"
proof -
  let ?P = "pb_held_is t (Some p)"
  note st = steady_pb [of t "Some p"]
  have failed: "proves t ?P (prog_bind (fault_and_schedule i g fault) (\<lambda>_. modify (stop_pipeline p))) (\<lambda>_. pb_held_is t None)" for fault
    by (rule stream.verified_bind [OF fault_schedule_during [unfolded during_def] stop_pipeline_ok])
  have check: "proves t ?P (perform (\<lambda>e w. (f e w, w))) (\<lambda>_. ?P)" for f :: "stream_env \<Rightarrow> stream_world \<Rightarrow> bool"
    using during_perform [OF st, of "\<lambda>e w. (f e w, w)"] by (simp add: during_def)
  have play: "proves t ?P (perform (play_section i g)) (\<lambda>_. ?P)"
    using during_perform [OF st quiet_preview_sections(3)] by (simp add: during_def)
  have note_fault: "proves t ?P (case r of Inl err \<Rightarrow> modify (on_preview i (\<lambda>x. snd (record_playback_fault g
      (playback_fault_new PbConfiguration (app_error_to_string err) False) x))) | Inr _ \<Rightarrow> Ret ()) (\<lambda>_. ?P)" for r :: "unit result"
    using during_ops(4) [OF st quiet_on_preview] by (cases r) (auto simp: during_def intro: stream.verified_Ret)
  have installed: "proves t (pb_held_is t (if b then None else Some p))
      (if b then Ret () else prog_bind (fault_and_schedule i g (device_loss ''Ethernet session changed during playback start'')) (\<lambda>_.
       modify (stop_pipeline p))) (\<lambda>_. pb_held_is t None)" for b
    using failed by (cases b) (auto intro: stream.verified_Ret)
  show ?thesis unfolding start_pipeline_def
    by (rule stream.verified_bind [OF proves_ops(1) [OF st]], rule stream.verified_bind [OF check], rule stream.verified_if, rule failed)
      (auto intro!: failed stream.verified_bind [OF play] stream.verified_bind [OF note_fault]
        stream.verified_bind [OF install_pipeline_ok installed] split: sum.split)
qed

lemma attempt_during: "during t (pb_held_is t None) (attempt_playback epoch i settings target)"
proof -
  note st = steady_pb [of t None]
  have build: "during t (pb_held_is t None) (prog_bind (perform (build_pipeline settings path i g)) (\<lambda>built.
      case built of
        Inl err \<Rightarrow> modify (on_preview i (\<lambda>x. snd (record_playback_fault g
          (playback_fault_new PbConfiguration (redact_url (app_error_to_string err)) False) x)))
      | Inr p \<Rightarrow> start_pipeline epoch i g target path p))" for g path
    unfolding during_def
    apply (rule stream.verified_bind [OF build_pipeline_ok])
    subgoal for built
      using during_ops(4) [OF st quiet_on_preview] start_pipeline_ok by (cases built) (auto simp: during_def)
    done
  show ?thesis unfolding attempt_playback_def
    by (auto intro!: during_bind [OF during_ops(3) [OF st quiet_preview_sections(2)]] during_bind [OF during_ops(1) [OF st]]
        during_bind [OF during_ops(2) [OF st]] during_Ret fault_schedule_during build split: sum.split)
qed

lemma retire_or_attempt_during: "during t (pb_held_is t None) (retire_or_attempt epoch i settings target pipeline)"
proof -
  note st = steady_pb [of t None]
  have due: "during t (pb_held_is t None) (perform (\<lambda>e w. (playback_due (en_now e) (w_pb_heap w ! i), w)))"
    by (rule during_perform [OF st]) simp
  have snap: "during t (pb_held_is t None) (perform (\<lambda>e w. (playback_snapshot_of (en_now e) (w_pb_heap w ! i), w)))"
    by (rule during_perform [OF st]) simp
  have schedule: "during t (pb_held_is t None) (perform (\<lambda>e w. ((), on_preview i (schedule_recovery (en_now e)) w)))"
    by (rule during_perform [OF st]) simp
  show ?thesis unfolding retire_or_attempt_def
    by (rule during_bind [OF snap], rule during_bind [OF during_ops(2) [OF st]])
      (intro during_bind during_if during_Ret retire_playback_ok during_ops(2) [OF st] schedule due attempt_during)
qed

lemma playback_turn_during: "during t (pb_held_is t None) playback_turn"
  unfolding playback_turn_def
  by (auto intro!: during_bind during_Ret during_ops(1,2) [OF steady_pb] during_ops(3) [OF steady_pb quiet_adapter]
      recheck_during health_check_during retire_or_attempt_during split: option.split)

lemma playback_step_ok: "okay t (playback_step t)"
  unfolding playback_step_def by (rule with_pb_lock_ok [OF playback_turn_during])

end
