(* ===== verification/Stream_Service.thy ===== *)
theory Stream_Service
  imports Playback_Tasks
begin

text \<open>
  The two streaming services under every schedule: user commands, supervisor turns, topology changes,
  callbacks of GStreamer and dropped tasks in any order and any interleaving of their atomic sections.
  The contract of the scheduler is discharged by the tasks of both services.
\<close>

section \<open>Everything that can happen\<close>

datatype stream_command =
    StartPlayback app_settings "nat option"
  | RetryPlayback bool "app_settings option"
  | StopPlayback
  | StartRecording
  | StopRecording
  | SetAudioMuted bool
  | PlaybackTurn
  | StartRestream "string set"
  | StopRestream
  | ApplyRestream restream_settings_update "string set"
  | SwitchRestream restream_protocol "string set"
  | TopologyChanged bind_scope u64
  | FirewallStatus firewall_outcome
  | RelayTurn nat

abbreviation run_to_end :: "'a stream_prog \<Rightarrow> unit stream_prog" where
  "run_to_end p \<equiv> prog_bind p (\<lambda>_. Ret ())"

fun stream_main :: "stream_command \<Rightarrow> task_id \<Rightarrow> unit stream_prog" where
  "stream_main (StartPlayback settings window) t = run_to_end (start_playback settings window)"
| "stream_main (RetryPlayback manual settings) t = run_to_end (retry_playback manual settings)"
| "stream_main StopPlayback t = run_to_end (stop_playback t)"
| "stream_main StartRecording t = run_to_end (start_recording t)"
| "stream_main StopRecording t = run_to_end (stop_recording t)"
| "stream_main (SetAudioMuted muted) t = set_audio_muted muted"
| "stream_main PlaybackTurn t = playback_step t"
| "stream_main (StartRestream adopted) t = run_to_end (start_restream_server t adopted)"
| "stream_main StopRestream t = run_to_end (stop_restream_server t)"
| "stream_main (ApplyRestream upd adopted) t = run_to_end (apply_restream_settings t upd adopted)"
| "stream_main (SwitchRestream protocol adopted) t = run_to_end (switch_restream_protocol t protocol adopted)"
| "stream_main (TopologyChanged scope revision) t = binding_topology_changed t scope revision"
| "stream_main (FirewallStatus v) t = startup_firewall_status v"
| "stream_main (RelayTurn n) t = relay_supervisor_turn n t"

text \<open>Dropping a task releases its locks and drops its local variables: a pipeline or listener that is
  dropped stops (\<open>Drop\<close> of \<open>PlaybackPipeline\<close>, \<open>RtspRestreamer\<close>, \<open>SrtRestreamer\<close>).\<close>

definition release_pb :: "task_id \<Rightarrow> stream_world \<Rightarrow> stream_world" where
  "release_pb t w =
     (if w_pb_lock w = Some t
      then w\<lparr>w_pb_lock := None, w_pb_held := None,
             w_running := (case w_pb_held w of Some p \<Rightarrow> removeAll p (w_running w) | None \<Rightarrow> w_running w)\<rparr>
      else w)"

definition release_rs :: "task_id \<Rightarrow> stream_world \<Rightarrow> stream_world" where
  "release_rs t w =
     (if w_rs_lock w = Some t
      then w\<lparr>w_rs_lock := None, w_rs_held := None,
             w_listeners := (case w_rs_held w of Some sv \<Rightarrow> removeAll sv (w_listeners w) | None \<Rightarrow> w_listeners w)\<rparr>
      else w)"

definition stream_release :: "task_id \<Rightarrow> stream_world \<Rightarrow> stream_world" where
  "stream_release t w =
     (let w' = release_rs t (release_pb t w)
      in w'\<lparr>w_rs_transaction := (if w_rs_transaction w' = Some t then None else w_rs_transaction w')\<rparr>)"

text \<open>Callbacks change health records and queue events; the operating system changes the topology.\<close>

datatype stream_outside =
    RelayCallback nat "instant \<Rightarrow> string" relay_event
  | PreviewCallback nat playback_event
  | FaultQueued relay_fault
  | TopologyRevision u64

fun stream_outside_step :: "stream_outside \<Rightarrow> stream_world \<Rightarrow> stream_world" where
  "stream_outside_step (RelayCallback i fmt ev) w = on_relay i (relay_step fmt ev) w"
| "stream_outside_step (PreviewCallback i ev) w = on_preview i (playback_event_step ev) w"
| "stream_outside_step (FaultQueued fault) w = send_event (RelayFaultEvent fault) w"
| "stream_outside_step (TopologyRevision r) w = w\<lparr>w_revision := r\<rparr>"

lemma stream_main_ok: "okay t (stream_main c t)"
  by (cases c) (auto intro!: during_bind during_Ret start_playback_ok retry_playback_ok stop_playback_ok start_recording_ok stop_recording_ok
      mute_ok playback_step_ok start_ok stop_ok apply_ok switch_ok topology_ok startup_status_ok supervisor_ok)

lemma release_pb_ok:
  assumes "world_inv w"
  shows "world_inv (release_pb t w) \<and> world_may t w (release_pb t w)"
proof (cases "w_pb_lock w = Some t")
  case True
  let ?running = "case w_pb_held w of Some p \<Rightarrow> removeAll p (w_running w) | None \<Rightarrow> w_running w"
  have held: "pb_held_is t (w_pb_held w) w" using True by (simp add: pb_held_is_def)
  have eq: "release_pb t w = (set_pb (\<lambda>_. w_pb w) w)\<lparr>w_pipes := w_pipes w, w_running := ?running, w_pb_held := None, w_pb_lock := None\<rparr>"
    using True by (simp add: release_pb_def set_pb_def)
  show ?thesis by (rule pipelines_section [OF assms held eq]) (auto simp: pipelines_ok_def split: option.split)
next
  case False
  with assms show ?thesis by (simp add: release_pb_def)
qed

lemma release_rs_ok:
  assumes "world_inv w"
  shows "world_inv (release_rs t w) \<and> world_may t w (release_rs t w)"
proof (cases "w_rs_lock w = Some t")
  case True
  let ?listeners = "case w_rs_held w of Some sv \<Rightarrow> removeAll sv (w_listeners w) | None \<Rightarrow> w_listeners w"
  have eq: "release_rs t w = w\<lparr>w_rs_lock := None, w_rs_held := None, w_listeners := ?listeners\<rparr>"
    using True by (simp add: release_rs_def)
  show ?thesis
  proof (rule section_ok [OF assms])
    assume s: "small w" "world_ok w"
    then have "listeners_ok (rd_server (w_rs w)) ?listeners None None"
      by (auto simp: world_ok_def listeners_ok_def split: option.split)
    then show "world_ok (release_rs t w)" using s(2) by (simp add: eq world_ok_def)
    show "world_steps t w (release_rs t w)" using True by (simp add: eq world_steps_def lock_moves_def)
  qed (simp_all add: eq)
next
  case False
  with assms show ?thesis by (simp add: release_rs_def)
qed

lemma stream_release_ok:
  assumes "world_inv w"
  shows "world_inv (stream_release t w) \<and> world_may t w (stream_release t w)"
proof -
  let ?v = "release_rs t (release_pb t w)"
  have "world_inv ?v" using release_rs_ok release_pb_ok assms by blast
  moreover have "quiet ?v (stream_release t w)" by (simp add: stream_release_def Let_def quiet_def)
  moreover have "world_steps t w (stream_release t w)"
    by (simp add: stream_release_def release_rs_def release_pb_def Let_def world_steps_def lock_moves_def)
  then have "world_may t w (stream_release t w)"
    by (simp add: world_may_def) (simp add: stream_release_def release_rs_def release_pb_def Let_def)
  ultimately show ?thesis using quiet_inv by blast
qed

lemma outside_quiet: "quiet w (stream_outside_step x w)"
  by (cases x) (simp_all add: quiet_on_relay, simp add: quiet_def)

interpretation services: task_service world_inv world_may stream_main stream_release stream_outside_step
proof
  show "stream.verified t (\<lambda>_. True) (stream_main c t) (\<lambda>_ _. True)" for t c
    using stream_main_ok by (simp add: during_def)
qed (use stream_release_ok quiet_inv quiet_may outside_quiet in blast)+

section \<open>Runs\<close>

type_synonym stream_event = "(stream_env, stream_command, stream_outside) schedule"

definition stream_tasks :: "restream_protocol \<Rightarrow> stream_event list \<Rightarrow> stream_world \<times> (stream_env, stream_world) tasks" where
  "stream_tasks p evs = fold (task_step stream_main stream_release stream_outside_step) evs (stream_world_new p, \<lambda>_. None)"

definition stream_run :: "restream_protocol \<Rightarrow> stream_event list \<Rightarrow> stream_world" where
  "stream_run p evs = fst (stream_tasks p evs)"

lemma run_step: "stream_run p (evs @ [ev]) = fst (task_step stream_main stream_release stream_outside_step ev (stream_tasks p evs))"
  by (simp add: stream_run_def stream_tasks_def)

lemma run_may: "stream_run p (evs @ [ev]) = stream_run p evs \<or> world_may (actor ev) (stream_run p evs) (stream_run p (evs @ [ev]))"
  using services.schedule_may [OF world_inv_new [of p] refl, of ev evs] by (simp add: run_step) (simp add: stream_run_def stream_tasks_def)

text \<open>A step begins at most one generation and advances the epoch at most once.\<close>

lemma run_lengths: "length (w_rs_heap (stream_run p evs)) \<le> length evs \<and> length (w_rs_owners (stream_run p evs)) \<le> length evs"
proof (induction evs rule: rev_induct)
  case Nil
  show ?case by (simp add: stream_run_def stream_tasks_def stream_world_new_def)
next
  case (snoc ev evs)
  from run_may [of p evs ev] snoc show ?case by (auto simp: world_may_def)
qed

lemma run_small: "length evs < 2 ^ 64 \<Longrightarrow> small (stream_run p evs)"
  using run_lengths [of p evs] by (simp add: small_def)

lemma run_ok:
  assumes "length evs < 2 ^ 64"
  shows "world_ok (stream_run p evs)"
  using services.schedule_inv [OF world_inv_new [of p], of evs] run_small [OF assms, of p]
  by (simp add: world_inv_def stream_run_def stream_tasks_def)

lemma run_steps:
  assumes "length (evs @ [ev]) < 2 ^ 64"
  shows "world_steps (actor ev) (stream_run p evs) (stream_run p (evs @ [ev]))"
proof -
  have "world_steps t w w" for t w by (simp add: world_steps_def lock_moves_def)
  with run_may [of p evs ev] run_small [OF assms, of p] show ?thesis by (auto simp: world_may_def)
qed

section \<open>What holds in every schedule\<close>

text \<open>Two runs that the witnesses below use: a preview and a re-stream of the same UDP port, each started
  and carried to its end by one task.\<close>

definition demo_settings :: app_settings where
  "demo_settings = (let s = app_settings_default (replicate 8 3)
     in s\<lparr>stream_cfg := (stream_cfg s)\<lparr>sc_protocol := InputUdp\<rparr>, rtsp_server := (rtsp_server s)\<lparr>rs_enabled := True\<rparr>\<rparr>)"

definition demo_env :: stream_env where
  "demo_env = \<lparr>en_now = 1, en_gst = Inr (), en_hwnd = None, en_selection = None, en_preflight = (\<lambda>_. Inr None), en_stale = False,
     en_call = Inr (), en_path = Inr [], en_free = None, en_settings = demo_settings, en_commit = Inr demo_settings,
     en_native = Inr [], en_interfaces = Inr [], en_adopted = {}, en_outcome = FwInactive, en_enabled = True,
     en_build = (BuildBind, Inr ()), en_timer = False, en_probe = None, en_fmt = (\<lambda>_. [])\<rparr>"

definition demo_preview :: "stream_event list" where
  "demo_preview = Spawn 1 (StartPlayback demo_settings None) # replicate 3 (Run 1 demo_env)"

definition demo_restream :: "stream_event list" where
  "demo_restream = Spawn 1 (StartRestream {}) # replicate 29 (Run 1 demo_env)"

lemma run_alone:
  assumes "alone (stream_main c t) (\<lambda>_. e) 0 (stream_world_new p) = Some ((), n, w)" "t \<noteq> 0"
  shows "stream_run p (Spawn t c # replicate n (Run t e)) = w"
  using alone_schedule [OF assms(1), of "(\<lambda>_. None)(t \<mapsto> stream_main c t)" t stream_main stream_release stream_outside_step] assms(2)
  by (simp add: stream_run_def stream_tasks_def idle_def)

lemma demo_settings_ok:
  "validate_prospective_settings demo_settings = Inr demo_settings" "validate_selected_restream_startable demo_settings = Inr ()"
  "resolve_selected_restream_output demo_settings = Inr (None, OutRtsp 8554 ''/stream-0303030303030303'')"
  "resolved_source_of demo_settings = Inr (SrcUdp 8600)" "bind_resolve 0 (Inr []) None None {} = Inr (None, AllAddresses FamilyIpv4 [] 0)"
  "rs_enabled (rtsp_server demo_settings)" "stream_target (stream_cfg demo_settings) = None" "saved_bind_id demo_settings = None"
  by code_simp+

lemma demo_env_simps [simp]:
  "en_now demo_env = 1" "en_gst demo_env = Inr ()" "en_preflight demo_env x = Inr None" "en_settings demo_env = demo_settings"
  "en_native demo_env = Inr []" "en_interfaces demo_env = Inr []" "en_outcome demo_env = FwInactive" "en_build demo_env = (BuildBind, Inr ())"
  "en_enabled demo_env"
  by (simp_all add: demo_env_def)

lemma demo_preview_run:
  "pd_source (w_pb (stream_run OutputRtsp demo_preview)) = Some (UdpMode 8600) \<and> pd_health (w_pb (stream_run OutputRtsp demo_preview)) = Some 0"
proof -
  let ?w = "snd (publish_playback_intent demo_settings None 0 demo_env (stream_world_new OutputRtsp))"
  obtain u where "build_input_url (stream_cfg demo_settings) = Inr u"
    by (auto simp: build_input_url_def demo_settings_def app_settings_default_def Let_def)
  then have "alone (stream_main (StartPlayback demo_settings None) 1) (\<lambda>_. demo_env) 0 (stream_world_new OutputRtsp) = Some ((), 3, ?w)"
    by (simp add: start_playback_def alone_bind stream_world_new_def numeral_3_eq_3 del: prog_bind_simps)
  then have "stream_run OutputRtsp demo_preview = ?w" unfolding demo_preview_def by (rule run_alone) simp
  moreover have "pd_source (w_pb ?w) = Some (UdpMode 8600) \<and> pd_health (w_pb ?w) = Some 0" by code_simp
  ultimately show ?thesis by simp
qed

lemmas demo_restream_steps = start_restream_server_def check_startable_def begin_restream_start_intent_def publish_restream_start_intent_def
  with_transaction_def start_restream_server_inner_def resolve_restream_start_spec_def resolve_binding_def with_rs_lock_def lock_rs_def
  unlock_rs_def replace_listener_def apply_firewall_def install_candidate_def build_restream_server_def fetch_rs_epoch_def
  publish_start_section_def reserve_section_def reserve_generation_def take_old_server_def take_server_def lease_section_def
  ensure_rule_def record_outcome_def begin_instance_def build_listener_def install_server_def guard_relay_def udp_ingest_port_def
  make_spec_def healthy_noop_def restream_intent_is_current_def relay_is_current_def relay_state_is_generation_def scope_current_def
  relay_health_new_def begin_server_instance_def spec_protocol_def firewall_role_def resolved_start_is_healthy_noop_def scope_revision_def

lemma demo_restream_run:
  obtains sv where "rd_server (w_rs (stream_run OutputRtsp demo_restream)) = Some sv" "sv_udp_port sv = Some 8600"
    "w_rules (stream_run OutputRtsp demo_restream) = [RuleRtsp]" "w_rs_lock (stream_run OutputRtsp demo_restream) = None"
    "w_rs_transaction (stream_run OutputRtsp demo_restream) = None" "w_rs_owners (stream_run OutputRtsp demo_restream) = [1]"
    "rd_desired (w_rs (stream_run OutputRtsp demo_restream))"
proof -
  have "\<exists>x w sv. alone (start_restream_server 1 {}) (\<lambda>_. demo_env) 0 (stream_world_new OutputRtsp) = Some (x, 29, w)
      \<and> rd_server (w_rs w) = Some sv \<and> sv_udp_port sv = Some 8600 \<and> w_rules w = [RuleRtsp] \<and> w_rs_lock w = None
      \<and> w_rs_transaction w = None \<and> w_rs_owners w = [1] \<and> rd_desired (w_rs w)"
    by (simp add: demo_restream_steps alone_bind demo_settings_ok res_bind_def Let_def set_rs_def on_relay_def stream_world_new_def
        relay_data_new_def playback_data_default_def del: prog_bind_simps)
  then obtain x w sv where w: "alone (start_restream_server 1 {}) (\<lambda>_. demo_env) 0 (stream_world_new OutputRtsp) = Some (x, 29, w)"
      and sv: "rd_server (w_rs w) = Some sv \<and> sv_udp_port sv = Some 8600 \<and> w_rules w = [RuleRtsp] \<and> w_rs_lock w = None
      \<and> w_rs_transaction w = None \<and> w_rs_owners w = [1] \<and> rd_desired (w_rs w)" by blast
  have "stream_run OutputRtsp demo_restream = w" unfolding demo_restream_def by (rule run_alone) (use w in \<open>simp_all add: alone_bind\<close>)
  with that sv show thesis by simp
qed

lemma demo_lengths: "length demo_preview = 4" "length demo_restream = 30"
  by (simp_all add: demo_preview_def demo_restream_def)

text \<open>C1: the preview and the re-stream never claim the same UDP port: in every state of every schedule of
  fewer than \<open>2\<^sup>6\<^sup>4\<close> steps, the port the preview asked for is neither the one a desired re-stream
  ingests from nor the one a stored listener receives on, and a stored listener receives on the port
  its generation was reserved for.\<close>

theorem udp_claims_disjoint:
  assumes "length evs < 2 ^ 64" "w = stream_run p evs"
  shows "(pd_source (w_pb w) = Some (UdpMode port) \<longrightarrow> \<not> relay_claims (w_rs w) port)
    \<and> (\<forall>sv sp i. rd_server (w_rs w) = Some sv \<and> rd_spec (w_rs w) = Some sp \<and> rd_health (w_rs w) = Some i \<and> sv_health sv = i
        \<longrightarrow> sv_udp_port sv = udp_ingest_port sp)"
  using run_ok [OF assms(1), of p]
  by (auto simp: assms(2) world_ok_def udp_ok_def relay_claims_def slot_ok_def intent_ok_def)

theorem udp_claims_disjoint_witness:
  "pd_source (w_pb (stream_run OutputRtsp demo_preview)) = Some (UdpMode 8600)
     \<and> \<not> relay_claims (w_rs (stream_run OutputRtsp demo_preview)) 8600"
  using udp_claims_disjoint [OF _ refl, of demo_preview OutputRtsp] demo_preview_run by (simp add: demo_lengths)

text \<open>C2: an enabled firewall rule always has its lease: in every state of every schedule, also when a task
  was dropped in the middle of a policy change, a rule that may be enabled is the one the recorded
  lease names, so a later stop or start finds and retires it; without a lease no rule is enabled.\<close>

theorem firewall_rules_are_leased:
  assumes "length evs < 2 ^ 64" "w = stream_run p evs"
  shows "(\<forall>r. r \<in> set (w_rules w) \<longrightarrow> (\<exists>g. rd_firewall_generation (w_rs w) = Some (g, r) \<and> lease_of g w = Some r))
    \<and> (rd_firewall_generation (w_rs w) = None \<longrightarrow> w_rules w = [])"
proof -
  have "lease_ok (rd_firewall_generation (w_rs w)) (w_rules w)" using run_ok [OF assms(1), of p] by (simp add: assms(2) world_ok_def)
  then have l: "\<forall>r\<in>set (w_rules w). \<exists>g. rd_firewall_generation (w_rs w) = Some (g, r)" by (simp add: lease_ok_def)
  then have "rd_firewall_generation (w_rs w) = None \<Longrightarrow> w_rules w = []" by (cases "w_rules w") auto
  with l show ?thesis by (auto simp: lease_of_def)
qed

theorem firewall_rules_are_leased_witness:
  "w_rules (stream_run OutputRtsp demo_restream) = [RuleRtsp]
     \<and> (\<exists>g. rd_firewall_generation (w_rs (stream_run OutputRtsp demo_restream)) = Some (g, RuleRtsp))"
proof (rule demo_restream_run)
  assume "w_rules (stream_run OutputRtsp demo_restream) = [RuleRtsp]"
  with firewall_rules_are_leased [OF _ refl, of demo_restream OutputRtsp] show ?thesis by (auto simp: demo_lengths)
qed

text \<open>C3: listeners do not leak and never compete: in every state of every schedule the running listeners
  are the stored one and the one in the local variable of the task that holds the lifecycle lock, no
  two of them belong to one generation, and a stored listener belongs to the generation of its health
  record.\<close>

theorem listeners_are_owned:
  assumes "length evs < 2 ^ 64" "w = stream_run p evs"
  shows "set (w_listeners w) = set_option (rd_server (w_rs w)) \<union> set_option (w_rs_held w)
    \<and> (w_rs_lock w = None \<longrightarrow> set (w_listeners w) = set_option (rd_server (w_rs w)))
    \<and> (\<forall>a b. a \<in> set (w_listeners w) \<and> b \<in> set (w_listeners w) \<and> sv_generation a = sv_generation b \<longrightarrow> a = b)
    \<and> (\<forall>sv. rd_server (w_rs w) = Some sv \<longrightarrow> sv_generation sv = rh_server_generation (w_rs_heap w ! sv_health sv))"
proof -
  have ok: "listeners_ok (rd_server (w_rs w)) (w_listeners w) (w_rs_held w) (w_rs_lock w)"
    and slot: "slot_ok (rd_server (w_rs w)) (w_rs_ports w)" and counters: "counters_ok (w_rs_heap w) (w_rs_ports w) (w_rs_generation w)"
    using run_ok [OF assms(1), of p] by (simp_all add: assms(2) world_ok_def)
  from slot counters have "\<forall>sv. rd_server (w_rs w) = Some sv \<longrightarrow> sv_generation sv = rh_server_generation (w_rs_heap w ! sv_health sv)"
    by (auto simp: slot_ok_def counters_ok_def)
  with ok show ?thesis unfolding listeners_ok_def
    by (cases "rd_server (w_rs w)"; cases "w_rs_held w") auto
qed

theorem listeners_are_owned_witness:
  "\<exists>sv. sv_udp_port sv = Some 8600 \<and> rd_server (w_rs (stream_run OutputRtsp demo_restream)) = Some sv
     \<and> set (w_listeners (stream_run OutputRtsp demo_restream)) = {sv}"
proof (rule demo_restream_run)
  fix sv
  assume "rd_server (w_rs (stream_run OutputRtsp demo_restream)) = Some sv" "sv_udp_port sv = Some 8600"
    "w_rs_lock (stream_run OutputRtsp demo_restream) = None"
  with listeners_are_owned [OF _ refl, of demo_restream OutputRtsp] show ?thesis by (auto simp: demo_lengths)
qed

text \<open>C4: a superseded request cannot bring back what it wanted: in every schedule, a step of a task that did
  not advance the re-stream epoch last leaves the desired state and its intent as they are; and
  whoever takes the step, a re-stream that is not desired gains no listener, and without the
  lifecycle lock neither the stored listener nor the lease changes and no rule is enabled.\<close>

theorem superseded_requests_are_inert:
  assumes "Suc (length evs) < 2 ^ 64" "w = stream_run p evs" "w' = stream_run p (evs @ [ev])"
  shows "((\<forall>earlier. w_rs_owners w \<noteq> earlier @ [actor ev]) \<longrightarrow>
        rd_desired (w_rs w') = rd_desired (w_rs w) \<and> rd_intent_epoch (w_rs w') = rd_intent_epoch (w_rs w))
    \<and> (\<not> rd_desired (w_rs w) \<longrightarrow> rd_server (w_rs w') \<in> {rd_server (w_rs w), None})
    \<and> (w_rs_lock w \<noteq> Some (actor ev) \<longrightarrow> rd_server (w_rs w') = rd_server (w_rs w)
        \<and> rd_firewall_generation (w_rs w') = rd_firewall_generation (w_rs w) \<and> set (w_rules w') \<subseteq> set (w_rules w))"
  using run_steps [of evs ev p] assms(1) unfolding assms(2,3) world_steps_def by auto

theorem superseded_requests_are_inert_witness:
  "w_rs_owners (stream_run OutputRtsp demo_restream) = [1] \<and> rd_desired (w_rs (stream_run OutputRtsp (demo_restream @ [Spawn 2 StopRestream])))"
proof (rule demo_restream_run)
  assume "w_rs_owners (stream_run OutputRtsp demo_restream) = [1]" "rd_desired (w_rs (stream_run OutputRtsp demo_restream))"
  with superseded_requests_are_inert [OF _ refl refl, of demo_restream OutputRtsp "Spawn 2 StopRestream"] show ?thesis
    by (simp add: demo_lengths)
qed

text \<open>C6: preview pipelines do not leak and a recording has its pipeline: in every state of every schedule
  the running pipelines are the stored one and the one in the local variable of the task that holds
  the lifecycle lock; a recording is reported only while a pipeline is stored; and a preview has
  settings, a health record and an intent together or not at all.\<close>

theorem preview_pipelines_are_owned:
  assumes "length evs < 2 ^ 64" "w = stream_run p evs"
  shows "set (w_running w) = set_option (pd_playback (w_pb w)) \<union> set_option (w_pb_held w)
    \<and> (w_pb_lock w = None \<longrightarrow> set (w_running w) = set_option (pd_playback (w_pb w)))
    \<and> (pd_recording (w_pb w) \<longrightarrow> pd_playback (w_pb w) \<noteq> None)
    \<and> (pd_playback (w_pb w) = None \<longleftrightarrow> pd_instance (w_pb w) = None)
    \<and> (pd_settings (w_pb w) = None \<longleftrightarrow> pd_health (w_pb w) = None) \<and> (pd_settings (w_pb w) = None \<longleftrightarrow> pd_intent_epoch (w_pb w) = None)
    \<and> (\<forall>i. pd_health (w_pb w) = Some i \<longrightarrow> i < length (w_pb_heap w))"
proof -
  have "pipelines_ok (pd_playback (w_pb w)) (pd_instance (w_pb w)) (pd_recording (w_pb w)) (w_running w) (w_pb_held w) (w_pb_lock w) (length (w_pipes w))"
    and "preview_ok (pd_settings (w_pb w) \<noteq> None) (pd_health (w_pb w)) (pd_intent_epoch (w_pb w) \<noteq> None) (length (w_pb_heap w))"
    using run_ok [OF assms(1), of p] by (simp_all add: assms(2) world_ok_def)
  then show ?thesis by (auto simp: pipelines_ok_def preview_ok_def)
qed

theorem preview_pipelines_are_owned_witness:
  "pd_health (w_pb (stream_run OutputRtsp demo_preview)) = Some 0 \<and> pd_settings (w_pb (stream_run OutputRtsp demo_preview)) \<noteq> None
     \<and> 0 < length (w_pb_heap (stream_run OutputRtsp demo_preview))"
  using preview_pipelines_are_owned [OF _ refl, of demo_preview OutputRtsp] demo_preview_run by (auto simp: demo_lengths)

section \<open>A stop alone\<close>

definition torn_down :: "stream_world \<Rightarrow> bool" where
  "torn_down w \<longleftrightarrow> \<not> rd_desired (w_rs w) \<and> rd_health (w_rs w) = None \<and> rd_spec (w_rs w) = None
     \<and> rd_server (w_rs w) = None \<and> w_listeners w = [] \<and> w_rs_lock w = None \<and> w_rs_transaction w = None"

text \<open>Changes of the lease alone.\<close>

definition relets :: "stream_world \<Rightarrow> stream_world \<Rightarrow> bool" where
  "relets w w' \<longleftrightarrow> lease_ok (rd_firewall_generation (w_rs w')) (w_rules w')
     \<and> rd_desired (w_rs w') = rd_desired (w_rs w) \<and> rd_health (w_rs w') = rd_health (w_rs w) \<and> rd_spec (w_rs w') = rd_spec (w_rs w)
     \<and> rd_server (w_rs w') = rd_server (w_rs w) \<and> w_listeners w' = w_listeners w \<and> w_rs_lock w' = w_rs_lock w
     \<and> w_rs_transaction w' = w_rs_transaction w"

lemma relets_refl: "lease_ok (rd_firewall_generation (w_rs w)) (w_rules w) \<Longrightarrow> relets w w"
  by (simp add: relets_def)

lemma relets_trans: "relets u v \<Longrightarrow> relets v w \<Longrightarrow> relets u w"
  by (simp add: relets_def)

lemma alone_retire:
  assumes "\<forall>n. en_outcome (E n) = FwInactive" "lease_ok (rd_firewall_generation (w_rs w)) (w_rules w)"
  obtains b m w' where "alone (retire_firewall g) E n w = Some (b, m, w')" "relets w w'"
    "rd_firewall_generation (w_rs w') = (if lease_of g w = None then rd_firewall_generation (w_rs w) else None)"
proof (cases "lease_of g w")
  case None
  with that [of True "Suc n" w] relets_refl [OF assms(2)] show thesis by (simp add: retire_firewall_def alone_bind)
next
  case (Some role)
  then have l: "rd_firewall_generation (w_rs w) = Some (g, role)" by (auto simp: lease_of_def split: option.splits if_splits)
  with assms(2) have "removeAll role (w_rules w) = []" by (auto simp: lease_ok_def removeAll_filter_not_eq filter_empty_conv)
  with assms(1) l Some have "alone (retire_firewall g) E n w = Some (True, Suc (Suc (Suc n)),
      (set_rs (\<lambda>r. r\<lparr>rd_firewall_generation := None, rd_firewall := FwInactive\<rparr>) w)\<lparr>w_rules := []\<rparr>)"
    by (simp add: retire_firewall_def alone_bind disable_rule_def record_retirement_def set_rs_def)
  with Some that show thesis by (fastforce simp: relets_def set_rs_def lease_ok_def)
qed

text \<open>The intent of a stop names the stored listener and the lease.\<close>

lemma begin_stop_alone:
  assumes "world_ok w" "w_rs_lock w = None" "w_rs_transaction w = None"
  obtains intent m w' where "alone (begin_restream_stop_intent t) E n w = Some (Some intent, m, w')"
    "\<not> rd_desired (w_rs w')" "rd_health (w_rs w') = None" "rd_spec (w_rs w') = None" "rd_server (w_rs w') = rd_server (w_rs w)"
    "rd_firewall_generation (w_rs w') = rd_firewall_generation (w_rs w)" "w_rules w' = w_rules w" "w_listeners w' = w_listeners w"
    "w_rs_lock w' = None" "w_rs_transaction w' = None"
    "\<forall>sv. rd_server (w_rs w) = Some sv \<longrightarrow> si_target_generation intent = Some (sv_generation sv)"
    "si_firewall_generation intent = map_option fst (rd_firewall_generation (w_rs w))"
proof -
  let ?v = "snd (fetch_rs_epoch t w)" and ?s = "publish_stop_section (w_rs_epoch w + 1) (snd (fetch_rs_epoch t w))"
  have off: "\<not> rd_desired (w_rs w) \<Longrightarrow> rd_health (w_rs w) = None \<and> rd_spec (w_rs w) = None"
    using assms(1) by (auto simp: world_ok_def intent_ok_def split: option.splits)
  obtain intent where i: "fst ?s = Some intent" "si_firewall_generation intent = map_option fst (rd_firewall_generation (w_rs w))"
      "\<forall>sv. rd_server (w_rs w) = Some sv \<longrightarrow> si_target_generation intent = Some (sv_generation sv)"
    using off by (cases "rd_desired (w_rs w)") (auto simp: publish_stop_section_def fetch_rs_epoch_def Let_def restream_stop_target_def)
  have "alone (begin_restream_stop_intent t) E n w = Some (Some intent, Suc (Suc n), snd ?s)"
    using i(1) by (simp add: begin_restream_stop_intent_def alone_bind) (simp add: fetch_rs_epoch_def)
  moreover have "\<not> rd_desired (w_rs (snd ?s)) \<and> rd_health (w_rs (snd ?s)) = None \<and> rd_spec (w_rs (snd ?s)) = None
      \<and> rd_server (w_rs (snd ?s)) = rd_server (w_rs w) \<and> rd_firewall_generation (w_rs (snd ?s)) = rd_firewall_generation (w_rs w)
      \<and> w_rules (snd ?s) = w_rules w \<and> w_listeners (snd ?s) = w_listeners w \<and> w_rs_lock (snd ?s) = None \<and> w_rs_transaction (snd ?s) = None"
    using off assms(2,3)
    by (auto simp: publish_stop_section_def fetch_rs_epoch_def Let_def set_rs_def clear_desired_def stop_relay_health_def on_relay_def split: option.split)
  ultimately show thesis using that i(2,3) by blast
qed

lemma retire_all_alone:
  assumes E: "\<forall>n. en_outcome (E n) = FwInactive" and w: "lease_ok (rd_firewall_generation (w_rs w)) (w_rules w)"
    and fw: "si_firewall_generation intent = map_option fst (rd_firewall_generation (w_rs w))"
  obtains m w' where "alone (prog_bind (case si_target_generation intent of Some g \<Rightarrow> retire_firewall g | None \<Rightarrow> Ret True) (\<lambda>_.
       prog_bind (case si_firewall_generation intent of
                  Some g \<Rightarrow> if si_firewall_generation intent \<noteq> si_target_generation intent then retire_firewall g else Ret True
                | None \<Rightarrow> Ret True) (\<lambda>_. Ret (Inr ())))) E n w = Some (Inr (), m, w')"
    "relets w w'" "rd_firewall_generation (w_rs w') = None" "w_rules w' = []"
proof -
  have kept: "lease_ok (rd_firewall_generation (w_rs v)) (w_rules v)" if "relets w v" for v using that by (simp add: relets_def)
  let ?first = "case si_target_generation intent of Some g \<Rightarrow> retire_firewall g | None \<Rightarrow> Ret True"
  obtain b m v where first: "alone ?first E n w = Some (b, m, v)" "relets w v"
    "rd_firewall_generation (w_rs v) = (if \<exists>g. si_target_generation intent = Some g \<and> lease_of g w \<noteq> None then None else rd_firewall_generation (w_rs w))"
  proof (cases "si_target_generation intent")
    case None
    with that [of True n w] relets_refl [OF w] show thesis by simp
  next
    case (Some g)
    obtain b m v where "alone (retire_firewall g) E n w = Some (b, m, v)" "relets w v"
      "rd_firewall_generation (w_rs v) = (if lease_of g w = None then rd_firewall_generation (w_rs w) else None)" by (rule alone_retire [OF E w])
    with that Some show thesis by auto
  qed
  let ?second = "case si_firewall_generation intent of
      Some g \<Rightarrow> if si_firewall_generation intent \<noteq> si_target_generation intent then retire_firewall g else Ret True | None \<Rightarrow> Ret True"
  obtain b' m' u where second: "alone ?second E m v = Some (b', m', u)" "relets v u" "rd_firewall_generation (w_rs u) = None"
  proof (cases "rd_firewall_generation (w_rs w)")
    case None
    with that [of True m v] fw first relets_refl [OF kept [OF first(2)]] show thesis by simp
  next
    case (Some l)
    obtain g role where l: "l = (g, role)" by (cases l)
    have lease: "lease_of g w = Some role" by (simp add: lease_of_def Some l)
    show thesis
    proof (cases "si_target_generation intent = Some g")
      case True
      with that [of True m v] fw first relets_refl [OF kept [OF first(2)]] show thesis by (simp add: Some l lease)
    next
      case False
      have "\<not> (\<exists>g'. si_target_generation intent = Some g' \<and> lease_of g' w \<noteq> None)" using False by (auto simp: lease_of_def Some l split: if_splits)
      with first(3) have v: "rd_firewall_generation (w_rs v) = Some (g, role)" by (simp add: Some l)
      obtain b m' u where "alone (retire_firewall g) E m v = Some (b, m', u)" "relets v u"
        "rd_firewall_generation (w_rs u) = (if lease_of g v = None then rd_firewall_generation (w_rs v) else None)"
        by (rule alone_retire [OF E kept [OF first(2)]])
      moreover have "lease_of g v \<noteq> None" by (simp add: lease_of_def v)
      ultimately show thesis using that [of b m' u] False fw by (simp add: Some l)
    qed
  qed
  have "relets w u" by (rule relets_trans [OF first(2) second(2)])
  moreover from kept [OF this] second(3) have "w_rules u = []" by (cases "w_rules u") (auto simp: lease_ok_def)
  moreover have "alone (prog_bind ?first (\<lambda>_. prog_bind ?second (\<lambda>_. Ret (Inr ())))) E n w = Some (Inr (), m', u)"
    using first(1) second(1) by (simp add: alone_bind)
  ultimately show thesis using that second(3) by blast
qed

lemma finish_stop_alone:
  assumes E: "\<forall>n. en_outcome (E n) = FwInactive" and w: "lease_ok (rd_firewall_generation (w_rs w)) (w_rules w)"
    and fw: "si_firewall_generation intent = map_option fst (rd_firewall_generation (w_rs w))"
    and target: "\<forall>sv. rd_server (w_rs w) = Some sv \<longrightarrow> si_target_generation intent = Some (sv_generation sv)"
    and free: "w_rs_lock w = None" "set (w_listeners w) = set_option (rd_server (w_rs w))"
  obtains m w' where "alone (finish_restream_stop t intent) E n w = Some (Inr (), m, w')"
    "rd_desired (w_rs w') = rd_desired (w_rs w)" "rd_health (w_rs w') = rd_health (w_rs w)" "rd_spec (w_rs w') = rd_spec (w_rs w)"
    "rd_server (w_rs w') = None" "w_listeners w' = []" "w_rs_lock w' = None" "w_rs_transaction w' = w_rs_transaction w"
    "rd_firewall_generation (w_rs w') = None" "w_rules w' = []"
proof -
  let ?take = "take_server (\<lambda>sv. Some (sv_generation sv) = si_target_generation intent) (w\<lparr>w_rs_lock := Some t\<rparr>)"
  define v where "v = (case fst ?take of Some sv \<Rightarrow> shutdown_server sv (snd ?take) | None \<Rightarrow> snd ?take)"
  have v: "rd_server (w_rs v) = None" "w_listeners v = []" "rd_desired (w_rs v) = rd_desired (w_rs w)" "rd_health (w_rs v) = rd_health (w_rs w)"
    "rd_spec (w_rs v) = rd_spec (w_rs w)" "w_rs_transaction v = w_rs_transaction w"
    "rd_firewall_generation (w_rs v) = rd_firewall_generation (w_rs w)" "w_rules v = w_rules w"
    using target free(2)
    by (cases "rd_server (w_rs w)"; auto simp: v_def take_server_def shutdown_server_def set_rs_def removeAll_filter_not_eq filter_empty_conv)+
  define k where "k = (case fst ?take of Some _ \<Rightarrow> Suc (Suc (Suc n)) | None \<Rightarrow> Suc (Suc n))"
  have w': "lease_ok (rd_firewall_generation (w_rs v)) (w_rules v)" "si_firewall_generation intent = map_option fst (rd_firewall_generation (w_rs v))"
    using w fw v by simp_all
  define rest where "rest = prog_bind (case si_target_generation intent of Some g \<Rightarrow> retire_firewall g | None \<Rightarrow> Ret True) (\<lambda>_.
       prog_bind (case si_firewall_generation intent of
                  Some g \<Rightarrow> if si_firewall_generation intent \<noteq> si_target_generation intent then retire_firewall g else Ret True
                | None \<Rightarrow> Ret True) (\<lambda>_. Ret (Inr () :: unit result)))"
  obtain m u where u: "alone rest E k v = Some (Inr (), m, u)" "relets v u" "rd_firewall_generation (w_rs u) = None" "w_rules u = []"
    unfolding rest_def using retire_all_alone [OF E w'] .
  have stop: "alone (case fst ?take of Some sv \<Rightarrow> modify (shutdown_server sv) | None \<Rightarrow> Ret ()) E (Suc (Suc n)) (snd ?take) = Some ((), k, v)"
    by (simp add: k_def v_def split: option.split)
  have "alone (finish_restream_stop t intent) E n w = Some (Inr (), Suc m, u\<lparr>w_rs_lock := None\<rparr>)"
    unfolding finish_restream_stop_def with_rs_lock_def lock_rs_def unlock_rs_def rest_def [symmetric]
    by (simp add: alone_bind free(1) stop u(1) del: prog_bind_simps)
  with that u v show thesis by (simp add: relets_def)
qed



end
