(* ===== verification/Spec2Isabelle.thy ===== *)
theory Spec2Isabelle
  imports Caller_Registry Config_Interleaving Config_Persist Device_Snapshot Temporary_Claims Binding_Store
    Camera_Readiness Relay_Laws Stream_Service
begin

text \<open>
  PocketStream Desktop finds cameras on the wired network, gives the machine addresses to reach
  them, and plays, records and re-streams their video. This development models the Rust backend
  under \<open>src/src-tauri/src\<close>. It is a shallow embedding: pure functions are HOL functions, stateful
  objects are records passed explicitly, errors are values of \<open>app_error + 'a\<close>, machine integers
  keep their width, and code outside the repository (the cipher, serde, chrono, the \<open>ipnetwork\<close>
  crate, GStreamer, the operating system) is an argument of the definitions that use it.

  \<^bold>\<open>How the parts fit.\<close> The settings hold the saved network mode, the chosen adapter, the committed
  addresses and the temporary claims. Discovery captures frames, queues candidates and verifies
  them by probes; what is verified enters the device registry as live evidence with a deadline.
  An address outside the adapter's own subnets is adopted in a transaction that leaves a
  breadcrumb, claims the address durably and hands it over to the binding store, which keeps the
  adapter in the wanted state. A stream asks for a camera path, which is granted only on current
  evidence. The preview and the re-stream share one state: user commands, supervisor turns, topology
  changes and callbacks of the media library act on it as interleaved tasks, each with a health
  record that counts its attempts and faults; SRT viewers of the re-stream are admitted by a bounded
  registry.

  \<^bold>\<open>Theories.\<close>
  \<^item> \<open>Prelude\<close>: integers, Rust strings and hash maps, the locales \<open>dictionary\<close> (what a client of a
    hash map relies on) and \<open>guarded_machine\<close> (a state machine with an invariant; every component
    with an event type interprets it). \<open>Errors\<close>: \<open>error.rs\<close> and fallible steps over a state.
  \<^item> \<open>Addresses\<close>, \<open>Mac\<close>: \<open>validation.rs\<close>, parts of \<open>network/ip_config.rs\<close>, device identities.
    Printing and parsing are inverse; identities compare up to spelling.
  \<^item> \<open>Settings\<close>: the data of \<open>config.rs\<close> and the validator of \<open>settings_validation.rs\<close>, which accepts
    exactly the valid snapshots. \<open>Config_Store\<close>: every writer over an abstract disk.
    \<open>Config_Invariants\<close>: the rules of the saved state, agreement of memory and disk, persistence of
    removals. \<open>Config_Interleaving\<close>: the same for interleaved critical sections.
    \<open>Config_Persist\<close>: encryption, atomic writes over a file system with every intermediate state,
    quarantine, loading.
  \<^item> \<open>Caller_Registry\<close>: \<open>streaming/caller_registry.rs\<close> and its abstract admission contract.
  \<^item> \<open>Device_Registry\<close>, \<open>Registry_Invariants\<close>: \<open>network/device_registry.rs\<close>; records are keyed by their
    identity, live records rest on evidence and expire. \<open>Device_Snapshot\<close>: the order of the
    snapshot and the debounced emitter of \<open>network/mod.rs\<close>.
  \<^item> \<open>Auto_Adopt\<close>, \<open>Adopt_Laws\<close>: \<open>network/auto_adopt.rs\<close>, with the trace of its effects; every prefix
    of the trace is recoverable. \<open>Temporary_Claims\<close>: the durable claims around it.
  \<^item> \<open>Native_Adapters\<close>: the pure part of \<open>network/interface.rs\<close>. \<open>Bindings\<close>, \<open>Binding_Store\<close>: adapter
    selection, the binding decision, its application, publication and reconciliation
    (\<open>network/mod.rs\<close>, \<open>network/binding_store.rs\<close>).
  \<^item> \<open>Discovery_Policy\<close>: \<open>network/ghost.rs\<close>, \<open>network/reaper.rs\<close>, \<open>network/route.rs\<close> and the decisions of
    \<open>network/mod.rs\<close>. \<open>Presence\<close>: \<open>network/presence.rs\<close> and the candidate queue of
    \<open>network/arp.rs\<close>. \<open>Camera_Readiness\<close>: \<open>network/readiness.rs\<close> and the source policy of
    \<open>streaming/source.rs\<close>, where presence, registry, selection and native addresses meet.
  \<^item> \<open>Bind_Scope\<close>: the listening address of \<open>network/bindings.rs\<close>. \<open>Relay\<close>, \<open>Relay_Laws\<close>,
    \<open>Playback_Health\<close>: the health machines of \<open>streaming/relay.rs\<close>: late callbacks are inert, the first
    fault is final, the watchdogs are exact, the backoff is bounded.
  \<^item> \<open>Tasks\<close>: programs of atomic sections, a scheduler that interleaves, starts and drops them, and the
    locales \<open>task_system\<close> and \<open>task_service\<close>, in which a section is verified once, against an invariant
    and what other tasks may do. \<open>Stream_State\<close>: the shared state, UDP admission, redaction and status
    (\<open>streaming/state.rs\<close>, \<open>streaming/udp.rs\<close>, \<open>streaming/status.rs\<close>). \<open>Playback_Service\<close>
    (\<open>streaming/playback.rs\<close>, \<open>streaming/recorder.rs\<close>) and \<open>Relay_Service\<close>
    (\<open>streaming/relay_service.rs\<close>): every command and supervisor turn as such a program, one section
    per lock scope, atomic operation or awaited call.
  \<^item> \<open>Stream_Laws\<close>: the invariant of the shared state and what one task may change. \<open>Relay_Verified\<close>,
    \<open>Relay_Tasks\<close>, \<open>Playback_Tasks\<close>: every program keeps to them. \<open>Stream_Service\<close>: the locale
    \<open>task_service\<close> is interpreted on the commands of \<open>streaming/mod.rs\<close>, so the invariant holds in every
    schedule: ports, firewall leases, listeners and pipelines have one owner, superseded requests
    are inert, and a stop tears everything down.

  \<^bold>\<open>Bounds.\<close> Time is milliseconds of a monotonic clock. A loop that waits on the operating system
  takes the number of its polls as an argument and is proved for every value, and so does the
  recovery loop of the re-stream with its attempts. Epochs and generations are 64-bit counters: what
  holds in every schedule is stated for schedules of fewer than \<open>2\<^sup>6\<^sup>4\<close> steps, in which they cannot wrap.
  A lock that is never released leaves its waiters disabled, which the scheduler shows as a step that
  changes nothing. Everything else is total: no definition runs out of fuel.

  \<^bold>\<open>Not modelled.\<close> Packet capture and its sessions, native child processes and kernel objects, the
  policy requests of the firewall, sockets and ICMP, the construction of GStreamer pipelines,
  screenshots and the stall diagnostic, window embedding, camera control, the Tauri commands, logging
  and start-up: they are calls into the operating system or libraries, whose answers are values of
  the environment where a modelled operation uses them. The discovery session, the adoption loop,
  manual addresses and the scanner supervise tasks over the operations modelled here.
\<close>

end
